theory Spec2Isabelle
  imports Complex_Main "HOL-Library.Char_ord" "HOL-Library.List_Lexorder"
begin

section \<open>Data model (src/types)\<close>

text \<open>
  Timestamps are ISO-8601 strings in the source; they are represented here by the instant
  they denote, in milliseconds since the epoch, which is what \<^verbatim>\<open>new Date(s).getTime()\<close>
  reads from them. An optional field (\<^verbatim>\<open>updated_at?: string\<close>) is an \<open>option\<close>.
  Field names are those of the source, with a prefix where two interfaces share a name
  (\<^verbatim>\<open>id\<close>, \<^verbatim>\<open>user_id\<close>, \<^verbatim>\<open>created_at\<close>).
\<close>

record Expense =
  expense_id :: string
  user_id :: "string option"
  content :: string
  price :: real
  date :: string
  created_at :: int
  updated_at :: "int option"
  synced :: "bool option"
  sync_error :: "string option"

text \<open>\<^verbatim>\<open>Partial<Expense>\<close>: every field may be absent.\<close>

record ExpenseUpdates =
  u_id :: "string option"
  u_user_id :: "string option"
  u_content :: "string option"
  u_price :: "real option"
  u_date :: "string option"
  u_created_at :: "int option"
  u_updated_at :: "int option"
  u_synced :: "bool option"
  u_sync_error :: "string option"

record GoalTemplate =
  template_id :: string
  t_user_id :: string
  title :: string
  day_of_week :: int
  order_index :: int
  is_active :: bool
  t_created_at :: int
  t_updated_at :: int

text \<open>\<^verbatim>\<open>Omit<DailyGoalCompletion, 'id' | 'created_at'>\<close> and the full record extending it.\<close>

record CompletionInput =
  c_user_id :: string
  goal_template_id :: string
  completion_date :: string
  is_completed :: bool
  completed_at :: "int option"

record DailyGoalCompletion = CompletionInput +
  completion_id :: string
  c_created_at :: int

record GoalStats =
  gs_template_id :: string
  gs_title :: string
  completions :: nat
  total_days :: nat
  completion_rate :: real

record ReportData =
  goals :: "GoalStats list"
  overall_completion_rate :: real

text \<open>\<^verbatim>\<open>Omit<WeeklyReport, 'id' | 'generated_at'>\<close> and the full record extending it.\<close>

record ReportInput =
  r_user_id :: string
  week_start_date :: string
  report_data :: ReportData

record WeeklyReport = ReportInput +
  report_id :: string
  generated_at :: int

record ExpiryInfo =
  expiryDate :: "int option"
  daysRemaining :: "int option"

text \<open>\<^verbatim>\<open>String.prototype.includes\<close>\<close>

fun str_includes :: "string \<Rightarrow> string \<Rightarrow> bool" where
  "str_includes [] p = (p = [])"
| "str_includes (c # cs) p = (take (length p) (c # cs) = p \<or> str_includes cs p)"

text \<open>
  What a \<^verbatim>\<open>throw\<close> carries: a JavaScript \<^verbatim>\<open>Error\<close> with its message, or an
  \<^verbatim>\<open>AppError\<close> object \<^verbatim>\<open>{code, message, ...}\<close> (utils/errors). The codes are the keys of
  \<^verbatim>\<open>ERROR_CODES\<close>, and the literal \<^verbatim>\<open>'UNKNOWN_ERROR'\<close> of \<^verbatim>\<open>parseError\<close>.
\<close>

datatype error_code =
  NETWORK_ERROR | AUTH_ERROR | VALIDATION_ERROR | STORAGE_ERROR | SYNC_ERROR
  | PERMISSION_ERROR | UNKNOWN_ERROR

datatype thrown = Error string | AppError error_code string

fun message :: "thrown \<Rightarrow> string" where
  "message (Error m) = m"
| "message (AppError c m) = m"

text \<open>
  \<^verbatim>\<open>parseError\<close>: an \<^verbatim>\<open>Error\<close> instance keeps its message; any other object, an
  \<^verbatim>\<open>AppError\<close> included, becomes the unknown error. \<^verbatim>\<open>handleAsyncError\<close> logs and returns it.
\<close>

fun parseError :: "thrown \<Rightarrow> thrown" where
  "parseError (Error m) = AppError UNKNOWN_ERROR m"
| "parseError (AppError c m) = AppError UNKNOWN_ERROR ''An unknown error occurred''"

definition handleAsyncError :: "thrown \<Rightarrow> thrown" where
  "handleAsyncError err = parseError err"

definition createAuthError :: "string \<Rightarrow> thrown" where
  "createAuthError m = AppError AUTH_ERROR m"

definition createNetworkError :: "string \<Rightarrow> thrown" where
  "createNetworkError m = AppError NETWORK_ERROR m"

definition createStorageError :: "string \<Rightarrow> thrown" where
  "createStorageError m = AppError STORAGE_ERROR m"

record User =
  uid :: string
  email :: "string option"
  isGuest :: bool
  user_created_at :: int
  user_updated_at :: int

record SyncStatus =
  last_sync :: "int option"
  pending_changes :: nat
  sync_in_progress :: bool
  error :: "string option"

section \<open>The Local Store (services/storage, LocalStorageService)\<close>

text \<open>
  AsyncStorage holds one JSON document per key of \<^verbatim>\<open>STORAGE_KEYS\<close>; a key that was never
  written (or was removed) reads as \<^verbatim>\<open>null\<close>, here \<open>None\<close>. \<^verbatim>\<open>JSON.stringify\<close> and
  \<^verbatim>\<open>JSON.parse\<close> are inverse on the stored lists and are left out. The three flags say
  whether the platform's persistence layer rejects \<^verbatim>\<open>getItem\<close>, \<^verbatim>\<open>setItem\<close> and
  \<^verbatim>\<open>multiRemove\<close>: they feed the \<^verbatim>\<open>catch\<close> branches of the service.
\<close>

record AsyncStorage =
  expenses_item :: "Expense list option"
  goal_templates_item :: "GoalTemplate list option"
  goal_completions_item :: "DailyGoalCompletion list option"
  weekly_reports_item :: "WeeklyReport list option"
  expiry_item :: "int option"
  get_fails :: bool
  set_fails :: bool
  remove_fails :: bool

definition storage_failure :: thrown where
  "storage_failure = Error ''AsyncStorage failure''"

definition EXPIRY_DAYS :: int where
  "EXPIRY_DAYS = 30"

definition MS_PER_DAY :: int where
  "MS_PER_DAY = 1000 * 60 * 60 * 24"

text \<open>\<^verbatim>\<open>Array.prototype.findIndex\<close>: the first index whose element satisfies the test.\<close>

fun findIndex :: "('a \<Rightarrow> bool) \<Rightarrow> 'a list \<Rightarrow> nat option" where
  "findIndex P [] = None"
| "findIndex P (x # xs) =
     (if P x then Some 0 else map_option Suc (findIndex P xs))"

definition isDataExpired :: "int \<Rightarrow> AsyncStorage \<Rightarrow> bool" where
  "isDataExpired now s =
     (if get_fails s then False
      else case expiry_item s of
             None \<Rightarrow> False
           | Some expiry \<Rightarrow> now > expiry)"

text \<open>
  \<^verbatim>\<open>setExpiryDate\<close>: \<^verbatim>\<open>expiryDate.setDate(expiryDate.getDate() + EXPIRY_DAYS)\<close> moves the
  local calendar date on by 30 days. The stamp is taken here as 30 times 24 hours after
  \<open>now\<close>, which is what it is unless the zone's offset changes in between (a daylight
  saving change moves it by that change, an hour).
\<close>

definition setExpiryDate :: "int \<Rightarrow> AsyncStorage \<Rightarrow> AsyncStorage" where
  "setExpiryDate now s =
     (if set_fails s then s
      else s\<lparr>expiry_item := Some (now + EXPIRY_DAYS * MS_PER_DAY)\<rparr>)"

definition clearAllData :: "AsyncStorage \<Rightarrow> AsyncStorage" where
  "clearAllData s =
     (if remove_fails s then s
      else s\<lparr>expenses_item := None, goal_templates_item := None,
             goal_completions_item := None, weekly_reports_item := None,
             expiry_item := None\<rparr>)"

text \<open>
  The tail shared by the four \<^verbatim>\<open>save*\<close> methods after \<^verbatim>\<open>setItem\<close> succeeded: read the
  expiry key and stamp it when absent. \<open>Inl\<close> when that read is rejected.
\<close>

definition stamp_expiry :: "int \<Rightarrow> AsyncStorage \<Rightarrow> thrown + AsyncStorage" where
  "stamp_expiry now s =
     (if get_fails s then Inl storage_failure
      else case expiry_item s of
             None \<Rightarrow> Inr (setExpiryDate now s)
           | Some existingExpiry \<Rightarrow> Inr s)"

subsection \<open>Expenses\<close>

definition getExpenses :: "int \<Rightarrow> AsyncStorage \<Rightarrow> Expense list \<times> AsyncStorage" where
  "getExpenses now s =
     (if isDataExpired now s then ([], clearAllData s)
      else if get_fails s then ([], s)
      else case expenses_item s of
             None \<Rightarrow> ([], s)
           | Some expenses \<Rightarrow> (expenses, s))"

text \<open>\<^verbatim>\<open>saveExpenses\<close> catches every failure and only logs it: it cannot throw.\<close>

definition saveExpenses :: "int \<Rightarrow> Expense list \<Rightarrow> AsyncStorage \<Rightarrow> AsyncStorage" where
  "saveExpenses now expenses s =
     (if set_fails s then s
      else let s1 = s\<lparr>expenses_item := Some expenses\<rparr>
           in case stamp_expiry now s1 of
                Inl err \<Rightarrow> s1
              | Inr s2 \<Rightarrow> s2)"

text \<open>
  \<^verbatim>\<open>addExpense\<close>: the argument's own id and creation time, if any, are overwritten by
  the spread; \<open>new_id\<close> is the string \<^verbatim>\<open>Date.now().toString() + Math.random()...\<close>.
\<close>

definition addExpense ::
  "int \<Rightarrow> string \<Rightarrow> Expense \<Rightarrow> AsyncStorage \<Rightarrow> (thrown + Expense) \<times> AsyncStorage" where
  "addExpense now new_id expense s =
     (let (expenses, s1) = getExpenses now s;
          newExpense = expense\<lparr>expense_id := new_id, created_at := now\<rparr>
      in (Inr newExpense, saveExpenses now (expenses @ [newExpense]) s1))"

text \<open>The spread \<^verbatim>\<open>{...expense, ...updates}\<close>: a field present in \<open>updates\<close> wins.\<close>

definition apply_updates :: "Expense \<Rightarrow> ExpenseUpdates \<Rightarrow> Expense" where
  "apply_updates e u =
     \<lparr>expense_id = (case u_id u of None \<Rightarrow> expense_id e | Some v \<Rightarrow> v),
      user_id = (case u_user_id u of None \<Rightarrow> user_id e | Some v \<Rightarrow> Some v),
      content = (case u_content u of None \<Rightarrow> content e | Some v \<Rightarrow> v),
      price = (case u_price u of None \<Rightarrow> price e | Some v \<Rightarrow> v),
      date = (case u_date u of None \<Rightarrow> date e | Some v \<Rightarrow> v),
      created_at = (case u_created_at u of None \<Rightarrow> created_at e | Some v \<Rightarrow> v),
      updated_at = (case u_updated_at u of None \<Rightarrow> updated_at e | Some v \<Rightarrow> Some v),
      synced = (case u_synced u of None \<Rightarrow> synced e | Some v \<Rightarrow> Some v),
      sync_error = (case u_sync_error u of None \<Rightarrow> sync_error e | Some v \<Rightarrow> Some v)\<rparr>"

definition updateExpense ::
  "int \<Rightarrow> string \<Rightarrow> ExpenseUpdates \<Rightarrow> AsyncStorage \<Rightarrow> (thrown + Expense) \<times> AsyncStorage" where
  "updateExpense now i updates s =
     (let (expenses, s1) = getExpenses now s
      in case findIndex (\<lambda>e. expense_id e = i) expenses of
           None \<Rightarrow> (Inl (Error ''Expense not found''), s1)
         | Some expenseIndex \<Rightarrow>
             (let updatedExpense =
                    (apply_updates (expenses ! expenseIndex) updates)\<lparr>updated_at := Some now\<rparr>
              in (Inr updatedExpense,
                  saveExpenses now (expenses[expenseIndex := updatedExpense]) s1)))"

definition deleteExpense ::
  "int \<Rightarrow> string \<Rightarrow> AsyncStorage \<Rightarrow> (thrown + unit) \<times> AsyncStorage" where
  "deleteExpense now i s =
     (let (expenses, s1) = getExpenses now s;
          filteredExpenses = filter (\<lambda>e. expense_id e \<noteq> i) expenses
      in (Inr (), saveExpenses now filteredExpenses s1))"

text \<open>
  A Local Store whose persistence layer answers reads and writes and whose data is not
  expired at the time \<open>now\<close>.
\<close>

definition store_works :: "int \<Rightarrow> AsyncStorage \<Rightarrow> bool" where
  "store_works now s \<longleftrightarrow> \<not> get_fails s \<and> \<not> set_fails s \<and> \<not> isDataExpired now s"

subsection \<open>Goal templates\<close>

definition getGoalTemplates :: "int \<Rightarrow> AsyncStorage \<Rightarrow> GoalTemplate list \<times> AsyncStorage" where
  "getGoalTemplates now s =
     (if isDataExpired now s then ([], clearAllData s)
      else if get_fails s then ([], s)
      else case goal_templates_item s of
             None \<Rightarrow> ([], s)
           | Some templates \<Rightarrow> (templates, s))"

text \<open>Unlike \<^verbatim>\<open>saveExpenses\<close>, the three other \<^verbatim>\<open>save*\<close> methods log and rethrow.\<close>

definition saveGoalTemplates ::
  "int \<Rightarrow> GoalTemplate list \<Rightarrow> AsyncStorage \<Rightarrow> (thrown + unit) \<times> AsyncStorage" where
  "saveGoalTemplates now templates s =
     (if set_fails s then (Inl storage_failure, s)
      else let s1 = s\<lparr>goal_templates_item := Some templates\<rparr>
           in case stamp_expiry now s1 of
                Inl err \<Rightarrow> (Inl err, s1)
              | Inr s2 \<Rightarrow> (Inr (), s2))"

definition addGoalTemplate ::
  "int \<Rightarrow> string \<Rightarrow> GoalTemplate \<Rightarrow> AsyncStorage \<Rightarrow> (thrown + GoalTemplate) \<times> AsyncStorage" where
  "addGoalTemplate now new_id template s =
     (let (templates, s1) = getGoalTemplates now s;
          newTemplate = template\<lparr>template_id := new_id, t_created_at := now, t_updated_at := now\<rparr>
      in case saveGoalTemplates now (templates @ [newTemplate]) s1 of
           (Inl err, s2) \<Rightarrow> (Inl err, s2)
         | (Inr u, s2) \<Rightarrow> (Inr newTemplate, s2))"

subsection \<open>Daily goal completions\<close>

text \<open>
  The optional \<^verbatim>\<open>date\<close> argument filters only when it is truthy: the empty string, like
  no argument, returns every completion.
\<close>

definition getDailyCompletions ::
  "int \<Rightarrow> string option \<Rightarrow> AsyncStorage \<Rightarrow> DailyGoalCompletion list \<times> AsyncStorage" where
  "getDailyCompletions now date_filter s =
     (if isDataExpired now s then ([], clearAllData s)
      else if get_fails s then ([], s)
      else case goal_completions_item s of
             None \<Rightarrow> ([], s)
           | Some cs \<Rightarrow>
               (case date_filter of
                  Some d \<Rightarrow>
                    (if d = [] then (cs, s)
                     else (filter (\<lambda>c. completion_date c = d) cs, s))
                | None \<Rightarrow> (cs, s)))"

definition saveDailyCompletions ::
  "int \<Rightarrow> DailyGoalCompletion list \<Rightarrow> AsyncStorage \<Rightarrow> (thrown + unit) \<times> AsyncStorage" where
  "saveDailyCompletions now cs s =
     (if set_fails s then (Inl storage_failure, s)
      else let s1 = s\<lparr>goal_completions_item := Some cs\<rparr>
           in case stamp_expiry now s1 of
                Inl err \<Rightarrow> (Inl err, s1)
              | Inr s2 \<Rightarrow> (Inr (), s2))"

text \<open>
  The test of \<^verbatim>\<open>findIndex\<close> in \<^verbatim>\<open>updateGoalCompletion\<close>: same template and same date.
\<close>

definition same_pair :: "DailyGoalCompletion \<Rightarrow> CompletionInput \<Rightarrow> bool" where
  "same_pair c completion \<longleftrightarrow>
     goal_template_id c = goal_template_id completion
     \<and> completion_date c = completion_date completion"

text \<open>\<^verbatim>\<open>{...completions[existingIndex], ...completion}\<close>: id and creation time are kept.\<close>

definition merge_completion :: "DailyGoalCompletion \<Rightarrow> CompletionInput \<Rightarrow> DailyGoalCompletion" where
  "merge_completion existing completion =
     \<lparr>c_user_id = c_user_id completion,
      goal_template_id = goal_template_id completion,
      completion_date = completion_date completion,
      is_completed = is_completed completion,
      completed_at = completed_at completion,
      completion_id = completion_id existing,
      c_created_at = c_created_at existing\<rparr>"

text \<open>\<^verbatim>\<open>{...completion, id: ..., created_at: ...}\<close>\<close>

definition new_completion :: "int \<Rightarrow> string \<Rightarrow> CompletionInput \<Rightarrow> DailyGoalCompletion" where
  "new_completion now new_id completion =
     \<lparr>c_user_id = c_user_id completion,
      goal_template_id = goal_template_id completion,
      completion_date = completion_date completion,
      is_completed = is_completed completion,
      completed_at = completed_at completion,
      completion_id = new_id,
      c_created_at = now\<rparr>"

text \<open>
  The body of \<^verbatim>\<open>updateGoalCompletion\<close> between the read and the save: the record
  returned and the list to be saved.
\<close>

definition upsert_completion ::
  "int \<Rightarrow> string \<Rightarrow> CompletionInput \<Rightarrow> DailyGoalCompletion list
     \<Rightarrow> DailyGoalCompletion \<times> DailyGoalCompletion list" where
  "upsert_completion now new_id completion cs =
     (case findIndex (\<lambda>c. same_pair c completion) cs of
        Some existingIndex \<Rightarrow>
          (let updatedCompletion = merge_completion (cs ! existingIndex) completion
           in (updatedCompletion, cs[existingIndex := updatedCompletion]))
      | None \<Rightarrow>
          (let updatedCompletion = new_completion now new_id completion
           in (updatedCompletion, cs @ [updatedCompletion])))"

definition updateGoalCompletion ::
  "int \<Rightarrow> string \<Rightarrow> CompletionInput \<Rightarrow> AsyncStorage
     \<Rightarrow> (thrown + DailyGoalCompletion) \<times> AsyncStorage" where
  "updateGoalCompletion now new_id completion s =
     (let (cs, s1) = getDailyCompletions now None s;
          (updatedCompletion, cs') = upsert_completion now new_id completion cs
      in case saveDailyCompletions now cs' s1 of
           (Inl err, s2) \<Rightarrow> (Inl err, s2)
         | (Inr u, s2) \<Rightarrow> (Inr updatedCompletion, s2))"

text \<open>The identity key of a completion: its template and its calendar day.\<close>

definition pair_of :: "'a CompletionInput_scheme \<Rightarrow> string \<times> string" where
  "pair_of c = (goal_template_id c, completion_date c)"

subsection \<open>Weekly reports\<close>

definition getWeeklyReports :: "int \<Rightarrow> AsyncStorage \<Rightarrow> WeeklyReport list \<times> AsyncStorage" where
  "getWeeklyReports now s =
     (if isDataExpired now s then ([], clearAllData s)
      else if get_fails s then ([], s)
      else case weekly_reports_item s of
             None \<Rightarrow> ([], s)
           | Some reports \<Rightarrow> (reports, s))"

definition saveWeeklyReports ::
  "int \<Rightarrow> WeeklyReport list \<Rightarrow> AsyncStorage \<Rightarrow> (thrown + unit) \<times> AsyncStorage" where
  "saveWeeklyReports now reports s =
     (if set_fails s then (Inl storage_failure, s)
      else let s1 = s\<lparr>weekly_reports_item := Some reports\<rparr>
           in case stamp_expiry now s1 of
                Inl err \<Rightarrow> (Inl err, s1)
              | Inr s2 \<Rightarrow> (Inr (), s2))"

definition addWeeklyReport ::
  "int \<Rightarrow> string \<Rightarrow> ReportInput \<Rightarrow> AsyncStorage \<Rightarrow> (thrown + WeeklyReport) \<times> AsyncStorage" where
  "addWeeklyReport now new_id report s =
     (let (reports, s1) = getWeeklyReports now s;
          existingReportIndex =
            findIndex (\<lambda>r. week_start_date r = week_start_date report
                          \<and> r_user_id r = r_user_id report) reports;
          newReport =
            \<lparr>r_user_id = r_user_id report, week_start_date = week_start_date report,
             report_data = report_data report, report_id = new_id, generated_at = now\<rparr>;
          reports' = (case existingReportIndex of
                        Some k \<Rightarrow> reports[k := newReport]
                      | None \<Rightarrow> reports @ [newReport])
      in case saveWeeklyReports now reports' s1 of
           (Inl err, s2) \<Rightarrow> (Inl err, s2)
         | (Inr u, s2) \<Rightarrow> (Inr newReport, s2))"

subsection \<open>Expiry information and export\<close>

text \<open>\<^verbatim>\<open>Math.ceil((expiry - now) / MS_PER_DAY)\<close> on integers, then \<^verbatim>\<open>Math.max(0, ...)\<close>.\<close>

definition getExpiryInfo :: "int \<Rightarrow> AsyncStorage \<Rightarrow> ExpiryInfo" where
  "getExpiryInfo now s =
     (if get_fails s then \<lparr>expiryDate = None, daysRemaining = None\<rparr>
      else case expiry_item s of
             None \<Rightarrow> \<lparr>expiryDate = None, daysRemaining = None\<rparr>
           | Some expiry \<Rightarrow>
               \<lparr>expiryDate = Some expiry,
                daysRemaining = Some (max 0 (- ((now - expiry) div MS_PER_DAY)))\<rparr>)"

record AllData =
  export_expenses :: "Expense list"
  export_goalTemplates :: "GoalTemplate list"
  export_dailyCompletions :: "DailyGoalCompletion list"
  export_weeklyReports :: "WeeklyReport list"
  export_expiryInfo :: ExpiryInfo
  exportedAt :: int

text \<open>
  \<^verbatim>\<open>exportAllData\<close> starts its four reads and \<^verbatim>\<open>getExpiryInfo\<close> together under
  \<^verbatim>\<open>Promise.all\<close>. Each begins with a read of the expiry stamp, issued before any of them
  goes on: \<^verbatim>\<open>getExpiryInfo\<close> therefore reports the stamp as it is when the export starts,
  also when the reads then find the data expired and wipe it. The reads themselves give
  what they give when run one after the other, in the order the source lists them
  (\<^verbatim>\<open>exportGoalData\<close> inlined).
\<close>

definition exportAllData :: "int \<Rightarrow> AsyncStorage \<Rightarrow> AllData \<times> AsyncStorage" where
  "exportAllData now s =
     (let (es, s1) = getExpenses now s;
          (ts, s2) = getGoalTemplates now s1;
          (cs, s3) = getDailyCompletions now None s2;
          (rs, s4) = getWeeklyReports now s3
      in (\<lparr>export_expenses = es, export_goalTemplates = ts, export_dailyCompletions = cs,
           export_weeklyReports = rs, export_expiryInfo = getExpiryInfo now s,
           exportedAt = now\<rparr>, s4))"

section \<open>The Report Generator (services/weeklyReportService, utils/date)\<close>

subsection \<open>JavaScript dates\<close>

text \<open>
  A \<^verbatim>\<open>Date\<close> is its time value: milliseconds since the epoch, in UTC. The device's time
  zone is given by the offset, in minutes east of UTC, that is in force at a UTC instant
  (local time = UTC + offset), and by the offset the engine picks when it turns a local
  time back into an instant; in a zone without daylight saving both are one constant.
  \<^verbatim>\<open>getDay()\<close>, \<^verbatim>\<open>getDate()\<close> and \<^verbatim>\<open>setDate()\<close> work on local time, \<^verbatim>\<open>toISOString()\<close> and
  the parsing of a date-only string on UTC. The two conversions between a day count and
  a calendar date are the proleptic Gregorian ones every engine implements.
\<close>

record TimeZone =
  offset_at :: "int \<Rightarrow> int"
  offset_for_local :: "int \<Rightarrow> int"

definition fixed_zone :: "int \<Rightarrow> TimeZone" where
  "fixed_zone tz = \<lparr>offset_at = (\<lambda>ms. tz), offset_for_local = (\<lambda>localTime. tz)\<rparr>"

definition LocalTime :: "TimeZone \<Rightarrow> int \<Rightarrow> int" where
  "LocalTime zone ms = ms + offset_at zone ms * 60000"

definition UTC_of_local :: "TimeZone \<Rightarrow> int \<Rightarrow> int" where
  "UTC_of_local zone localTime = localTime - offset_for_local zone localTime * 60000"

definition days_from_civil :: "int \<Rightarrow> int \<Rightarrow> int \<Rightarrow> int" where
  "days_from_civil y m d =
     (let y' = (if m \<le> 2 then y - 1 else y);
          era = y' div 400;
          yoe = y' - era * 400;
          doy = (153 * (if m > 2 then m - 3 else m + 9) + 2) div 5 + d - 1;
          doe = yoe * 365 + yoe div 4 - yoe div 100 + doy
      in era * 146097 + doe - 719468)"

definition civil_from_days :: "int \<Rightarrow> int \<times> int \<times> int" where
  "civil_from_days z =
     (let z' = z + 719468;
          era = z' div 146097;
          doe = z' - era * 146097;
          yoe = (doe - doe div 1460 + doe div 36524 - doe div 146096) div 365;
          doy = doe - (365 * yoe + yoe div 4 - yoe div 100);
          mp = (5 * doy + 2) div 153;
          d = doy - (153 * mp + 2) div 5 + 1;
          m = (if mp < 10 then mp + 3 else mp - 9);
          y = yoe + era * 400
      in (if m \<le> 2 then y + 1 else y, m, d))"

text \<open>Decimal digits are the characters of codes 48 to 57.\<close>

definition digit_char :: "int \<Rightarrow> char" where
  "digit_char n = char_of (48 + nat n)"

definition digit_val :: "char \<Rightarrow> int option" where
  "digit_val c =
     (let code = (of_char c :: nat)
      in if 48 \<le> code \<and> code \<le> 57 then Some (int code - 48) else None)"

definition pad2 :: "int \<Rightarrow> string" where
  "pad2 n = [digit_char (n div 10 mod 10), digit_char (n mod 10)]"

definition pad4 :: "int \<Rightarrow> string" where
  "pad4 n = pad2 (n div 100 mod 100) @ pad2 (n mod 100)"

text \<open>
  \<^verbatim>\<open>date.toISOString().split('T')[0]\<close>: the UTC calendar date of the time value, with a
  four-digit year, or a signed six-digit year outside 0..9999.
\<close>

definition formatDateToString :: "int \<Rightarrow> string" where
  "formatDateToString ms =
     (case civil_from_days (ms div MS_PER_DAY) of
        (y, m, d) \<Rightarrow>
          (if 0 \<le> y \<and> y \<le> 9999 then pad4 y
           else (if y < 0 then ''-'' else ''+'') @ pad2 (\<bar>y\<bar> div 10000 mod 100) @ pad4 (\<bar>y\<bar> mod 10000))
          @ ''-'' @ pad2 m @ ''-'' @ pad2 d)"

text \<open>
  \<^verbatim>\<open>new Date(s)\<close> for a date-only string \<^verbatim>\<open>YYYY-MM-DD\<close>: midnight UTC of that date. The
  month must be one of 01 to 12 and the day one of 01 to 31; a day that the month does
  not have counts on into the next month (\<^verbatim>\<open>2024-02-30\<close> is the first of March), as V8
  does. Any other string is taken as unparsable here (an invalid Date): the other
  formats \<^verbatim>\<open>Date\<close> accepts, date-times among them, are not modelled.
\<close>

fun digits_val :: "int \<Rightarrow> string \<Rightarrow> int option" where
  "digits_val acc [] = Some acc"
| "digits_val acc (c # cs) =
     (case digit_val c of
        None \<Rightarrow> None
      | Some v \<Rightarrow> digits_val (acc * 10 + v) cs)"

definition Date_parse :: "string \<Rightarrow> int option" where
  "Date_parse s =
     (if length s = 10 \<and> s ! 4 = CHR ''-'' \<and> s ! 7 = CHR ''-'' then
        (case digits_val 0 (take 4 s) of
           None \<Rightarrow> None
         | Some y \<Rightarrow>
             (case digits_val 0 (take 2 (drop 5 s)) of
                None \<Rightarrow> None
              | Some m \<Rightarrow>
                  (case digits_val 0 (drop 8 s) of
                     None \<Rightarrow> None
                   | Some d \<Rightarrow>
                       (if 1 \<le> m \<and> m \<le> 12 \<and> 1 \<le> d \<and> d \<le> 31
                        then Some (days_from_civil y m d * MS_PER_DAY)
                        else None))))
      else None)"

text \<open>\<^verbatim>\<open>getDay()\<close>: the weekday of the local calendar date, Sunday = 0.\<close>

definition getDay :: "TimeZone \<Rightarrow> int \<Rightarrow> int" where
  "getDay zone ms = (LocalTime zone ms div MS_PER_DAY + 4) mod 7"

text \<open>
  \<^verbatim>\<open>d = new Date(start); d.setDate(start.getDate() + i)\<close>: the local calendar date moves
  on by \<open>i\<close> days, the local time of day stays, and the result is turned back into an
  instant.
\<close>

definition setDate_plus :: "TimeZone \<Rightarrow> int \<Rightarrow> nat \<Rightarrow> int" where
  "setDate_plus zone start i = UTC_of_local zone (LocalTime zone start + int i * MS_PER_DAY)"

subsection \<open>Completion statistics\<close>

text \<open>
  Modelled from the spec: \<^verbatim>\<open>calculateCompletionRate\<close> of utils/helpers is imported by the
  service but its source is not available. The specification gives
  \<open>completion_rate = completions / total_days\<close>, and 0 when \<open>total_days\<close> is 0.
\<close>

definition calculateCompletionRate :: "nat \<Rightarrow> nat \<Rightarrow> real" where
  "calculateCompletionRate completed possible =
     (if possible = 0 then 0 else real completed / real possible)"

text \<open>
  The loop of \<^verbatim>\<open>calculateGoalStats\<close>, from iteration \<open>i\<close> on, with its two accumulators
  \<^verbatim>\<open>totalDays\<close> and \<^verbatim>\<open>templateCompletions\<close>.
\<close>

function stats_loop ::
  "TimeZone \<Rightarrow> GoalTemplate \<Rightarrow> int \<Rightarrow> DailyGoalCompletion list \<Rightarrow> nat
     \<Rightarrow> nat \<times> DailyGoalCompletion list \<Rightarrow> nat \<times> DailyGoalCompletion list" where
  "stats_loop zone template startDate cs i (totalDays, templateCompletions) =
     (if i < 7 then
        (let checkDate = setDate_plus zone startDate i;
             dayOfWeek = (if getDay zone checkDate = 0 then 7 else getDay zone checkDate);
             dateString = formatDateToString checkDate
         in if day_of_week template = dayOfWeek then
              (case find (\<lambda>c. goal_template_id c = template_id template
                               \<and> completion_date c = dateString \<and> is_completed c) cs of
                 Some completion \<Rightarrow>
                   stats_loop zone template startDate cs (i + 1)
                     (totalDays + 1, templateCompletions @ [completion])
               | None \<Rightarrow>
                   stats_loop zone template startDate cs (i + 1)
                     (totalDays + 1, templateCompletions))
            else stats_loop zone template startDate cs (i + 1) (totalDays, templateCompletions))
      else (totalDays, templateCompletions))"
  by pat_completeness auto
termination
  by (relation "measure (\<lambda>(zone, template, startDate, cs, i, acc). 7 - i)") auto

declare stats_loop.simps [simp del]

text \<open>
  \<^verbatim>\<open>calculateGoalStats\<close>. On an invalid Date the first \<^verbatim>\<open>formatDateToString\<close> throws the
  \<^verbatim>\<open>RangeError\<close> of \<^verbatim>\<open>toISOString\<close>.
\<close>

definition calculateGoalStats ::
  "TimeZone \<Rightarrow> GoalTemplate \<Rightarrow> string \<Rightarrow> DailyGoalCompletion list
     \<Rightarrow> thrown + GoalStats" where
  "calculateGoalStats zone template weekStartDate cs =
     (case Date_parse weekStartDate of
        None \<Rightarrow> Inl (Error ''Invalid time value'')
      | Some startDate \<Rightarrow>
          (case stats_loop zone template startDate cs 0 (0, []) of
             (totalDays, templateCompletions) \<Rightarrow>
               Inr \<lparr>gs_template_id = template_id template,
                    gs_title = title template,
                    completions = length templateCompletions,
                    total_days = totalDays,
                    completion_rate =
                      calculateCompletionRate (length templateCompletions) totalDays\<rparr>))"

subsection \<open>The specification's reading of the statistics\<close>

text \<open>
  The seven calendar days of the week that starts on epoch day \<open>d\<close>, the ISO weekday of an
  epoch day (Monday = 1, Sunday = 7; 1970-01-01 was a Thursday), and the two counts as the
  specification words them: the days of the week whose weekday is the template's, and
  those of them for which a completed completion of the template exists.
\<close>

definition week_days :: "int \<Rightarrow> int list" where
  "week_days d = map (\<lambda>k. d + int k) [0..<7]"

definition iso_weekday :: "int \<Rightarrow> int" where
  "iso_weekday n = (if (n + 4) mod 7 = 0 then 7 else (n + 4) mod 7)"

definition format_day :: "int \<Rightarrow> string" where
  "format_day n = formatDateToString (n * MS_PER_DAY)"

definition has_completed :: "GoalTemplate \<Rightarrow> DailyGoalCompletion list \<Rightarrow> int \<Rightarrow> bool" where
  "has_completed template cs n \<longleftrightarrow>
     list_ex (\<lambda>c. goal_template_id c = template_id template
                   \<and> completion_date c = format_day n \<and> is_completed c) cs"

definition spec_total_days :: "GoalTemplate \<Rightarrow> int \<Rightarrow> nat" where
  "spec_total_days template d =
     length (filter (\<lambda>n. iso_weekday n = day_of_week template) (week_days d))"

definition spec_completions :: "GoalTemplate \<Rightarrow> DailyGoalCompletion list \<Rightarrow> int \<Rightarrow> nat" where
  "spec_completions template cs d =
     length (filter (\<lambda>n. iso_weekday n = day_of_week template \<and> has_completed template cs n)
               (week_days d))"

section \<open>The Remote Store (services/supabase, SupabaseService)\<close>

text \<open>
  An error object of the Supabase client, as far as \<^verbatim>\<open>handleDatabaseError\<close> reads it: its
  \<^verbatim>\<open>code\<close> and its \<^verbatim>\<open>message\<close> (which may be missing).
\<close>

record db_error =
  db_code :: string
  db_message :: "string option"

text \<open>
  The backend is reached through the Supabase client, which is outside the repository.
  What the service needs of it is kept in one record: whether the client is configured,
  the service's cached \<^verbatim>\<open>currentUser\<close>, the user \<^verbatim>\<open>client.auth.getUser()\<close> would report,
  whether requests reach the backend at all and the error the client answers with when
  they do not, and the rows of the \<^verbatim>\<open>expenses\<close> table. The table's primary key is its
  \<^verbatim>\<open>id\<close> column: an insert under an id already present is rejected. An id the database
  issues for a new row is an argument of the operation.
\<close>

record Supabase =
  configured :: bool
  currentUser :: "User option"
  session_user :: "User option"
  reachable :: bool
  request_error :: db_error
  expenses_table :: "Expense list"

text \<open>
  \<^verbatim>\<open>handleDatabaseError(error, operation)\<close>; \<^verbatim>\<open>error.message || 'Unknown error'\<close> takes
  the empty message for a missing one.
\<close>

definition handleDatabaseError :: "db_error \<Rightarrow> string \<Rightarrow> thrown" where
  "handleDatabaseError dbError operation =
     (if db_code dbError = ''PGRST116''
      then createStorageError (''No data found for '' @ operation)
      else case db_message dbError of
             None \<Rightarrow>
               createStorageError (''Database error during '' @ operation @ '': Unknown error'')
           | Some m \<Rightarrow>
               if str_includes m ''network''
               then createNetworkError (''Network error during '' @ operation @ '': '' @ m)
               else createStorageError
                      (''Database error during '' @ operation @ '': ''
                       @ (if m = [] then ''Unknown error'' else m)))"

text \<open>
  Two answers of the database behind the client: what \<^verbatim>\<open>single()\<close> answers unless exactly
  one row is concerned, and what an insert under an existing primary key is answered with.
\<close>

definition single_row_error :: db_error where
  "single_row_error =
     \<lparr>db_code = ''PGRST116'',
      db_message = Some ''JSON object requested, multiple (or no) rows returned''\<rparr>"

definition duplicate_key_error :: db_error where
  "duplicate_key_error =
     \<lparr>db_code = ''23505'',
      db_message = Some ''duplicate key value violates unique constraint''\<rparr>"

text \<open>\<^verbatim>\<open>getSupabaseUser\<close> returns null on any error; \<^verbatim>\<open>getCurrentUser\<close> caches what it finds.\<close>

definition getCurrentUser :: "Supabase \<Rightarrow> User option \<times> Supabase" where
  "getCurrentUser r =
     (case currentUser r of
        Some u \<Rightarrow> (Some u, r)
      | None \<Rightarrow>
          (case (if reachable r then session_user r else None) of
             None \<Rightarrow> (None, r)
           | Some u \<Rightarrow> (Some u, r\<lparr>currentUser := Some u\<rparr>)))"

text \<open>
  \<^verbatim>\<open>ensureAuthenticated\<close>: the lookup and creation of the profile row swallow every error
  and touch no state kept here.
\<close>

definition ensureAuthenticated :: "Supabase \<Rightarrow> (thrown + string) \<times> Supabase" where
  "ensureAuthenticated r =
     (case getCurrentUser r of
        (None, r1) \<Rightarrow> (Inl (createAuthError ''User not authenticated''), r1)
      | (Some u, r1) \<Rightarrow> (Inr (uid u), r1))"

text \<open>
  \<^verbatim>\<open>.order('date', { ascending: false })\<close>: rows by date, latest first (the order among
  rows of one date is the database's own; here the reverse of a stable sort).
\<close>

definition supabase_getExpenses :: "Supabase \<Rightarrow> (thrown + Expense list) \<times> Supabase" where
  "supabase_getExpenses r =
     (case ensureAuthenticated r of
        (Inl err, r1) \<Rightarrow> (Inl (handleAsyncError err), r1)
      | (Inr userId, r1) \<Rightarrow>
          (if \<not> reachable r1
           then (Inl (handleAsyncError (handleDatabaseError (request_error r1) ''get expenses'')), r1)
           else (Inr (rev (sort_key date
                        (filter (\<lambda>row. user_id row = Some userId) (expenses_table r1)))), r1)))"

text \<open>
  \<^verbatim>\<open>addExpense\<close>: the row sent is \<^verbatim>\<open>{...expense, user_id, created_at, updated_at}\<close>; the
  database adds the id. The callers pass content, price and date (and a user id, which
  is overwritten).
\<close>

definition supabase_addExpense ::
  "int \<Rightarrow> string \<Rightarrow> Expense \<Rightarrow> Supabase \<Rightarrow> (thrown + Expense) \<times> Supabase" where
  "supabase_addExpense now new_id expense r =
     (case ensureAuthenticated r of
        (Inl err, r1) \<Rightarrow> (Inl (handleAsyncError err), r1)
      | (Inr userId, r1) \<Rightarrow>
          (let newExpense =
                 \<lparr>expense_id = new_id, user_id = Some userId, content = content expense,
                  price = price expense, date = date expense, created_at = now,
                  updated_at = Some now, synced = None, sync_error = None\<rparr>
           in if \<not> reachable r1
              then (Inl (handleAsyncError (handleDatabaseError (request_error r1) ''add expense'')), r1)
              else if new_id \<in> expense_id ` set (expenses_table r1)
              then (Inl (handleAsyncError (handleDatabaseError duplicate_key_error ''add expense'')), r1)
              else (Inr newExpense,
                    r1\<lparr>expenses_table := expenses_table r1 @ [newExpense]\<rparr>)))"

text \<open>
  \<^verbatim>\<open>updateExpense\<close>: \<^verbatim>\<open>.update(updateData).eq('id', id).eq('user_id', userId).select().single()\<close>.
  \<^verbatim>\<open>single()\<close> answers with error PGRST116, and the update is not applied, unless exactly
  one row is concerned.
\<close>

definition supabase_updateExpense ::
  "int \<Rightarrow> string \<Rightarrow> ExpenseUpdates \<Rightarrow> Supabase \<Rightarrow> (thrown + Expense) \<times> Supabase" where
  "supabase_updateExpense now i updates r =
     (case ensureAuthenticated r of
        (Inl err, r1) \<Rightarrow> (Inl (handleAsyncError err), r1)
      | (Inr userId, r1) \<Rightarrow>
          (let concerned = (\<lambda>row. expense_id row = i \<and> user_id row = Some userId);
               change = (\<lambda>row. (apply_updates row updates)\<lparr>updated_at := Some now\<rparr>)
           in if \<not> reachable r1
              then (Inl (handleAsyncError (handleDatabaseError (request_error r1) ''update expense'')), r1)
              else (case filter concerned (expenses_table r1) of
                      [row] \<Rightarrow>
                        (Inr (change row),
                         r1\<lparr>expenses_table :=
                               map (\<lambda>x. if concerned x then change x else x)
                                 (expenses_table r1)\<rparr>)
                    | _ \<Rightarrow> (Inl (handleAsyncError (handleDatabaseError single_row_error ''update expense'')), r1))))"

definition supabase_deleteExpense ::
  "string \<Rightarrow> Supabase \<Rightarrow> (thrown + unit) \<times> Supabase" where
  "supabase_deleteExpense i r =
     (case ensureAuthenticated r of
        (Inl err, r1) \<Rightarrow> (Inl (handleAsyncError err), r1)
      | (Inr userId, r1) \<Rightarrow>
          (if \<not> reachable r1
           then (Inl (handleAsyncError (handleDatabaseError (request_error r1) ''delete expense'')), r1)
           else (Inr (),
                 r1\<lparr>expenses_table :=
                       filter (\<lambda>row. \<not> (expense_id row = i \<and> user_id row = Some userId))
                         (expenses_table r1)\<rparr>)))"

text \<open>\<^verbatim>\<open>expense.updated_at || expense.created_at\<close>, read as a time.\<close>

definition write_time :: "Expense \<Rightarrow> int" where
  "write_time e = (case updated_at e of Some t \<Rightarrow> t | None \<Rightarrow> created_at e)"

definition domain_updates :: "Expense \<Rightarrow> ExpenseUpdates" where
  "domain_updates e =
     \<lparr>u_id = None, u_user_id = None, u_content = Some (content e), u_price = Some (price e),
      u_date = Some (date e), u_created_at = None, u_updated_at = None, u_synced = None,
      u_sync_error = None\<rparr>"

text \<open>\<^verbatim>\<open>resolveExpenseConflict\<close>: last write wins; on equal times the server's record stays.\<close>

definition resolveExpenseConflict ::
  "int \<Rightarrow> Expense \<Rightarrow> Expense \<Rightarrow> Supabase \<Rightarrow> (thrown + Expense) \<times> Supabase" where
  "resolveExpenseConflict now localExpense serverExpense r =
     (let localTime = write_time localExpense;
          serverTime = write_time serverExpense
      in if localTime > serverTime then
           (case supabase_updateExpense now (expense_id localExpense)
                   (domain_updates localExpense) r of
              (Inl err, r1) \<Rightarrow> (Inl (handleAsyncError err), r1)
            | (Inr updated, r1) \<Rightarrow> (Inr updated, r1))
         else (Inr serverExpense, r))"

section \<open>The Identity Resolver (hooks/useAuth and the authentication methods of SupabaseService)\<close>

text \<open>\<^verbatim>\<open>Number.prototype.toString\<close> in template strings, for whole numbers.\<close>

function decimal :: "nat \<Rightarrow> string" where
  "decimal n =
     (if n < 10 then [digit_char (int n)]
      else decimal (n div 10) @ [digit_char (int (n mod 10))])"
  by pat_completeness auto
termination
  by (relation "measure (\<lambda>n. n)") auto

declare decimal.simps [simp del]

definition show_int :: "int \<Rightarrow> string" where
  "show_int k = (if k < 0 then ''-'' @ decimal (nat (- k)) else decimal (nat k))"

text \<open>
  The user object of the authentication backend, and what a call to it answers: an error
  with its message, or data with or without a user.
\<close>

record BackendUser =
  b_id :: string
  b_email :: "string option"
  b_created_at :: int
  b_updated_at :: "int option"
  email_confirmed_at :: "int option"

datatype auth_response = Rejected string | Answered "BackendUser option"

definition convertSupabaseUser :: "BackendUser \<Rightarrow> User" where
  "convertSupabaseUser supabaseUser =
     \<lparr>uid = b_id supabaseUser, email = b_email supabaseUser, isGuest = False,
      user_created_at = b_created_at supabaseUser,
      user_updated_at = (case b_updated_at supabaseUser of
                           Some t \<Rightarrow> t
                         | None \<Rightarrow> b_created_at supabaseUser)\<rparr>"

definition supabase_signIn :: "auth_response \<Rightarrow> Supabase \<Rightarrow> (thrown + User) \<times> Supabase" where
  "supabase_signIn response r =
     (if \<not> configured r
      then (Inl (handleAsyncError (createAuthError ''Supabase is not properly configured'')), r)
      else case response of
             Rejected m \<Rightarrow>
               (Inl (handleAsyncError
                  (if m = ''Email not confirmed''
                   then createAuthError
                          ''Please confirm your email by clicking the link we sent to your inbox.''
                   else if m = ''Invalid login credentials''
                   then createAuthError
                          ''Invalid email or password. Please check your credentials and try again.''
                   else createAuthError m)), r)
           | Answered None \<Rightarrow>
               (Inl (handleAsyncError (createAuthError ''No user returned from signin'')), r)
           | Answered (Some supabaseUser) \<Rightarrow>
               (if email_confirmed_at supabaseUser = None
                then (Inl (handleAsyncError (createAuthError
                        ''Please confirm your email by clicking the link we sent to your inbox.'')), r)
                else (Inr (convertSupabaseUser supabaseUser),
                      r\<lparr>currentUser := Some (convertSupabaseUser supabaseUser),
                        session_user := Some (convertSupabaseUser supabaseUser)\<rparr>)))"

text \<open>\<^verbatim>\<open>signUp\<close> returns the new user and leaves \<^verbatim>\<open>currentUser\<close> unset until confirmation.\<close>

definition supabase_signUp :: "auth_response \<Rightarrow> Supabase \<Rightarrow> (thrown + User) \<times> Supabase" where
  "supabase_signUp response r =
     (if \<not> configured r
      then (Inl (handleAsyncError (createAuthError ''Supabase is not properly configured'')), r)
      else case response of
             Rejected m \<Rightarrow>
               (Inl (handleAsyncError
                  (if str_includes m ''already registered''
                   then createAuthError
                          ''An account with this email already exists. Please sign in instead.''
                   else createAuthError m)), r)
           | Answered None \<Rightarrow>
               (Inl (handleAsyncError (createAuthError ''No user returned from signup'')), r)
           | Answered (Some supabaseUser) \<Rightarrow>
               (Inr (convertSupabaseUser supabaseUser), r))"

text \<open>
  \<^verbatim>\<open>signOut\<close>: the backend's answer is an error message or none; the cached user is
  dropped in every case.
\<close>

definition supabase_signOut :: "string option \<Rightarrow> Supabase \<Rightarrow> (thrown + unit) \<times> Supabase" where
  "supabase_signOut response r =
     (case response of
        None \<Rightarrow> (Inr (), r\<lparr>currentUser := None, session_user := None\<rparr>)
      | Some m \<Rightarrow>
          (if m = ''Auth session missing!'' \<or> str_includes m ''session''
           then (Inr (), r\<lparr>currentUser := None\<rparr>)
           else (Inl (handleAsyncError (createAuthError m)), r\<lparr>currentUser := None\<rparr>)))"

text \<open>The state of the \<^verbatim>\<open>useAuth\<close> hook.\<close>

record AuthHook =
  auth_user :: "User option"
  auth_loading :: bool
  auth_error :: "string option"
  forceAuthScreen :: bool

definition isAuthenticated :: "User option \<Rightarrow> bool" where
  "isAuthenticated u = (case u of None \<Rightarrow> False | Some v \<Rightarrow> \<not> isGuest v)"

definition createGuestUser :: "int \<Rightarrow> User" where
  "createGuestUser now =
     \<lparr>uid = ''guest_'' @ show_int now, email = None, isGuest = True,
      user_created_at = now, user_updated_at = now\<rparr>"

text \<open>
  The three transitions, on the hook's state, the Local Store and the Remote Store.
  \<open>Inl\<close> is the \<^verbatim>\<open>AppError\<close> thrown to the caller.
\<close>

definition signIn ::
  "auth_response \<Rightarrow> AuthHook \<times> AsyncStorage \<times> Supabase
     \<Rightarrow> (thrown + unit) \<times> AuthHook \<times> AsyncStorage \<times> Supabase" where
  "signIn response w =
     (case w of (a, s, r) \<Rightarrow>
        (let a1 = a\<lparr>auth_loading := True, auth_error := None\<rparr>
         in if \<not> configured r then
              (let appError = handleAsyncError
                     (Error ''Authentication service is not available. Please continue as guest.'')
               in (Inl appError,
                   a1\<lparr>auth_error := Some (message appError), auth_loading := False\<rparr>, s, r))
            else
              (case supabase_signIn response r of
                 (Inl err, r1) \<Rightarrow>
                   (let appError = handleAsyncError err
                    in (Inl appError,
                        a1\<lparr>auth_error := Some (message appError), auth_loading := False\<rparr>,
                        s, r1))
               | (Inr authenticatedUser, r1) \<Rightarrow>
                   (Inr (),
                    a1\<lparr>auth_user := Some authenticatedUser, forceAuthScreen := False,
                       auth_loading := False\<rparr>,
                    clearAllData s, r1))))"

definition signUp ::
  "auth_response \<Rightarrow> AuthHook \<times> AsyncStorage \<times> Supabase
     \<Rightarrow> (thrown + unit) \<times> AuthHook \<times> AsyncStorage \<times> Supabase" where
  "signUp response w =
     (case w of (a, s, r) \<Rightarrow>
        (let a1 = a\<lparr>auth_loading := True, auth_error := None\<rparr>
         in if \<not> configured r then
              (let appError = handleAsyncError
                     (Error ''Authentication service is not available. Please continue as guest.'')
               in (Inl appError,
                   a1\<lparr>auth_error := Some (message appError), auth_loading := False\<rparr>, s, r))
            else
              (case supabase_signUp response r of
                 (Inl err, r1) \<Rightarrow>
                   (let appError = handleAsyncError err
                    in (Inl appError,
                        a1\<lparr>auth_error := Some (message appError), auth_loading := False\<rparr>,
                        s, r1))
               | (Inr newUser, r1) \<Rightarrow>
                   (Inr (),
                    a1\<lparr>forceAuthScreen := False, auth_loading := False\<rparr>,
                    clearAllData s, r1))))"

text \<open>\<^verbatim>\<open>signOut\<close> catches a failure of the backend call, records it and does not rethrow.\<close>

definition signOut ::
  "int \<Rightarrow> string option \<Rightarrow> AuthHook \<times> AsyncStorage \<times> Supabase
     \<Rightarrow> (thrown + unit) \<times> AuthHook \<times> AsyncStorage \<times> Supabase" where
  "signOut now response w =
     (case w of (a, s, r) \<Rightarrow>
        (let a1 = a\<lparr>auth_loading := True, auth_error := None\<rparr>
         in case (if isAuthenticated (auth_user a) then supabase_signOut response r
                  else (Inr (), r)) of
              (Inl err, r1) \<Rightarrow>
                (Inr (),
                 a1\<lparr>auth_error := Some (message (handleAsyncError err)), auth_loading := False\<rparr>,
                 s, r1)
            | (Inr u, r1) \<Rightarrow>
                (Inr (),
                 a1\<lparr>auth_user := Some (createGuestUser now), auth_loading := False\<rparr>,
                 s, r1)))"

text \<open>Projections of an outcome \<open>(result, hook, store, remote)\<close>.\<close>

definition hook_of :: "'x \<times> 'h \<times> 's \<times> 'r \<Rightarrow> 'h" where
  "hook_of out = fst (snd out)"

definition store_of :: "'x \<times> 'h \<times> 's \<times> 'r \<Rightarrow> 's" where
  "store_of out = fst (snd (snd out))"

definition remote_of :: "'x \<times> 'h \<times> 's \<times> 'r \<Rightarrow> 'r" where
  "remote_of out = snd (snd (snd out))"

section \<open>Validation (utils/validation)\<close>

record ValidationResult =
  isValid :: bool
  errors :: "string list"

text \<open>
  \<^verbatim>\<open>s.trim().length === 0\<close>: only white space (the ASCII white space characters; the
  others are outside the byte strings used here).
\<close>

definition blank :: "string \<Rightarrow> bool" where
  "blank s = list_all (\<lambda>c. of_char c \<in> {9, 10, 11, 12, 13, 32 :: nat}) s"

text \<open>
  \<^verbatim>\<open>isValidDateString\<close>. A string that does not match \<^verbatim>\<open>/^\d{4}-\d{2}-\d{2}$/\<close> is
  answered with false. One that does is parsed (with \<^verbatim>\<open>T00:00:00.000Z\<close> appended) and
  printed again by \<^verbatim>\<open>toISOString()\<close>: for a month outside 01 to 12 or a day outside 01 to
  31 the Date is invalid and \<^verbatim>\<open>toISOString()\<close> throws a \<^verbatim>\<open>RangeError\<close>; otherwise the
  answer is whether the printed date starts with the string, which fails when the day
  counted on into the next month.
\<close>

definition matches_date_pattern :: "string \<Rightarrow> bool" where
  "matches_date_pattern s \<longleftrightarrow>
     length s = 10 \<and> s ! 4 = CHR ''-'' \<and> s ! 7 = CHR ''-''
     \<and> digits_val 0 (take 4 s) \<noteq> None
     \<and> digits_val 0 (take 2 (drop 5 s)) \<noteq> None
     \<and> digits_val 0 (drop 8 s) \<noteq> None"

definition isValidDateString :: "string \<Rightarrow> thrown + bool" where
  "isValidDateString dateString =
     (if \<not> matches_date_pattern dateString then Inr False
      else case Date_parse dateString of
             None \<Rightarrow> Inl (Error ''Invalid time value'')
           | Some ms \<Rightarrow> Inr (take (length dateString) (formatDateToString ms) = dateString))"

text \<open>
  \<^verbatim>\<open>validateExpense\<close>. The date is looked at last, so a \<^verbatim>\<open>RangeError\<close> of
  \<^verbatim>\<open>isValidDateString\<close> leaves the function whatever the other fields are.
\<close>

definition validateExpense :: "ExpenseUpdates \<Rightarrow> thrown + ValidationResult" where
  "validateExpense expense =
     (let e1 = (case u_content expense of
                  None \<Rightarrow> [''Content is required'']
                | Some c \<Rightarrow> if c = [] \<or> blank c then [''Content is required''] else []);
          e2 = (case u_content expense of
                  None \<Rightarrow> []
                | Some c \<Rightarrow> if c \<noteq> [] \<and> length c > 200
                            then [''Content must be less than 200 characters''] else []);
          e3 = (case u_price expense of None \<Rightarrow> [''Price is required''] | Some p \<Rightarrow> []);
          e4 = (case u_price expense of
                  None \<Rightarrow> []
                | Some p \<Rightarrow> if p < 0 then [''Price must be positive''] else []);
          e5 = (case u_price expense of
                  None \<Rightarrow> []
                | Some p \<Rightarrow> if p > 999999999.99 then [''Price is too large''] else []);
          e6 = (case u_date expense of
                  None \<Rightarrow> [''Date is required'']
                | Some d \<Rightarrow> if d = [] then [''Date is required''] else []);
          dateCheck = (case u_date expense of
                         None \<Rightarrow> Inr True
                       | Some d \<Rightarrow> if d = [] then Inr True else isValidDateString d)
      in case dateCheck of
           Inl rangeError \<Rightarrow> Inl rangeError
         | Inr ok \<Rightarrow>
             (let e7 = (if ok then [] else [''Date must be in YYYY-MM-DD format'']);
                  errs = e1 @ e2 @ e3 @ e4 @ e5 @ e6 @ e7
              in Inr \<lparr>isValid = (errs = []), errors = errs\<rparr>))"

text \<open>Whether a call threw.\<close>

definition threw :: "(thrown + 'a) \<times> 'b \<Rightarrow> bool" where
  "threw out = (case fst out of Inl err \<Rightarrow> True | Inr x \<Rightarrow> False)"

section \<open>The Reconciliation Engine: single-entity reads and writes (hooks/useExpenses)\<close>

text \<open>
  The hook's React state. The operations below take the state of \<^verbatim>\<open>useAuth\<close> (for
  \<^verbatim>\<open>user\<close> and \<^verbatim>\<open>isAuthenticated\<close>), then the hook's state with both stores, and return
  what the caller receives (\<open>Inl\<close>: the \<^verbatim>\<open>AppError\<close> thrown) with the three new states.
  State updates are applied in the order the source issues them.
\<close>

record ExpensesHook =
  expenses :: "Expense list"
  loading :: bool
  hook_error :: "string option"
  syncStatus :: SyncStatus

text \<open>
  \<^verbatim>\<open>useAuth\<close> hands out \<^verbatim>\<open>user\<close> as null while the auth screens are forced; the test of the
  hook is \<^verbatim>\<open>isAuthenticated && user && !user.isGuest\<close>.
\<close>

definition context_user :: "AuthHook \<Rightarrow> User option" where
  "context_user a = (if forceAuthScreen a then None else auth_user a)"

definition uses_remote :: "AuthHook \<Rightarrow> bool" where
  "uses_remote a \<longleftrightarrow>
     isAuthenticated (auth_user a)
     \<and> (case context_user a of None \<Rightarrow> False | Some u \<Rightarrow> \<not> isGuest u)"

definition sync_failed_message :: string where
  "sync_failed_message = ''Failed to sync with server''"

definition set_status :: "(SyncStatus \<Rightarrow> SyncStatus) \<Rightarrow> ExpensesHook \<Rightarrow> ExpensesHook" where
  "set_status f h = h\<lparr>syncStatus := f (syncStatus h)\<rparr>"

definition loadExpenses ::
  "int \<Rightarrow> AuthHook \<Rightarrow> ExpensesHook \<times> AsyncStorage \<times> Supabase
     \<Rightarrow> ExpensesHook \<times> AsyncStorage \<times> Supabase" where
  "loadExpenses now a w =
     (case w of (h, s, r) \<Rightarrow>
        (let h1 = set_status (\<lambda>prev. prev\<lparr>sync_in_progress := True\<rparr>)
                    (h\<lparr>loading := True, hook_error := None\<rparr>);
             (storedExpenses, h2, s2, r2) =
               (if uses_remote a then
                  (case supabase_getExpenses r of
                     (Inr rows, r1) \<Rightarrow>
                       (rows,
                        set_status (\<lambda>prev. prev\<lparr>last_sync := Some now, error := None\<rparr>) h1,
                        s, r1)
                   | (Inl supabaseError, r1) \<Rightarrow>
                       (case getExpenses now s of
                          (stored, s1) \<Rightarrow>
                            (stored,
                             set_status (\<lambda>prev. prev\<lparr>error := Some sync_failed_message\<rparr>) h1,
                             s1, r1)))
                else
                  (case getExpenses now s of (stored, s1) \<Rightarrow> (stored, h1, s1, r)))
         in (set_status (\<lambda>prev. prev\<lparr>sync_in_progress := False\<rparr>)
               (h2\<lparr>expenses := storedExpenses, loading := False\<rparr>),
             s2, r2)))"

text \<open>The fields a caller of \<^verbatim>\<open>addExpense\<close> supplies.\<close>

record ExpenseFields =
  f_content :: string
  f_price :: real
  f_date :: string

text \<open>
  The object \<^verbatim>\<open>{content, price, date}\<close> as an argument of the stores' \<^verbatim>\<open>addExpense\<close>; both
  set the id and the creation time themselves.
\<close>

definition fields_only :: "ExpenseFields \<Rightarrow> Expense" where
  "fields_only f =
     \<lparr>expense_id = [], user_id = None, content = f_content f, price = f_price f,
      date = f_date f, created_at = 0, updated_at = None, synced = None, sync_error = None\<rparr>"

definition optimistic_expense :: "int \<Rightarrow> AuthHook \<Rightarrow> ExpenseFields \<Rightarrow> Expense" where
  "optimistic_expense now a f =
     \<lparr>expense_id = ''temp_'' @ show_int now, user_id = map_option uid (context_user a),
      content = f_content f, price = f_price f, date = f_date f, created_at = now,
      updated_at = None, synced = Some False, sync_error = None\<rparr>"

text \<open>
  \<^verbatim>\<open>addExpense\<close> of the hook. \<open>server_id\<close> and \<open>local_id\<close> are the ids the database and the
  Local Store would issue.
\<close>

definition useExpenses_addExpense ::
  "int \<Rightarrow> string \<Rightarrow> string \<Rightarrow> AuthHook \<Rightarrow> ExpenseFields
     \<Rightarrow> ExpensesHook \<times> AsyncStorage \<times> Supabase
     \<Rightarrow> (thrown + Expense) \<times> ExpensesHook \<times> AsyncStorage \<times> Supabase" where
  "useExpenses_addExpense now server_id local_id a newExpense w =
     (case w of (h, s, r) \<Rightarrow>
        (let optimisticExpense = optimistic_expense now a newExpense;
             h1 = h\<lparr>hook_error := None\<rparr>;
             h2 = h1\<lparr>expenses := optimisticExpense # expenses h1\<rparr>;
             (saved, h3, s3, r3) =
               (if uses_remote a then
                  (let h2' = set_status (\<lambda>prev. prev\<lparr>sync_in_progress := True\<rparr>) h2
                   in case supabase_addExpense now server_id (fields_only newExpense) r of
                        (Inr savedExpense, r1) \<Rightarrow>
                          (Inr savedExpense,
                           set_status (\<lambda>prev. prev\<lparr>last_sync := Some now, error := None\<rparr>) h2',
                           s, r1)
                      | (Inl supabaseError, r1) \<Rightarrow>
                          (case addExpense now local_id (fields_only newExpense) s of
                             (Inr savedExpense, s1) \<Rightarrow>
                               (Inr savedExpense,
                                set_status (\<lambda>prev. prev\<lparr>pending_changes := pending_changes prev + 1,
                                                         error := Some sync_failed_message\<rparr>) h2',
                                s1, r1)
                           | (Inl err, s1) \<Rightarrow> (Inl err, h2', s1, r1)))
                else
                  (case addExpense now local_id (fields_only newExpense) s of
                     (res, s1) \<Rightarrow> (res, h2, s1, r)))
         in case saved of
              Inr savedExpense \<Rightarrow>
                (Inr savedExpense,
                 set_status (\<lambda>prev. prev\<lparr>sync_in_progress := False\<rparr>)
                   (h3\<lparr>expenses := map (\<lambda>exp. if expense_id exp = expense_id optimisticExpense
                                              then savedExpense else exp) (expenses h3)\<rparr>),
                 s3, r3)
            | Inl err \<Rightarrow>
                (let appError = handleAsyncError err
                 in (Inl appError,
                     set_status (\<lambda>prev. prev\<lparr>sync_in_progress := False\<rparr>)
                       (h3\<lparr>expenses := filter (\<lambda>exp. expense_id exp \<noteq> ''temp_'' @ show_int now)
                                          (expenses h3),
                          hook_error := Some (message appError)\<rparr>),
                     s3, r3))))"

definition useExpenses_updateExpense ::
  "int \<Rightarrow> AuthHook \<Rightarrow> string \<Rightarrow> ExpenseUpdates
     \<Rightarrow> ExpensesHook \<times> AsyncStorage \<times> Supabase
     \<Rightarrow> (thrown + Expense) \<times> ExpensesHook \<times> AsyncStorage \<times> Supabase" where
  "useExpenses_updateExpense now a i updates w =
     (case w of (h, s, r) \<Rightarrow>
        (let h1 = h\<lparr>hook_error := None\<rparr>;
             h2 = h1\<lparr>expenses :=
                       map (\<lambda>exp. if expense_id exp = i
                                  then (apply_updates exp updates)\<lparr>updated_at := Some now\<rparr>
                                  else exp) (expenses h1)\<rparr>;
             (updated, h3, s3, r3) =
               (if uses_remote a then
                  (let h2' = set_status (\<lambda>prev. prev\<lparr>sync_in_progress := True\<rparr>) h2
                   in case supabase_updateExpense now i updates r of
                        (Inr updatedExpense, r1) \<Rightarrow>
                          (Inr updatedExpense,
                           set_status (\<lambda>prev. prev\<lparr>last_sync := Some now, error := None\<rparr>) h2',
                           s, r1)
                      | (Inl supabaseError, r1) \<Rightarrow>
                          (case updateExpense now i updates s of
                             (Inr updatedExpense, s1) \<Rightarrow>
                               (Inr updatedExpense,
                                set_status (\<lambda>prev. prev\<lparr>pending_changes := pending_changes prev + 1,
                                                         error := Some sync_failed_message\<rparr>) h2',
                                s1, r1)
                           | (Inl err, s1) \<Rightarrow> (Inl err, h2', s1, r1)))
                else
                  (case updateExpense now i updates s of
                     (res, s1) \<Rightarrow> (res, h2, s1, r)))
         in case updated of
              Inr updatedExpense \<Rightarrow>
                (Inr updatedExpense,
                 set_status (\<lambda>prev. prev\<lparr>sync_in_progress := False\<rparr>)
                   (h3\<lparr>expenses := map (\<lambda>exp. if expense_id exp = i then updatedExpense else exp)
                                       (expenses h3)\<rparr>),
                 s3, r3)
            | Inl err \<Rightarrow>
                (case loadExpenses now a (h3, s3, r3) of
                   (h4, s4, r4) \<Rightarrow>
                     (let appError = handleAsyncError err
                      in (Inl appError,
                          set_status (\<lambda>prev. prev\<lparr>sync_in_progress := False\<rparr>)
                            (h4\<lparr>hook_error := Some (message appError)\<rparr>),
                          s4, r4)))))"

definition useExpenses_deleteExpense ::
  "int \<Rightarrow> AuthHook \<Rightarrow> string
     \<Rightarrow> ExpensesHook \<times> AsyncStorage \<times> Supabase
     \<Rightarrow> (thrown + unit) \<times> ExpensesHook \<times> AsyncStorage \<times> Supabase" where
  "useExpenses_deleteExpense now a i w =
     (case w of (h, s, r) \<Rightarrow>
        (let h1 = h\<lparr>hook_error := None\<rparr>;
             h2 = h1\<lparr>expenses := filter (\<lambda>exp. expense_id exp \<noteq> i) (expenses h1)\<rparr>;
             (deleted, h3, s3, r3) =
               (if uses_remote a then
                  (let h2' = set_status (\<lambda>prev. prev\<lparr>sync_in_progress := True\<rparr>) h2
                   in case supabase_deleteExpense i r of
                        (Inr u, r1) \<Rightarrow>
                          (Inr (),
                           set_status (\<lambda>prev. prev\<lparr>last_sync := Some now, error := None\<rparr>) h2',
                           s, r1)
                      | (Inl supabaseError, r1) \<Rightarrow>
                          (case deleteExpense now i s of
                             (Inr u, s1) \<Rightarrow>
                               (Inr (),
                                set_status (\<lambda>prev. prev\<lparr>pending_changes := pending_changes prev + 1,
                                                         error := Some sync_failed_message\<rparr>) h2',
                                s1, r1)
                           | (Inl err, s1) \<Rightarrow> (Inl err, h2', s1, r1)))
                else
                  (case deleteExpense now i s of
                     (res, s1) \<Rightarrow> (res, h2, s1, r)))
         in case deleted of
              Inr u \<Rightarrow>
                (Inr (), set_status (\<lambda>prev. prev\<lparr>sync_in_progress := False\<rparr>) h3, s3, r3)
            | Inl err \<Rightarrow>
                (case loadExpenses now a (h3, s3, r3) of
                   (h4, s4, r4) \<Rightarrow>
                     (let appError = handleAsyncError err
                      in (Inl appError,
                          set_status (\<lambda>prev. prev\<lparr>sync_in_progress := False\<rparr>)
                            (h4\<lparr>hook_error := Some (message appError)\<rparr>),
                          s4, r4)))))"

section \<open>The Reconciliation Engine: the deferred operation queue (services/sync)\<close>

text \<open>
  \<^verbatim>\<open>SyncOperation\<close>. Its \<^verbatim>\<open>type\<close> and \<^verbatim>\<open>entity\<close> are strings at run time, so each has a
  case for a string outside the union; \<^verbatim>\<open>data\<close> is untyped in the source and is taken to
  be the expense the operation is about.
\<close>

datatype operation_type = Create | Update | Delete | OtherType string

datatype entity_type =
  ExpenseEntity | GoalTemplateEntity | GoalCompletionEntity | WeeklyReportEntity
  | OtherEntity string

record SyncOperation =
  op_id :: string
  op_type :: operation_type
  entity :: entity_type
  op_data :: Expense
  op_timestamp :: int
  retries :: int

text \<open>
  The service object. Queued operations are JavaScript objects: the queue holds
  references, \<open>ops\<close> is the heap they point into and \<open>next_ref\<close> the next free address, so
  that \<^verbatim>\<open>operation.retries += 1\<close> and \<^verbatim>\<open>processedOperations.includes(op)\<close> (a comparison of
  references) mean what they mean in the source. \<open>attempted\<close> is a history of the calls of
  \<^verbatim>\<open>processOperation\<close> made so far, each with the reference tried and whether it succeeded;
  it is only ever appended to and nothing reads it. Status listeners are not modelled.
\<close>

record SyncService =
  syncQueue :: "nat list"
  ops :: "nat \<Rightarrow> SyncOperation"
  next_ref :: nat
  currentSyncStatus :: SyncStatus
  attempted :: "(nat \<times> bool) list"

definition updateSyncStatus :: "(SyncStatus \<Rightarrow> SyncStatus) \<Rightarrow> SyncService \<Rightarrow> SyncService" where
  "updateSyncStatus f svc = svc\<lparr>currentSyncStatus := f (currentSyncStatus svc)\<rparr>"

text \<open>\<^verbatim>\<open>updateExpense(data.id, data)\<close>: every field of the expense is an update.\<close>

definition all_updates :: "Expense \<Rightarrow> ExpenseUpdates" where
  "all_updates e =
     \<lparr>u_id = Some (expense_id e), u_user_id = user_id e, u_content = Some (content e),
      u_price = Some (price e), u_date = Some (date e), u_created_at = Some (created_at e),
      u_updated_at = updated_at e, u_synced = synced e, u_sync_error = sync_error e\<rparr>"

definition processExpenseOperation ::
  "int \<Rightarrow> string \<Rightarrow> SyncOperation \<Rightarrow> Supabase \<Rightarrow> (thrown + unit) \<times> Supabase" where
  "processExpenseOperation now new_id operation r =
     (case op_type operation of
        Create \<Rightarrow>
          (case supabase_addExpense now new_id (op_data operation) r of
             (Inl err, r1) \<Rightarrow> (Inl err, r1)
           | (Inr added, r1) \<Rightarrow> (Inr (), r1))
      | Update \<Rightarrow>
          (case supabase_updateExpense now (expense_id (op_data operation))
                  (all_updates (op_data operation)) r of
             (Inl err, r1) \<Rightarrow> (Inl err, r1)
           | (Inr updated, r1) \<Rightarrow> (Inr (), r1))
      | Delete \<Rightarrow> supabase_deleteExpense (expense_id (op_data operation)) r
      | OtherType t \<Rightarrow> (Inl (Error (''Unknown sync operation type: '' @ t)), r))"

definition processOperation ::
  "int \<Rightarrow> string \<Rightarrow> SyncOperation \<Rightarrow> Supabase \<Rightarrow> (thrown + unit) \<times> Supabase" where
  "processOperation now new_id operation r =
     (case entity operation of
        ExpenseEntity \<Rightarrow> processExpenseOperation now new_id operation r
      | GoalTemplateEntity \<Rightarrow> (Inr (), r)
      | GoalCompletionEntity \<Rightarrow> (Inr (), r)
      | WeeklyReportEntity \<Rightarrow> (Inr (), r)
      | OtherEntity e \<Rightarrow> (Inl (Error (''Unknown sync entity: '' @ e)), r))"

text \<open>
  The loop \<^verbatim>\<open>for (const operation of this.syncQueue)\<close> of \<^verbatim>\<open>processQueue\<close>, over the
  references still to visit. Its state: the heap, the backend, \<^verbatim>\<open>processedOperations\<close> and
  the calls made. \<open>ids\<close> supplies the ids the database issues, one per iteration.
\<close>

fun drain ::
  "int \<Rightarrow> (nat \<Rightarrow> string) \<Rightarrow> nat list
     \<Rightarrow> (nat \<Rightarrow> SyncOperation) \<times> Supabase \<times> nat list \<times> (nat \<times> bool) list
     \<Rightarrow> (nat \<Rightarrow> SyncOperation) \<times> Supabase \<times> nat list \<times> (nat \<times> bool) list" where
  "drain now ids [] st = st"
| "drain now ids (operation # rest) (heap, r, processedOperations, calls) =
     (case processOperation now (ids 0) (heap operation) r of
        (Inr done, r1) \<Rightarrow>
          drain now (\<lambda>k. ids (Suc k)) rest
            (heap, r1, processedOperations @ [operation], calls @ [(operation, True)])
      | (Inl err, r1) \<Rightarrow>
          (let heap1 = heap(operation := (heap operation)\<lparr>retries := retries (heap operation) + 1\<rparr>)
           in drain now (\<lambda>k. ids (Suc k)) rest
                (heap1, r1,
                 if retries (heap1 operation) \<ge> 3 then processedOperations @ [operation]
                 else processedOperations,
                 calls @ [(operation, False)])))"

definition processQueue ::
  "int \<Rightarrow> (nat \<Rightarrow> string) \<Rightarrow> SyncService \<times> Supabase
     \<Rightarrow> (thrown + unit) \<times> SyncService \<times> Supabase" where
  "processQueue now ids w =
     (case w of (svc, r) \<Rightarrow>
        (if syncQueue svc = [] then (Inr (), svc, r)
         else
           (let svc1 = updateSyncStatus (\<lambda>st. st\<lparr>sync_in_progress := True\<rparr>) svc
            in case getCurrentUser r of
                 (current, r1) \<Rightarrow>
                   (if (case current of None \<Rightarrow> True | Some u \<Rightarrow> isGuest u) then
                      (let appError = handleAsyncError (Error ''User not authenticated for sync'')
                       in (Inl appError,
                           updateSyncStatus (\<lambda>st. st\<lparr>sync_in_progress := False\<rparr>)
                             (updateSyncStatus (\<lambda>st. st\<lparr>error := Some (message appError)\<rparr>) svc1),
                           r1))
                    else
                      (case drain now ids (syncQueue svc1) (ops svc1, r1, [], []) of
                         (heap, r2, processedOperations, calls) \<Rightarrow>
                           (let svc2 = svc1\<lparr>ops := heap,
                                  attempted := attempted svc1 @ calls,
                                  syncQueue := filter (\<lambda>op. op \<notin> set processedOperations)
                                                 (syncQueue svc1)\<rparr>;
                                svc3 = updateSyncStatus
                                         (\<lambda>st. st\<lparr>pending_changes := length (syncQueue svc2),
                                                  last_sync := Some now, error := None\<rparr>) svc2
                            in (Inr (),
                                updateSyncStatus (\<lambda>st. st\<lparr>sync_in_progress := False\<rparr>) svc3,
                                r2)))))))"

text \<open>
  \<^verbatim>\<open>queueOperation\<close>: the operation passed in is a new object, stored at the next free
  address; a failure of the immediate drain is caught and only logged.
\<close>

definition queueOperation ::
  "int \<Rightarrow> (nat \<Rightarrow> string) \<Rightarrow> SyncOperation \<Rightarrow> SyncService \<times> Supabase
     \<Rightarrow> SyncService \<times> Supabase" where
  "queueOperation now ids operation w =
     (case w of (svc, r) \<Rightarrow>
        (let svc1 = svc\<lparr>ops := (ops svc)(next_ref svc := operation),
                      syncQueue := syncQueue svc @ [next_ref svc],
                      next_ref := Suc (next_ref svc)\<rparr>;
             svc2 = updateSyncStatus (\<lambda>st. st\<lparr>pending_changes := length (syncQueue svc1)\<rparr>) svc1
         in snd (processQueue now ids (svc2, r))))"

text \<open>
  A history of the service: calls of \<^verbatim>\<open>queueOperation\<close> and \<^verbatim>\<open>processQueue\<close>, each made
  at its own time, with its own supply of database ids and against whatever state the
  backend is in at that moment. The calls are made one after the other: each has
  returned before the next starts. (The source has no guard against two passes running at
  once; such overlapping passes are not part of this model.)
\<close>

datatype sync_call = QueueOperation SyncOperation | ProcessQueue

fun run :: "(sync_call \<times> int \<times> (nat \<Rightarrow> string) \<times> Supabase) list \<Rightarrow> SyncService \<Rightarrow> SyncService" where
  "run [] svc = svc"
| "run ((QueueOperation operation, now, ids, r) # later) svc =
     run later (fst (queueOperation now ids operation (svc, r)))"
| "run ((ProcessQueue, now, ids, r) # later) svc =
     run later (fst (snd (processQueue now ids (svc, r))))"

text \<open>
  One iteration of the loop, read off its parts: whether the call of \<^verbatim>\<open>processOperation\<close>
  returned, and the heap after the iteration (a call that threw has added one to the
  \<open>retries\<close> of the operation).
\<close>

definition succeeded :: "(thrown + unit) \<times> Supabase \<Rightarrow> bool" where
  "succeeded out = (case fst out of Inr u \<Rightarrow> True | Inl err \<Rightarrow> False)"

definition heap_after ::
  "(nat \<Rightarrow> SyncOperation) \<Rightarrow> nat \<Rightarrow> bool \<Rightarrow> nat \<Rightarrow> SyncOperation" where
  "heap_after heap operation ok =
     (if ok then heap
      else heap(operation := (heap operation)\<lparr>retries := retries (heap operation) + 1\<rparr>))"

text \<open>
  What \<^verbatim>\<open>processOperation\<close> answers when it is called on the operations of a queue one
  after the other, in queue order, each call against the backend as the call before left
  it: for each operation whether the call returned, and the backend after the last call.
  The operations are read from the heap as it is before the first call.
\<close>

fun pass_results ::
  "int \<Rightarrow> (nat \<Rightarrow> string) \<Rightarrow> nat list \<Rightarrow> (nat \<Rightarrow> SyncOperation) \<Rightarrow> Supabase
     \<Rightarrow> bool list \<times> Supabase" where
  "pass_results now ids [] heap r = ([], r)"
| "pass_results now ids (operation # rest) heap r =
     (case pass_results now (\<lambda>k. ids (Suc k)) rest heap
             (snd (processOperation now (ids 0) (heap operation) r)) of
        (oks, r') \<Rightarrow> (succeeded (processOperation now (ids 0) (heap operation) r) # oks, r'))"

text \<open>How often a reference was tried in a history of calls.\<close>

definition attempts_of :: "nat \<Rightarrow> (nat \<times> bool) list \<Rightarrow> nat" where
  "attempts_of operation calls = length (filter (\<lambda>c. fst c = operation) calls)"

text \<open>How often a try of a reference failed in a history of calls.\<close>

definition failures_of :: "nat \<Rightarrow> (nat \<times> bool) list \<Rightarrow> nat" where
  "failures_of operation calls = length (filter (\<lambda>c. c = (operation, False)) calls)"

text \<open>The calls a step added to the history.\<close>

definition pass_calls :: "SyncService \<Rightarrow> SyncService \<Rightarrow> (nat \<times> bool) list" where
  "pass_calls before after = drop (length (attempted before)) (attempted after)"

text \<open>
  The queue holds each reference once, and only allocated ones. \<^verbatim>\<open>queueOperation\<close> and
  \<^verbatim>\<open>processQueue\<close> keep it so from the empty queue of a new service.
\<close>

definition queue_inv :: "SyncService \<Rightarrow> bool" where
  "queue_inv svc \<longleftrightarrow>
     distinct (syncQueue svc) \<and> list_all (\<lambda>x. x < next_ref svc) (syncQueue svc)"

text \<open>
  The tries an operation still has: none once it left the queue, else what separates its
  \<open>retries\<close> from 3, and one at least (a queued operation is tried before its counter is
  looked at).
\<close>

definition retry_budget :: "SyncService \<Rightarrow> nat \<Rightarrow> nat" where
  "retry_budget svc operation =
     (if operation \<in> set (syncQueue svc)
      then max 1 (nat (3 - retries (ops svc operation)))
      else 0)"

section \<open>The Reconciliation Engine: bulk reconciliation (services/sync, syncExpenses)\<close>

text \<open>\<^verbatim>\<open>id.startsWith('temp_')\<close>\<close>

definition starts_with_temp :: "string \<Rightarrow> bool" where
  "starts_with_temp i = (take 5 i = ''temp_'')"

text \<open>
  \<^verbatim>\<open>new Map(list.map(exp => [exp.id, exp])).get(id)\<close>: of two entries under one id the
  later one is kept.
\<close>

definition map_get :: "Expense list \<Rightarrow> string \<Rightarrow> Expense option" where
  "map_get xs i = find (\<lambda>e. expense_id e = i) (rev xs)"

text \<open>
  The three partitions of \<^verbatim>\<open>resolveExpenseConflicts\<close>. An expense to upload goes with
  the id the upload loop will test: a local expense under a temporary id is pushed with
  \<^verbatim>\<open>id: undefined\<close> (here \<open>None\<close>) and the user's id.
\<close>

definition expensesToUpload ::
  "Expense list \<Rightarrow> Expense list \<Rightarrow> User \<Rightarrow> (string option \<times> Expense) list" where
  "expensesToUpload localExpenses serverExpenses user =
     map (\<lambda>localExpense.
            if starts_with_temp (expense_id localExpense)
            then (None, localExpense\<lparr>user_id := Some (uid user)\<rparr>)
            else (Some (expense_id localExpense), localExpense))
       (filter (\<lambda>localExpense. map_get serverExpenses (expense_id localExpense) = None)
          localExpenses)"

definition expensesToDownload :: "Expense list \<Rightarrow> Expense list \<Rightarrow> Expense list" where
  "expensesToDownload localExpenses serverExpenses =
     filter (\<lambda>serverExpense. map_get localExpenses (expense_id serverExpense) = None)
       serverExpenses"

definition differs :: "Expense \<Rightarrow> Expense \<Rightarrow> bool" where
  "differs localExpense serverExpense \<longleftrightarrow>
     content localExpense \<noteq> content serverExpense
     \<or> price localExpense \<noteq> price serverExpense
     \<or> date localExpense \<noteq> date serverExpense"

definition conflict_of :: "Expense list \<Rightarrow> Expense \<Rightarrow> (Expense \<times> Expense) option" where
  "conflict_of serverExpenses localExpense =
     (case map_get serverExpenses (expense_id localExpense) of
        None \<Rightarrow> None
      | Some serverExpense \<Rightarrow>
          if \<not> starts_with_temp (expense_id localExpense)
             \<and> differs localExpense serverExpense
          then Some (localExpense, serverExpense)
          else None)"

definition conflictsToResolve :: "Expense list \<Rightarrow> Expense list \<Rightarrow> (Expense \<times> Expense) list" where
  "conflictsToResolve localExpenses serverExpenses =
     List.map_filter (conflict_of serverExpenses) localExpenses"

text \<open>
  The bodies of the three loops; each catches what it throws and goes on. \<open>server_id\<close> and
  \<open>local_id\<close> are the ids the database and the Local Store would issue in that iteration.
\<close>

definition upload_one ::
  "int \<Rightarrow> string \<Rightarrow> string \<Rightarrow> string option \<times> Expense \<Rightarrow> AsyncStorage \<times> Supabase
     \<Rightarrow> AsyncStorage \<times> Supabase" where
  "upload_one now server_id local_id item w =
     (case w of (s, r) \<Rightarrow>
        (case supabase_addExpense now server_id (snd item) r of
           (Inl err, r1) \<Rightarrow> (s, r1)
         | (Inr uploadedExpense, r1) \<Rightarrow>
             (case fst item of
                None \<Rightarrow> (s, r1)
              | Some i \<Rightarrow>
                  if starts_with_temp i
                  then (let s1 = snd (deleteExpense now i s)
                        in (snd (addExpense now local_id uploadedExpense s1), r1))
                  else (s, r1))))"

definition download_one ::
  "int \<Rightarrow> string \<Rightarrow> Expense \<Rightarrow> AsyncStorage \<times> Supabase \<Rightarrow> AsyncStorage \<times> Supabase" where
  "download_one now local_id expense w =
     (case w of (s, r) \<Rightarrow>
        (snd (addExpense now local_id (expense\<lparr>synced := Some True\<rparr>) s), r))"

definition resolved_updates :: "Expense \<Rightarrow> ExpenseUpdates" where
  "resolved_updates resolvedExpense =
     \<lparr>u_id = None, u_user_id = None, u_content = Some (content resolvedExpense),
      u_price = Some (price resolvedExpense), u_date = Some (date resolvedExpense),
      u_created_at = None, u_updated_at = updated_at resolvedExpense,
      u_synced = Some True, u_sync_error = None\<rparr>"

definition resolve_one ::
  "int \<Rightarrow> Expense \<times> Expense \<Rightarrow> AsyncStorage \<times> Supabase \<Rightarrow> AsyncStorage \<times> Supabase" where
  "resolve_one now conflict w =
     (case w of (s, r) \<Rightarrow>
        (case resolveExpenseConflict now (fst conflict) (snd conflict) r of
           (Inl err, r1) \<Rightarrow> (s, r1)
         | (Inr resolvedExpense, r1) \<Rightarrow>
             (snd (updateExpense now (expense_id resolvedExpense)
                     (resolved_updates resolvedExpense) s), r1)))"

fun upload_loop ::
  "int \<Rightarrow> (nat \<Rightarrow> string) \<Rightarrow> (nat \<Rightarrow> string) \<Rightarrow> (string option \<times> Expense) list
     \<Rightarrow> AsyncStorage \<times> Supabase \<Rightarrow> AsyncStorage \<times> Supabase" where
  "upload_loop now sids lids [] w = w"
| "upload_loop now sids lids (item # rest) w =
     upload_loop now (\<lambda>k. sids (Suc k)) (\<lambda>k. lids (Suc k)) rest
       (upload_one now (sids 0) (lids 0) item w)"

fun download_loop ::
  "int \<Rightarrow> (nat \<Rightarrow> string) \<Rightarrow> Expense list \<Rightarrow> AsyncStorage \<times> Supabase
     \<Rightarrow> AsyncStorage \<times> Supabase" where
  "download_loop now lids [] w = w"
| "download_loop now lids (expense # rest) w =
     download_loop now (\<lambda>k. lids (Suc k)) rest (download_one now (lids 0) expense w)"

fun conflict_loop ::
  "int \<Rightarrow> (Expense \<times> Expense) list \<Rightarrow> AsyncStorage \<times> Supabase \<Rightarrow> AsyncStorage \<times> Supabase" where
  "conflict_loop now [] w = w"
| "conflict_loop now (conflict # rest) w = conflict_loop now rest (resolve_one now conflict w)"

definition resolveExpenseConflicts ::
  "int \<Rightarrow> (nat \<Rightarrow> string) \<Rightarrow> (nat \<Rightarrow> string) \<Rightarrow> Expense list \<Rightarrow> Expense list \<Rightarrow> User
     \<Rightarrow> AsyncStorage \<times> Supabase \<Rightarrow> AsyncStorage \<times> Supabase" where
  "resolveExpenseConflicts now sids lids localExpenses serverExpenses user w =
     (let toUpload = expensesToUpload localExpenses serverExpenses user;
          toDownload = expensesToDownload localExpenses serverExpenses;
          conflicts = conflictsToResolve localExpenses serverExpenses;
          w1 = upload_loop now sids lids toUpload w;
          w2 = download_loop now (\<lambda>k. lids (length toUpload + k)) toDownload w1
      in conflict_loop now conflicts w2)"

text \<open>
  \<^verbatim>\<open>syncExpenses\<close>. The two reads of \<^verbatim>\<open>Promise.all\<close> are made one after the other, the
  Local Store first. \<open>sids\<close> and \<open>lids\<close> supply the ids the database and the Local Store
  issue.
\<close>

definition sync_failure ::
  "thrown \<Rightarrow> SyncService \<Rightarrow> AsyncStorage \<Rightarrow> Supabase
     \<Rightarrow> (thrown + unit) \<times> SyncService \<times> AsyncStorage \<times> Supabase" where
  "sync_failure err svc s r =
     (let appError = handleAsyncError err
      in (Inl appError,
          updateSyncStatus (\<lambda>st. st\<lparr>sync_in_progress := False\<rparr>)
            (updateSyncStatus (\<lambda>st. st\<lparr>error := Some (message appError)\<rparr>) svc),
          s, r))"

definition syncExpenses ::
  "int \<Rightarrow> (nat \<Rightarrow> string) \<Rightarrow> (nat \<Rightarrow> string) \<Rightarrow> SyncService \<times> AsyncStorage \<times> Supabase
     \<Rightarrow> (thrown + unit) \<times> SyncService \<times> AsyncStorage \<times> Supabase" where
  "syncExpenses now sids lids w =
     (case w of (svc, s, r) \<Rightarrow>
        (let svc1 = updateSyncStatus (\<lambda>st. st\<lparr>sync_in_progress := True, error := None\<rparr>) svc
         in case getCurrentUser r of
              (None, r1) \<Rightarrow> sync_failure (Error ''User not authenticated for sync'') svc1 s r1
            | (Some user, r1) \<Rightarrow>
                (if isGuest user
                 then sync_failure (Error ''User not authenticated for sync'') svc1 s r1
                 else
                   (case getExpenses now s of
                      (localExpenses, s1) \<Rightarrow>
                        (case supabase_getExpenses r1 of
                           (Inl err, r2) \<Rightarrow> sync_failure err svc1 s1 r2
                         | (Inr serverExpenses, r2) \<Rightarrow>
                             (case resolveExpenseConflicts now sids lids localExpenses
                                     serverExpenses user (s1, r2) of
                                (s3, r3) \<Rightarrow>
                                  (Inr (),
                                   updateSyncStatus (\<lambda>st. st\<lparr>sync_in_progress := False\<rparr>)
                                     (updateSyncStatus
                                        (\<lambda>st. st\<lparr>last_sync := Some now, pending_changes := 0,
                                                 error := None\<rparr>) svc1),
                                   s3, r3)))))))"

text \<open>What a store holds under one id: the first local record, the rows of the table.\<close>

definition stored_expenses :: "AsyncStorage \<Rightarrow> Expense list" where
  "stored_expenses s = (case expenses_item s of None \<Rightarrow> [] | Some xs \<Rightarrow> xs)"

definition local_record :: "string \<Rightarrow> AsyncStorage \<Rightarrow> Expense option" where
  "local_record i s = find (\<lambda>e. expense_id e = i) (stored_expenses s)"

definition remote_rows :: "string \<Rightarrow> Supabase \<Rightarrow> Expense list" where
  "remote_rows i r = filter (\<lambda>row. expense_id row = i) (expenses_table r)"

text \<open>The record on which last-write-wins settles, and agreement on the domain fields.\<close>

definition winner :: "Expense \<Rightarrow> Expense \<Rightarrow> Expense" where
  "winner localExpense serverExpense =
     (if write_time localExpense > write_time serverExpense then localExpense
      else serverExpense)"

definition same_fields :: "Expense \<Rightarrow> Expense \<Rightarrow> bool" where
  "same_fields a b \<longleftrightarrow> content a = content b \<and> price a = price b \<and> date a = date b"

text \<open>
  The conditions under which reconciliation is studied: a Local Store whose persistence
  layer works, that is not expired and holds an expense collection; a backend that is
  reachable, with a signed-in (non-guest) user cached by the service.
\<close>

definition good_store :: "int \<Rightarrow> AsyncStorage \<Rightarrow> bool" where
  "good_store now s \<longleftrightarrow>
     \<not> get_fails s \<and> \<not> set_fails s \<and> \<not> isDataExpired now s \<and> expenses_item s \<noteq> None"

definition signed_in :: "User \<Rightarrow> Supabase \<Rightarrow> bool" where
  "signed_in u r \<longleftrightarrow> currentUser r = Some u \<and> \<not> isGuest u \<and> reachable r"

text \<open>
  A conflict on id \<open>i\<close> not yet treated (the stores hold the two diverging records), and
  one settled on the record \<open>w\<close> (both stores hold its content, price and date, the local
  record flagged as synced).
\<close>

definition pending_conflict ::
  "int \<Rightarrow> User \<Rightarrow> string \<Rightarrow> Expense \<Rightarrow> Expense \<Rightarrow> AsyncStorage \<times> Supabase \<Rightarrow> bool" where
  "pending_conflict now u i l sv w \<longleftrightarrow>
     good_store now (fst w) \<and> signed_in u (snd w)
     \<and> local_record i (fst w) = Some l \<and> remote_rows i (snd w) = [sv]"

definition settled_on ::
  "int \<Rightarrow> User \<Rightarrow> string \<Rightarrow> Expense \<Rightarrow> AsyncStorage \<times> Supabase \<Rightarrow> bool" where
  "settled_on now u i w st \<longleftrightarrow>
     good_store now (fst st) \<and> signed_in u (snd st)
     \<and> (case local_record i (fst st) of
           None \<Rightarrow> False
         | Some l' \<Rightarrow> same_fields l' w \<and> synced l' = Some True)
     \<and> (case remote_rows i (snd st) of
           [row] \<Rightarrow> same_fields row w
         | _ \<Rightarrow> False)"

section \<open>Sample values\<close>

definition sample_expense :: Expense where
  "sample_expense =
     \<lparr>expense_id = ''e1'', user_id = None, content = ''coffee'', price = 10,
      date = ''2024-01-01'', created_at = 1000, updated_at = None, synced = None,
      sync_error = None\<rparr>"

definition sample_store :: AsyncStorage where
  "sample_store =
     \<lparr>expenses_item = Some [sample_expense], goal_templates_item = None,
      goal_completions_item = None, weekly_reports_item = None,
      expiry_item = Some 5000, get_fails = False, set_fails = False, remove_fails = False\<rparr>"

definition no_updates :: ExpenseUpdates where
  "no_updates =
     \<lparr>u_id = None, u_user_id = None, u_content = None, u_price = None, u_date = None,
      u_created_at = None, u_updated_at = None, u_synced = None, u_sync_error = None\<rparr>"

definition sample_completion :: CompletionInput where
  "sample_completion =
     \<lparr>c_user_id = ''u1'', goal_template_id = ''t1'', completion_date = ''2024-01-01'',
      is_completed = True, completed_at = Some 1500\<rparr>"

definition sample_template :: GoalTemplate where
  "sample_template =
     \<lparr>template_id = ''t1'', t_user_id = ''u1'', title = ''run'', day_of_week = 1,
      order_index = 0, is_active = True, t_created_at = 1000, t_updated_at = 1000\<rparr>"

definition sample_report :: ReportInput where
  "sample_report =
     \<lparr>r_user_id = ''u1'', week_start_date = ''2024-01-01'',
      report_data = \<lparr>goals = [], overall_completion_rate = 0\<rparr>\<rparr>"

definition sample_done :: DailyGoalCompletion where
  "sample_done =
     \<lparr>c_user_id = ''u1'', goal_template_id = ''t1'', completion_date = ''2024-01-01'',
      is_completed = True, completed_at = Some 1500, completion_id = ''c1'',
      c_created_at = 1500\<rparr>"

definition spring_forward_zone :: TimeZone where
  "spring_forward_zone =
     \<lparr>offset_at = (\<lambda>ms. if ms < 1711670400000 then 120 else 180),
      offset_for_local = (\<lambda>localTime. if localTime < 1711670400000 + 180 * 60000
                                        then 120 else 180)\<rparr>"

definition saturday_template :: GoalTemplate where
  "saturday_template = sample_template\<lparr>day_of_week := 6\<rparr>"

definition saturday_done :: DailyGoalCompletion where
  "saturday_done = sample_done\<lparr>completion_date := ''2024-03-30''\<rparr>"

definition sample_user :: User where
  "sample_user =
     \<lparr>uid = ''u1'', email = Some ''a@b.c'', isGuest = False, user_created_at = 100,
      user_updated_at = 100\<rparr>"

definition sample_backend_user :: BackendUser where
  "sample_backend_user =
     \<lparr>b_id = ''u1'', b_email = Some ''a@b.c'', b_created_at = 100, b_updated_at = None,
      email_confirmed_at = Some 150\<rparr>"

definition sample_remote :: Supabase where
  "sample_remote =
     \<lparr>configured = True, currentUser = Some sample_user, session_user = Some sample_user,
      reachable = True,
      request_error = \<lparr>db_code = [], db_message = Some ''TypeError: Network request failed''\<rparr>,
      expenses_table = []\<rparr>"

definition signed_out_hook :: AuthHook where
  "signed_out_hook =
     \<lparr>auth_user = None, auth_loading = False, auth_error = None, forceAuthScreen = False\<rparr>"

definition signed_in_hook :: AuthHook where
  "signed_in_hook =
     \<lparr>auth_user = Some sample_user, auth_loading = False, auth_error = None,
      forceAuthScreen = False\<rparr>"

definition guest_hook :: AuthHook where
  "guest_hook =
     \<lparr>auth_user = Some (createGuestUser 50), auth_loading = False, auth_error = None,
      forceAuthScreen = False\<rparr>"

definition idle_status :: SyncStatus where
  "idle_status = \<lparr>last_sync = None, pending_changes = 0, sync_in_progress = False, error = None\<rparr>"

definition sample_hook :: ExpensesHook where
  "sample_hook =
     \<lparr>expenses = [sample_expense], loading = False, hook_error = None, syncStatus = idle_status\<rparr>"

definition negative_price :: ExpenseUpdates where
  "negative_price = no_updates\<lparr>u_price := Some (- 5)\<rparr>"

definition sample_fields :: ExpenseFields where
  "sample_fields = \<lparr>f_content = ''tea'', f_price = 3, f_date = ''2024-01-02''\<rparr>"

definition remote_with_coffee :: Supabase where
  "remote_with_coffee =
     sample_remote\<lparr>expenses_table := [sample_expense\<lparr>user_id := Some ''u1''\<rparr>]\<rparr>"

definition offline_remote :: Supabase where
  "offline_remote = sample_remote\<lparr>reachable := False\<rparr>"

definition empty_store :: AsyncStorage where
  "empty_store =
     \<lparr>expenses_item = None, goal_templates_item = None, goal_completions_item = None,
      weekly_reports_item = None, expiry_item = None, get_fails = False, set_fails = False,
      remove_fails = False\<rparr>"

definition price_seven :: ExpenseUpdates where
  "price_seven = no_updates\<lparr>u_price := Some 7\<rparr>"

definition unknown_error :: thrown where
  "unknown_error = AppError UNKNOWN_ERROR ''An unknown error occurred''"

definition create_op :: SyncOperation where
  "create_op =
     \<lparr>op_id = ''op1'', op_type = Create, entity = ExpenseEntity, op_data = sample_expense,
      op_timestamp = 1000, retries = 0\<rparr>"

definition template_op :: SyncOperation where
  "template_op =
     \<lparr>op_id = ''op2'', op_type = Create, entity = GoalTemplateEntity, op_data = sample_expense,
      op_timestamp = 1000, retries = 0\<rparr>"

definition sample_service :: SyncService where
  "sample_service =
     \<lparr>syncQueue = [0, 1], ops = (\<lambda>k. if k = 0 then create_op else template_op),
      next_ref = 2, currentSyncStatus = idle_status, attempted = []\<rparr>"

definition server_ids :: "nat \<Rightarrow> string" where
  "server_ids k = ''srv'' @ decimal k"

definition four_passes :: "(sync_call \<times> int \<times> (nat \<Rightarrow> string) \<times> Supabase) list" where
  "four_passes =
     [(ProcessQueue, 2000, server_ids, offline_remote),
      (ProcessQueue, 3000, server_ids, offline_remote),
      (ProcessQueue, 4000, server_ids, offline_remote),
      (ProcessQueue, 5000, server_ids, offline_remote)]"

definition local_ten :: Expense where
  "local_ten =
     \<lparr>expense_id = ''e1'', user_id = Some ''u1'', content = ''coffee'', price = 10,
      date = ''2024-01-01'', created_at = 500, updated_at = Some 1000, synced = Some False,
      sync_error = None\<rparr>"

definition remote_twelve :: Expense where
  "remote_twelve =
     \<lparr>expense_id = ''e1'', user_id = Some ''u1'', content = ''coffee'', price = 12,
      date = ''2024-01-01'', created_at = 500, updated_at = Some 2000, synced = None,
      sync_error = None\<rparr>"

definition store_ten :: AsyncStorage where
  "store_ten = empty_store\<lparr>expenses_item := Some [local_ten], expiry_item := Some 9000000\<rparr>"

definition remote_with_twelve :: Supabase where
  "remote_with_twelve = sample_remote\<lparr>expenses_table := [remote_twelve]\<rparr>"

definition idle_service :: SyncService where
  "idle_service =
     \<lparr>syncQueue = [], ops = (\<lambda>k. create_op), next_ref = 0, currentSyncStatus = idle_status,
      attempted = []\<rparr>"

definition local_ids :: "nat \<Rightarrow> string" where
  "local_ids k = ''loc'' @ decimal k"

section \<open>Properties of the Local Store\<close>

lemma findIndex_None_iff: "findIndex P xs = None \<longleftrightarrow> (\<forall>x \<in> set xs. \<not> P x)"
  by (induction xs) auto

lemma findIndex_Some_less: "findIndex P xs = Some k \<Longrightarrow> k < length xs \<and> P (xs ! k)"
  by (induction xs arbitrary: k) (auto split: if_splits)

lemma filter_absent_id:
  "i \<notin> expense_id ` set xs \<Longrightarrow> filter (\<lambda>e. expense_id e \<noteq> i) xs = xs"
  by (induction xs) auto

lemma getExpenses_after_save:
  "fst (getExpenses now (saveExpenses now (fst (getExpenses now s)) (snd (getExpenses now s))))
     = fst (getExpenses now s)"
  by (simp add: getExpenses_def saveExpenses_def stamp_expiry_def setExpiryDate_def
      isDataExpired_def clearAllData_def EXPIRY_DAYS_def MS_PER_DAY_def Let_def
      split: option.splits)

text \<open>
  C10. A local delete whose target id is not in the stored expense collection completes
  without throwing and leaves the collection unchanged, as read back by \<open>getExpenses\<close>
  (and as the stored document itself when the store can be read, is not expired and holds
  the collection), whereas a local update of the same missing id throws
  \<^verbatim>\<open>Error('Expense not found')\<close>.
\<close>

theorem deleteExpense_missing_is_noop:
  assumes "i \<notin> expense_id ` set (fst (getExpenses now s))"
  shows "fst (deleteExpense now i s) = Inr ()
       \<and> fst (getExpenses now (snd (deleteExpense now i s))) = fst (getExpenses now s)
       \<and> (\<forall>xs. expenses_item s = Some xs \<and> \<not> isDataExpired now s \<and> \<not> get_fails s
              \<longrightarrow> expenses_item (snd (deleteExpense now i s)) = Some xs)
       \<and> fst (updateExpense now i updates s) = Inl (Error ''Expense not found'')"
proof -
  obtain xs s1 where g: "getExpenses now s = (xs, s1)"
    by (cases "getExpenses now s")
  from assms g have absent: "i \<notin> expense_id ` set xs" by simp
  have del: "deleteExpense now i s = (Inr (), saveExpenses now xs s1)"
    using g filter_absent_id[OF absent] by (simp add: deleteExpense_def)
  have rb: "fst (getExpenses now (saveExpenses now xs s1)) = xs"
    using getExpenses_after_save[of now s] g by simp
  have raw: "\<forall>ys. expenses_item s = Some ys \<and> \<not> isDataExpired now s \<and> \<not> get_fails s
              \<longrightarrow> expenses_item (saveExpenses now xs s1) = Some ys"
    using g
    by (auto simp: getExpenses_def saveExpenses_def stamp_expiry_def setExpiryDate_def
        Let_def split: option.splits if_splits)
  have "findIndex (\<lambda>e. expense_id e = i) xs = None"
    using absent by (auto simp: findIndex_None_iff)
  then have upd: "fst (updateExpense now i updates s) = Inl (Error ''Expense not found'')"
    using g by (simp add: updateExpense_def)
  show ?thesis using del rb raw upd g by simp
qed

theorem deleteExpense_missing_is_noop_witness:
  "''zz'' \<notin> expense_id ` set (fst (getExpenses 2000 sample_store))
   \<and> fst (deleteExpense 2000 ''zz'' sample_store) = Inr ()
   \<and> expenses_item (snd (deleteExpense 2000 ''zz'' sample_store)) = Some [sample_expense]
   \<and> fst (updateExpense 2000 ''zz'' no_updates sample_store) = Inl (Error ''Expense not found'')"
proof -
  have g: "getExpenses 2000 sample_store = ([sample_expense], sample_store)"
    by (simp add: getExpenses_def isDataExpired_def sample_store_def)
  have h: "''zz'' \<notin> expense_id ` set (fst (getExpenses 2000 sample_store))"
    by (simp add: g sample_expense_def)
  have e: "expenses_item sample_store = Some [sample_expense]
           \<and> \<not> isDataExpired 2000 sample_store \<and> \<not> get_fails sample_store"
    by (simp add: isDataExpired_def sample_store_def)
  from deleteExpense_missing_is_noop[OF h, of no_updates] e h show ?thesis by blast
qed

subsection \<open>Expiry\<close>

lemma clearAllData_keys:
  "\<not> remove_fails s \<Longrightarrow>
     expenses_item (clearAllData s) = None \<and> goal_templates_item (clearAllData s) = None
     \<and> goal_completions_item (clearAllData s) = None
     \<and> weekly_reports_item (clearAllData s) = None \<and> expiry_item (clearAllData s) = None
     \<and> get_fails (clearAllData s) = get_fails s"
  by (simp add: clearAllData_def)

lemma exportAllData_no_keys:
  assumes "expenses_item w = None" "goal_templates_item w = None"
    "goal_completions_item w = None" "weekly_reports_item w = None" "expiry_item w = None"
  shows "exportAllData later w =
           (\<lparr>export_expenses = [], export_goalTemplates = [], export_dailyCompletions = [],
             export_weeklyReports = [],
             export_expiryInfo = \<lparr>expiryDate = None, daysRemaining = None\<rparr>,
             exportedAt = later\<rparr>, w)"
  using assms
  by (simp add: exportAllData_def getExpenses_def getGoalTemplates_def
      getDailyCompletions_def getWeeklyReports_def getExpiryInfo_def isDataExpired_def)

text \<open>
  C4. When the stored expiry timestamp exists and lies in the past (and the persistence
  layer answers), a read of any of the four collections returns the empty list and leaves
  the store with all four collections and the expiry stamp removed; an \<open>exportAllData\<close>
  at any later time then shows four empty collections. When no expiry timestamp is
  stored, \<open>isDataExpired\<close> is false and a read returns what is stored.
\<close>

theorem expired_read_wipes_everything:
  assumes "expiry_item s = Some expiry" and "expiry < now"
    and "\<not> get_fails s" and "\<not> remove_fails s"
  shows "getExpenses now s = ([], clearAllData s)
       \<and> getGoalTemplates now s = ([], clearAllData s)
       \<and> getDailyCompletions now d s = ([], clearAllData s)
       \<and> getWeeklyReports now s = ([], clearAllData s)
       \<and> expenses_item (clearAllData s) = None
       \<and> goal_templates_item (clearAllData s) = None
       \<and> goal_completions_item (clearAllData s) = None
       \<and> weekly_reports_item (clearAllData s) = None
       \<and> expiry_item (clearAllData s) = None
       \<and> export_expenses (fst (exportAllData later (clearAllData s))) = []
       \<and> export_goalTemplates (fst (exportAllData later (clearAllData s))) = []
       \<and> export_dailyCompletions (fst (exportAllData later (clearAllData s))) = []
       \<and> export_weeklyReports (fst (exportAllData later (clearAllData s))) = []
       \<and> (\<forall>s0 t. expiry_item s0 = None \<longrightarrow>
             \<not> isDataExpired t s0
             \<and> (\<not> get_fails s0 \<longrightarrow>
                  getExpenses t s0 = (case expenses_item s0 of None \<Rightarrow> [] | Some xs \<Rightarrow> xs, s0)))"
proof -
  have expired: "isDataExpired now s"
    using assms by (simp add: isDataExpired_def)
  have reads: "getExpenses now s = ([], clearAllData s)"
    "getGoalTemplates now s = ([], clearAllData s)"
    "getDailyCompletions now d s = ([], clearAllData s)"
    "getWeeklyReports now s = ([], clearAllData s)"
    using expired
    by (simp_all add: getExpenses_def getGoalTemplates_def getDailyCompletions_def
        getWeeklyReports_def)
  have keys: "expenses_item (clearAllData s) = None"
    "goal_templates_item (clearAllData s) = None"
    "goal_completions_item (clearAllData s) = None"
    "weekly_reports_item (clearAllData s) = None"
    "expiry_item (clearAllData s) = None"
    using clearAllData_keys[OF assms(4)] by simp_all
  have export: "fst (exportAllData later (clearAllData s)) =
           \<lparr>export_expenses = [], export_goalTemplates = [], export_dailyCompletions = [],
             export_weeklyReports = [],
             export_expiryInfo = \<lparr>expiryDate = None, daysRemaining = None\<rparr>,
             exportedAt = later\<rparr>"
    using exportAllData_no_keys[OF keys] by simp
  have unstamped: "\<forall>s0 t. expiry_item s0 = None \<longrightarrow>
             \<not> isDataExpired t s0
             \<and> (\<not> get_fails s0 \<longrightarrow>
                  getExpenses t s0 = (case expenses_item s0 of None \<Rightarrow> [] | Some xs \<Rightarrow> xs, s0))"
    by (auto simp: isDataExpired_def getExpenses_def split: option.splits)
  show ?thesis
    using reads keys unstamped by (simp add: export)
qed

theorem expired_read_wipes_everything_witness:
  "getExpenses 9000 sample_store = ([], clearAllData sample_store)
   \<and> expenses_item (clearAllData sample_store) = None
   \<and> export_expenses (fst (exportAllData 9500 (clearAllData sample_store))) = []
   \<and> export_weeklyReports (fst (exportAllData 9500 (clearAllData sample_store))) = []
   \<and> \<not> isDataExpired 9000 (sample_store\<lparr>expiry_item := None\<rparr>)"
proof -
  have a: "expiry_item sample_store = Some 5000" "(5000::int) < 9000"
    "\<not> get_fails sample_store" "\<not> remove_fails sample_store"
    by (simp_all add: sample_store_def)
  have n: "expiry_item (sample_store\<lparr>expiry_item := None\<rparr>) = None" by simp
  from expired_read_wipes_everything[OF a, of None 9500] n show ?thesis by blast
qed

subsection \<open>Failures of the persistence layer\<close>

text \<open>
  C9 (as the code has it). A failure of the persistence layer while loading is not
  surfaced by the reads: each of the four reads catches it and returns the empty list.
  A failure while persisting is surfaced by the writes of goal templates, goal
  completions and weekly reports: they throw, report no record, and leave the store as the
  preceding read left it.
\<close>

theorem reads_swallow_and_goal_writes_surface_failure:
  "(get_fails s \<longrightarrow>
       fst (getExpenses now s) = [] \<and> fst (getGoalTemplates now s) = []
       \<and> fst (getDailyCompletions now d s) = [] \<and> fst (getWeeklyReports now s) = [])
   \<and> (set_fails s \<longrightarrow>
       addGoalTemplate now new_id template s
         = (Inl storage_failure, snd (getGoalTemplates now s))
       \<and> updateGoalCompletion now new_id completion s
         = (Inl storage_failure, snd (getDailyCompletions now None s))
       \<and> addWeeklyReport now new_id report s
         = (Inl storage_failure, snd (getWeeklyReports now s)))"
proof -
  have flag: "set_fails s \<Longrightarrow> set_fails (clearAllData s)"
    by (simp add: clearAllData_def)
  have rd: "get_fails s \<Longrightarrow>
       fst (getExpenses now s) = [] \<and> fst (getGoalTemplates now s) = []
       \<and> fst (getDailyCompletions now d s) = [] \<and> fst (getWeeklyReports now s) = []"
    by (simp add: getExpenses_def getGoalTemplates_def getDailyCompletions_def
        getWeeklyReports_def)
  have t: "set_fails s \<Longrightarrow> addGoalTemplate now new_id template s
         = (Inl storage_failure, snd (getGoalTemplates now s))"
    using flag
    by (simp add: addGoalTemplate_def getGoalTemplates_def saveGoalTemplates_def
        split: option.splits)
  have c: "set_fails s \<Longrightarrow> updateGoalCompletion now new_id completion s
         = (Inl storage_failure, snd (getDailyCompletions now None s))"
    using flag
    by (simp add: updateGoalCompletion_def getDailyCompletions_def saveDailyCompletions_def
        split: option.splits prod.splits)
  have r: "set_fails s \<Longrightarrow> addWeeklyReport now new_id report s
         = (Inl storage_failure, snd (getWeeklyReports now s))"
    using flag
    by (simp add: addWeeklyReport_def getWeeklyReports_def saveWeeklyReports_def Let_def
        split: option.splits)
  show ?thesis using rd t c r by blast
qed

theorem reads_swallow_and_goal_writes_surface_failure_witness:
  "get_fails (sample_store\<lparr>get_fails := True\<rparr>)
   \<and> fst (getExpenses 2000 (sample_store\<lparr>get_fails := True\<rparr>)) = []
   \<and> set_fails (sample_store\<lparr>set_fails := True\<rparr>)
   \<and> fst (updateGoalCompletion 2000 ''c1'' sample_completion (sample_store\<lparr>set_fails := True\<rparr>))
       = Inl storage_failure"
proof -
  have g: "get_fails (sample_store\<lparr>get_fails := True\<rparr>)" by simp
  have w: "set_fails (sample_store\<lparr>set_fails := True\<rparr>)" by simp
  from reads_swallow_and_goal_writes_surface_failure
         [of "sample_store\<lparr>get_fails := True\<rparr>" 2000 None "''c1''" sample_template sample_completion sample_report]
       g
  have 1: "fst (getExpenses 2000 (sample_store\<lparr>get_fails := True\<rparr>)) = []" by blast
  from reads_swallow_and_goal_writes_surface_failure
         [of "sample_store\<lparr>set_fails := True\<rparr>" 2000 None "''c1''" sample_template sample_completion sample_report]
       w
  have 2: "fst (updateGoalCompletion 2000 ''c1'' sample_completion (sample_store\<lparr>set_fails := True\<rparr>))
       = Inl storage_failure" by simp
  from g w 1 2 show ?thesis by blast
qed

text \<open>
  The claim as the specification words it fails on the expense collection: with a
  persistence layer that rejects reads, \<open>getExpenses\<close> reports an empty collection although
  one expense is stored; with one that rejects writes, \<open>addExpense\<close> reports success
  although the stored collection is unchanged.
\<close>

theorem storage_failure_not_surfaced_counterexample:
  "fst (getExpenses 2000 (sample_store\<lparr>get_fails := True\<rparr>)) = []
   \<and> expenses_item (sample_store\<lparr>get_fails := True\<rparr>) = Some [sample_expense]
   \<and> fst (addExpense 2000 ''n1'' sample_expense (sample_store\<lparr>set_fails := True\<rparr>))
       = Inr (sample_expense\<lparr>expense_id := ''n1'', created_at := 2000\<rparr>)
   \<and> expenses_item (snd (addExpense 2000 ''n1'' sample_expense (sample_store\<lparr>set_fails := True\<rparr>)))
       = Some [sample_expense]"
  by (simp add: getExpenses_def addExpense_def saveExpenses_def isDataExpired_def
      sample_store_def)

subsection \<open>Upsert of goal completions\<close>

lemma findIndex_first:
  "findIndex P xs = Some k \<Longrightarrow> j < k \<Longrightarrow> \<not> P (xs ! j)"
proof (induction xs arbitrary: k j)
  case Nil
  then show ?case by simp
next
  case (Cons x xs)
  then show ?case by (cases j) (auto split: if_splits)
qed

lemma findIndex_update_same:
  "findIndex P xs = Some k \<Longrightarrow> P y \<Longrightarrow> findIndex P (xs[k := y]) = Some k"
proof (induction xs arbitrary: k)
  case Nil
  then show ?case by simp
next
  case (Cons x xs)
  then show ?case by (cases k) (auto split: if_splits)
qed

lemma findIndex_append_new:
  "findIndex P xs = None \<Longrightarrow> P y \<Longrightarrow> findIndex P (xs @ [y]) = Some (length xs)"
  by (induction xs) (auto split: if_splits)

lemma same_pair_iff: "same_pair c completion \<longleftrightarrow> pair_of c = pair_of completion"
  by (simp add: same_pair_def pair_of_def)

lemma pair_of_merge [simp]: "pair_of (merge_completion e completion) = pair_of completion"
  by (simp add: pair_of_def merge_completion_def)

lemma pair_of_new [simp]: "pair_of (new_completion now new_id completion) = pair_of completion"
  by (simp add: pair_of_def new_completion_def)

lemma merge_merge [simp]:
  "merge_completion (merge_completion e completion) completion = merge_completion e completion"
  by (simp add: merge_completion_def)

lemma merge_new [simp]:
  "merge_completion (new_completion now new_id completion) completion
     = new_completion now new_id completion"
  by (simp add: merge_completion_def new_completion_def)

lemma ids_of_new [simp]:
  "completion_id (new_completion now new_id completion) = new_id"
  "c_created_at (new_completion now new_id completion) = now"
  by (simp_all add: new_completion_def)

lemma ids_of_merge [simp]:
  "completion_id (merge_completion e completion) = completion_id e"
  "c_created_at (merge_completion e completion) = c_created_at e"
  by (simp_all add: merge_completion_def)

lemma upsert_existing:
  assumes "findIndex (\<lambda>c. same_pair c completion) cs = Some k"
  shows "upsert_completion now new_id completion cs
           = (merge_completion (cs ! k) completion, cs[k := merge_completion (cs ! k) completion])"
    and "k < length cs" and "pair_of (cs ! k) = pair_of completion"
proof -
  show "upsert_completion now new_id completion cs
           = (merge_completion (cs ! k) completion, cs[k := merge_completion (cs ! k) completion])"
    using assms by (simp add: upsert_completion_def Let_def)
  show "k < length cs" "pair_of (cs ! k) = pair_of completion"
    using findIndex_Some_less[OF assms] by (simp_all add: same_pair_iff)
qed

lemma upsert_absent:
  assumes "findIndex (\<lambda>c. same_pair c completion) cs = None"
  shows "upsert_completion now new_id completion cs
           = (new_completion now new_id completion, cs @ [new_completion now new_id completion])"
    and "pair_of completion \<notin> pair_of ` set cs"
proof -
  show "upsert_completion now new_id completion cs
           = (new_completion now new_id completion, cs @ [new_completion now new_id completion])"
    using assms by (simp add: upsert_completion_def Let_def)
  have "\<forall>c \<in> set cs. \<not> same_pair c completion"
    using assms by (simp add: findIndex_None_iff)
  then show "pair_of completion \<notin> pair_of ` set cs"
    by (auto simp: same_pair_iff)
qed

lemma upsert_result:
  "pair_of (fst (upsert_completion now new_id completion cs)) = pair_of completion
   \<and> is_completed (fst (upsert_completion now new_id completion cs)) = is_completed completion
   \<and> completed_at (fst (upsert_completion now new_id completion cs)) = completed_at completion
   \<and> fst (upsert_completion now new_id completion cs)
       \<in> set (snd (upsert_completion now new_id completion cs))"
proof (cases "findIndex (\<lambda>c. same_pair c completion) cs")
  case None
  show ?thesis
    by (simp add: upsert_absent(1)[OF None] new_completion_def pair_of_def)
next
  case (Some k)
  show ?thesis
    using upsert_existing(2)[OF Some]
    by (simp add: upsert_existing(1)[OF Some] merge_completion_def pair_of_def
        set_update_memI)
qed

lemma upsert_distinct:
  assumes "distinct (map pair_of cs)"
  shows "distinct (map pair_of (snd (upsert_completion now new_id completion cs)))"
proof (cases "findIndex (\<lambda>c. same_pair c completion) cs")
  case None
  show ?thesis
    using assms upsert_absent(2)[OF None] by (simp add: upsert_absent(1)[OF None])
next
  case (Some k)
  have "map pair_of (cs[k := merge_completion (cs ! k) completion]) = map pair_of cs"
    using upsert_existing(2,3)[OF Some]
    by (simp add: map_update list_update_same_conv)
  then show ?thesis
    using assms by (simp add: upsert_existing(1)[OF Some])
qed

lemma length_filter_key_distinct:
  "distinct (map f xs) \<Longrightarrow> x \<in> set xs \<Longrightarrow> length (filter (\<lambda>y. f y = f x) xs) = 1"
proof (induction xs)
  case Nil
  then show ?case by simp
next
  case (Cons a xs)
  show ?case
  proof (cases "a = x")
    case True
    have "f x \<notin> f ` set xs"
      using Cons.prems(1) True by simp
    then have "\<forall>y \<in> set xs. f y \<noteq> f x"
      by (metis imageI)
    then have "filter (\<lambda>y. f y = f x) xs = []"
      by (simp add: filter_empty_conv)
    then show ?thesis using True by simp
  next
    case False
    then have "x \<in> set xs" using Cons.prems(2) by simp
    moreover have "f a \<noteq> f x" using Cons.prems(1) \<open>x \<in> set xs\<close> by auto
    ultimately show ?thesis using Cons by simp
  qed
qed

lemma upsert_idempotent:
  "upsert_completion now2 new_id2 completion (snd (upsert_completion now new_id completion cs))
     = upsert_completion now new_id completion cs"
proof (cases "findIndex (\<lambda>c. same_pair c completion) cs")
  case None
  let ?u = "new_completion now new_id completion"
  have "same_pair ?u completion" by (simp add: same_pair_iff)
  then have found: "findIndex (\<lambda>c. same_pair c completion) (cs @ [?u]) = Some (length cs)"
    using findIndex_append_new[OF None] by simp
  show ?thesis
    unfolding upsert_absent(1)[OF None] snd_conv
    using upsert_existing(1)[OF found, of now2 new_id2] by simp
next
  case (Some k)
  let ?u = "merge_completion (cs ! k) completion"
  have k: "k < length cs" using upsert_existing(2)[OF Some] .
  have "same_pair ?u completion" by (simp add: same_pair_iff)
  then have found: "findIndex (\<lambda>c. same_pair c completion) (cs[k := ?u]) = Some k"
    using findIndex_update_same[OF Some] by simp
  show ?thesis
    unfolding upsert_existing(1)[OF Some] snd_conv
    using upsert_existing(1)[OF found, of now2 new_id2] k by simp
qed

lemma getDailyCompletions_flags:
  "get_fails (snd (getDailyCompletions now d s)) = get_fails s
   \<and> set_fails (snd (getDailyCompletions now d s)) = set_fails s"
  by (simp add: getDailyCompletions_def clearAllData_def split: option.splits)

lemma saveDailyCompletions_ok:
  assumes "\<not> get_fails s" "\<not> set_fails s"
  shows "\<exists>s2. saveDailyCompletions now cs s = (Inr (), s2)
            \<and> goal_completions_item s2 = Some cs \<and> expiry_item s2 \<noteq> None
            \<and> \<not> get_fails s2 \<and> \<not> set_fails s2"
  using assms
  by (auto simp: saveDailyCompletions_def stamp_expiry_def setExpiryDate_def Let_def
      split: option.splits)

lemma updateGoalCompletion_again:
  assumes "goal_completions_item s2 = Some cs'" "expiry_item s2 \<noteq> None"
    "\<not> get_fails s2" "\<not> set_fails s2" "\<not> isDataExpired now2 s2"
    "upsert_completion now2 new_id2 completion cs' = (r, cs')"
  shows "updateGoalCompletion now2 new_id2 completion s2 = (Inr r, s2)"
proof -
  have g: "getDailyCompletions now2 None s2 = (cs', s2)"
    using assms by (simp add: getDailyCompletions_def)
  have same: "s2\<lparr>goal_completions_item := Some cs'\<rparr> = s2"
    using assms(1) by (cases s2) simp
  have "saveDailyCompletions now2 cs' s2 = (Inr (), s2)"
    using assms(2,3,4) same
    by (auto simp: saveDailyCompletions_def stamp_expiry_def Let_def split: option.splits)
  then show ?thesis
    using g assms(6) by (simp add: updateGoalCompletion_def)
qed

text \<open>
  C6. With a working persistence layer \<open>updateGoalCompletion\<close> is an upsert on the pair
  (template, date): it returns a record for the pair carrying the requested completion
  state; when the collection read holds a record for the pair, that record is replaced in
  place (same position, same id and creation time, same length), otherwise one record is
  appended. A collection with at most one record per pair keeps that property and then
  holds exactly one record for the pair. A second call with the same completion (on a
  store that has not expired meanwhile) returns the same record and leaves the store as
  it is.
\<close>

theorem updateGoalCompletion_is_upsert:
  assumes "\<not> get_fails s" and "\<not> set_fails s"
  shows "\<exists>r cs'.
          fst (updateGoalCompletion now new_id completion s) = Inr r
        \<and> goal_completions_item (snd (updateGoalCompletion now new_id completion s)) = Some cs'
        \<and> r \<in> set cs' \<and> pair_of r = pair_of completion
        \<and> is_completed r = is_completed completion
        \<and> (case findIndex (\<lambda>c. pair_of c = pair_of completion)
                  (fst (getDailyCompletions now None s)) of
              Some k \<Rightarrow> cs' = (fst (getDailyCompletions now None s))[k := r]
                        \<and> k < length (fst (getDailyCompletions now None s))
                        \<and> completion_id r = completion_id (fst (getDailyCompletions now None s) ! k)
                        \<and> c_created_at r = c_created_at (fst (getDailyCompletions now None s) ! k)
            | None \<Rightarrow> cs' = fst (getDailyCompletions now None s) @ [r]
                        \<and> completion_id r = new_id)
        \<and> (distinct (map pair_of (fst (getDailyCompletions now None s)))
             \<longrightarrow> distinct (map pair_of cs')
                 \<and> length (filter (\<lambda>c. pair_of c = pair_of completion) cs') = 1)
        \<and> (\<forall>now2 new_id2.
              \<not> isDataExpired now2 (snd (updateGoalCompletion now new_id completion s))
              \<longrightarrow> updateGoalCompletion now2 new_id2 completion
                    (snd (updateGoalCompletion now new_id completion s))
                  = (Inr r, snd (updateGoalCompletion now new_id completion s)))"
proof -
  obtain cs s1 where g: "getDailyCompletions now None s = (cs, s1)"
    by (cases "getDailyCompletions now None s")
  obtain r cs' where u: "upsert_completion now new_id completion cs = (r, cs')"
    by (cases "upsert_completion now new_id completion cs")
  have flags: "\<not> get_fails s1" "\<not> set_fails s1"
    using getDailyCompletions_flags[of now None s] g assms by simp_all
  obtain s2 where sv: "saveDailyCompletions now cs' s1 = (Inr (), s2)"
    and item: "goal_completions_item s2 = Some cs'" and stamped: "expiry_item s2 \<noteq> None"
    and flags2: "\<not> get_fails s2" "\<not> set_fails s2"
    using saveDailyCompletions_ok[OF flags, of now cs'] by blast
  have res: "updateGoalCompletion now new_id completion s = (Inr r, s2)"
    using g u sv by (simp add: updateGoalCompletion_def)
  have props: "pair_of r = pair_of completion" "is_completed r = is_completed completion"
    "r \<in> set cs'"
    using upsert_result[of now new_id completion cs] u by simp_all
  have fi: "(\<lambda>c. pair_of c = pair_of completion) = (\<lambda>c::DailyGoalCompletion. same_pair c completion)"
    by (simp add: same_pair_iff)
  have shape: "case findIndex (\<lambda>c. pair_of c = pair_of completion) cs of
              Some k \<Rightarrow> cs' = cs[k := r] \<and> k < length cs
                        \<and> completion_id r = completion_id (cs ! k)
                        \<and> c_created_at r = c_created_at (cs ! k)
            | None \<Rightarrow> cs' = cs @ [r] \<and> completion_id r = new_id"
  proof (cases "findIndex (\<lambda>c. same_pair c completion) cs")
    case None
    have "r = new_completion now new_id completion" "cs' = cs @ [r]"
      using u upsert_absent(1)[OF None, of now new_id] by auto
    then show ?thesis using None by (simp add: fi)
  next
    case (Some k)
    have "r = merge_completion (cs ! k) completion" "cs' = cs[k := r]"
      using u upsert_existing(1)[OF Some, of now new_id] by auto
    then show ?thesis using Some upsert_existing(2)[OF Some] by (simp add: fi)
  qed
  have inv: "distinct (map pair_of cs) \<longrightarrow> distinct (map pair_of cs')
                 \<and> length (filter (\<lambda>c. pair_of c = pair_of completion) cs') = 1"
  proof
    assume d: "distinct (map pair_of cs)"
    have d': "distinct (map pair_of cs')"
      using upsert_distinct[OF d, of now new_id completion] u by simp
    have "length (filter (\<lambda>c. pair_of c = pair_of r) cs') = 1"
      using length_filter_key_distinct[OF d' props(3)] .
    then show "distinct (map pair_of cs')
                 \<and> length (filter (\<lambda>c. pair_of c = pair_of completion) cs') = 1"
      using d' props(1) by simp
  qed
  have again: "\<forall>now2 new_id2. \<not> isDataExpired now2 s2
              \<longrightarrow> updateGoalCompletion now2 new_id2 completion s2 = (Inr r, s2)"
  proof (intro allI impI)
    fix now2 new_id2
    assume ne: "\<not> isDataExpired now2 s2"
    have "upsert_completion now2 new_id2 completion cs' = (r, cs')"
      using upsert_idempotent[of now2 new_id2 completion now new_id cs] u by simp
    then show "updateGoalCompletion now2 new_id2 completion s2 = (Inr r, s2)"
      using updateGoalCompletion_again[OF item stamped flags2 ne] by simp
  qed
  have gl: "fst (getDailyCompletions now None s) = cs"
    using g by simp
  show ?thesis
    unfolding gl res fst_conv snd_conv
    using item props shape inv again by (intro exI[of _ r] exI[of _ cs']) simp
qed

theorem updateGoalCompletion_is_upsert_witness:
  "\<not> get_fails sample_store \<and> \<not> set_fails sample_store
   \<and> (\<exists>r cs'. fst (updateGoalCompletion 2000 ''c1'' sample_completion sample_store) = Inr r
         \<and> goal_completions_item
              (snd (updateGoalCompletion 2000 ''c1'' sample_completion sample_store)) = Some cs'
         \<and> pair_of r = pair_of sample_completion
         \<and> length (filter (\<lambda>c. pair_of c = pair_of sample_completion) cs') = 1
         \<and> updateGoalCompletion 2500 ''c2'' sample_completion
              (snd (updateGoalCompletion 2000 ''c1'' sample_completion sample_store))
             = (Inr r, snd (updateGoalCompletion 2000 ''c1'' sample_completion sample_store)))"
proof -
  have a: "\<not> get_fails sample_store" and b: "\<not> set_fails sample_store"
    by (simp_all add: sample_store_def)
  have rd: "fst (getDailyCompletions 2000 None sample_store) = []"
    by (simp add: getDailyCompletions_def isDataExpired_def sample_store_def)
  have d: "distinct (map pair_of (fst (getDailyCompletions 2000 None sample_store)))"
    by (simp add: rd)
  have ne: "\<not> isDataExpired 2500
              (snd (updateGoalCompletion 2000 ''c1'' sample_completion sample_store))"
    by (simp add: updateGoalCompletion_def getDailyCompletions_def upsert_completion_def
        saveDailyCompletions_def stamp_expiry_def isDataExpired_def sample_store_def Let_def)
  from updateGoalCompletion_is_upsert[OF a b, of 2000 "''c1''" sample_completion] d ne
  have "\<exists>r cs'. fst (updateGoalCompletion 2000 ''c1'' sample_completion sample_store) = Inr r
         \<and> goal_completions_item
              (snd (updateGoalCompletion 2000 ''c1'' sample_completion sample_store)) = Some cs'
         \<and> pair_of r = pair_of sample_completion
         \<and> length (filter (\<lambda>c. pair_of c = pair_of sample_completion) cs') = 1
         \<and> updateGoalCompletion 2500 ''c2'' sample_completion
              (snd (updateGoalCompletion 2000 ''c1'' sample_completion sample_store))
             = (Inr r, snd (updateGoalCompletion 2000 ''c1'' sample_completion sample_store))"
    by blast
  with a b show ?thesis by blast
qed

subsection \<open>The report generator\<close>

lemma find_None_list_ex: "find P xs = None \<longleftrightarrow> \<not> list_ex P xs"
  by (induction xs) auto

lemma stats_loop_counts:
  "i \<le> 7 \<Longrightarrow>
   fst (stats_loop zone template start cs i (t, tc))
     = t + length (filter (\<lambda>k. day_of_week template
                  = (if getDay zone (setDate_plus zone start k) = 0 then 7
                     else getDay zone (setDate_plus zone start k))) [i..<7])
   \<and> length (snd (stats_loop zone template start cs i (t, tc)))
     = length tc + length (filter (\<lambda>k. day_of_week template
                  = (if getDay zone (setDate_plus zone start k) = 0 then 7
                     else getDay zone (setDate_plus zone start k))
                  \<and> list_ex (\<lambda>c. goal_template_id c = template_id template
                         \<and> completion_date c = formatDateToString (setDate_plus zone start k)
                         \<and> is_completed c) cs) [i..<7])"
proof (induction "7 - i" arbitrary: i t tc)
  case 0
  then have "i = 7" by simp
  then show ?case by (simp add: stats_loop.simps)
next
  case (Suc n)
  then have True: "i < 7" and le: "i + 1 \<le> 7" and n: "n = 7 - (i + 1)"
    by simp_all
  have upt: "[i..<7] = i # [Suc i..<7]"
    using True by (simp add: upt_conv_Cons)
  note IH = Suc.hyps(1)[OF n le]
  let ?check = "setDate_plus zone start i"
  let ?dow = "if getDay zone ?check = 0 then 7 else getDay zone ?check"
  let ?P = "\<lambda>c. goal_template_id c = template_id template
             \<and> completion_date c = formatDateToString ?check \<and> is_completed c"
  show ?case
  proof (cases "day_of_week template = ?dow")
    case nomatch: False
    have step: "stats_loop zone template start cs i (t, tc)
          = stats_loop zone template start cs (i + 1) (t, tc)"
      using True nomatch
      by (subst stats_loop.simps) (simp add: Let_def)
    show ?thesis
      unfolding step upt
      using IH[of t tc] nomatch by simp
  next
    case match: True
    show ?thesis
    proof (cases "find ?P cs")
      case None
      have step: "stats_loop zone template start cs i (t, tc)
            = stats_loop zone template start cs (i + 1) (t + 1, tc)"
        using True match None
        by (subst stats_loop.simps) (simp add: Let_def)
      have "\<not> list_ex ?P cs" using None by (simp add: find_None_list_ex)
      then show ?thesis
        unfolding step upt
        using IH[of "t + 1" tc] match by simp
    next
      case (Some completion)
      have step: "stats_loop zone template start cs i (t, tc)
            = stats_loop zone template start cs (i + 1) (t + 1, tc @ [completion])"
        using True match Some
        by (subst stats_loop.simps) (simp add: Let_def)
      have "list_ex ?P cs" using Some find_None_list_ex[of ?P cs] by simp
      then show ?thesis
        unfolding step upt
        using IH[of "t + 1" "tc @ [completion]"] match by simp
    qed
  qed
qed

lemma local_day_east_of_utc:
  assumes "0 \<le> tz" "tz < 1440"
  shows "(d * MS_PER_DAY + int k * MS_PER_DAY + tz * 60000) div MS_PER_DAY = d + int k"
proof -
  have r: "0 \<le> tz * 60000" "tz * 60000 < MS_PER_DAY"
    using assms by (simp_all add: MS_PER_DAY_def)
  have "d * MS_PER_DAY + int k * MS_PER_DAY + tz * 60000
          = tz * 60000 + (d + int k) * MS_PER_DAY"
    by (simp add: algebra_simps)
  then have "(d * MS_PER_DAY + int k * MS_PER_DAY + tz * 60000) div MS_PER_DAY
          = (tz * 60000) div MS_PER_DAY + (d + int k)"
    by (simp add: MS_PER_DAY_def)
  then show ?thesis using r by simp
qed

lemma utc_day:
  "(d * MS_PER_DAY + int k * MS_PER_DAY) = (d + int k) * MS_PER_DAY"
  by (simp add: algebra_simps)

lemma fixed_zone_setDate: "setDate_plus (fixed_zone tz) start k = start + int k * MS_PER_DAY"
  by (simp add: setDate_plus_def UTC_of_local_def LocalTime_def fixed_zone_def)

lemma fixed_zone_getDay:
  "getDay (fixed_zone tz) ms = ((ms + tz * 60000) div MS_PER_DAY + 4) mod 7"
  by (simp add: getDay_def LocalTime_def fixed_zone_def)

text \<open>
  Where the device's clock is at a fixed offset at or east of UTC (from 0 up to, not
  including, 24 hours) \<open>calculateGoalStats\<close> computes the counts the specification words:
  the days of the week with the template's weekday, those of them with a completed
  completion, and their ratio.
\<close>

lemma calculateGoalStats_east_of_utc:
  assumes "Date_parse weekStartDate = Some (d * MS_PER_DAY)" and "0 \<le> tz" and "tz < 1440"
  shows "calculateGoalStats (fixed_zone tz) template weekStartDate cs =
           Inr \<lparr>gs_template_id = template_id template,
                gs_title = title template,
                completions = spec_completions template cs d,
                total_days = spec_total_days template d,
                completion_rate = calculateCompletionRate (spec_completions template cs d)
                                    (spec_total_days template d)\<rparr>"
proof -
  obtain total tc where loop:
    "stats_loop (fixed_zone tz) template (d * MS_PER_DAY) cs 0 (0, []) = (total, tc)"
    by (cases "stats_loop (fixed_zone tz) template (d * MS_PER_DAY) cs 0 (0, [])")
  have day: "\<And>k. getDay (fixed_zone tz) (setDate_plus (fixed_zone tz) (d * MS_PER_DAY) k)
                 = (d + int k + 4) mod 7"
    using local_day_east_of_utc[OF assms(2,3)]
    by (simp add: fixed_zone_getDay fixed_zone_setDate add.assoc)
  have fmt: "\<And>k. formatDateToString (setDate_plus (fixed_zone tz) (d * MS_PER_DAY) k)
                 = format_day (d + int k)"
    by (simp add: format_day_def utc_day fixed_zone_setDate)
  have counts: "total = length (filter (\<lambda>k. day_of_week template = iso_weekday (d + int k)) [0..<7])"
    "length tc = length (filter (\<lambda>k. day_of_week template = iso_weekday (d + int k)
                            \<and> has_completed template cs (d + int k)) [0..<7])"
    using stats_loop_counts[of 0 "fixed_zone tz" template "d * MS_PER_DAY" cs 0 "[]"] loop
    by (simp_all add: day fmt iso_weekday_def has_completed_def)
  have t: "total = spec_total_days template d"
    unfolding counts(1) spec_total_days_def week_days_def filter_map length_map
    by (rule arg_cong[where f = length], rule filter_cong) (auto simp: o_def)
  have c: "length tc = spec_completions template cs d"
    unfolding counts(2) spec_completions_def week_days_def filter_map length_map
    by (rule arg_cong[where f = length], rule filter_cong) (auto simp: o_def)
  show ?thesis
    using assms(1) loop t c by (simp add: calculateGoalStats_def)
qed

text \<open>The specification's example, on a device whose clock is UTC.\<close>

lemma calculateGoalStats_example_utc:
  "calculateGoalStats (fixed_zone 0) sample_template ''2024-01-01'' [sample_done]
     = Inr \<lparr>gs_template_id = ''t1'', gs_title = ''run'', completions = 1, total_days = 1,
            completion_rate = 1\<rparr>
   \<and> calculateGoalStats (fixed_zone 0) sample_template ''2024-01-01'' []
     = Inr \<lparr>gs_template_id = ''t1'', gs_title = ''run'', completions = 0, total_days = 1,
            completion_rate = 0\<rparr>"
  by code_simp

text \<open>
  C7. The specification's example on a device five hours west of UTC (offset -300
  minutes): \<^verbatim>\<open>new Date('2024-01-01')\<close> is Sunday evening in local time, so the template's
  Monday is met at \<open>i = 1\<close>, where \<^verbatim>\<open>toISOString\<close> names 2024-01-02. The completed
  completion recorded for 2024-01-01 is not found: \<open>total_days\<close> is 1 but \<open>completions\<close> is
  0 and \<open>completion_rate\<close> is 0, where the specification gives 1 and 1.0.
\<close>

theorem calculateGoalStats_west_of_utc_misses_completion:
  "calculateGoalStats (fixed_zone (-300)) sample_template ''2024-01-01'' [sample_done]
     = Inr \<lparr>gs_template_id = ''t1'', gs_title = ''run'', completions = 0, total_days = 1,
            completion_rate = 0\<rparr>"
  by code_simp

lemma spec_counts_example:
  "spec_total_days sample_template 19723 = 1
   \<and> spec_completions sample_template [sample_done] 19723 = 1
   \<and> spec_completions sample_template [] 19723 = 0
   \<and> iso_weekday 19723 = 1"
  by code_simp

text \<open>
  The same happens east of UTC across a change to daylight saving time. In a zone that
  goes from UTC+2 to UTC+3 at 2024-03-29 00:00 UTC, the week of 2024-03-25 starts at 02:00
  local time; the Saturday is met at \<open>i = 5\<close>, at 02:00 local time of 2024-03-30, which is
  23:00 UTC of the day before: the completed completion recorded for 2024-03-30 is looked
  up under 2024-03-29 and not found.
\<close>

lemma calculateGoalStats_daylight_saving_misses_completion:
  "calculateGoalStats spring_forward_zone saturday_template ''2024-03-25'' [saturday_done]
     = Inr \<lparr>gs_template_id = ''t1'', gs_title = ''run'', completions = 0, total_days = 1,
            completion_rate = 0\<rparr>
   \<and> calculateGoalStats (fixed_zone 120) saturday_template ''2024-03-25'' [saturday_done]
     = Inr \<lparr>gs_template_id = ''t1'', gs_title = ''run'', completions = 1, total_days = 1,
            completion_rate = 1\<rparr>"
  by code_simp

subsection \<open>Identity switches and the Local Store\<close>

lemma signOut_keeps_store: "store_of (signOut now response (a, s, r)) = s"
  by (simp add: signOut_def store_of_def Let_def split: prod.splits sum.splits)

text \<open>
  C5 (as the code has it). A sign-in that the backend accepts (for a user whose email is
  confirmed) and a sign-up that it accepts (confirmed or not) run \<open>clearAllData\<close> on the
  Local Store (sign-in then sets the authenticated user, sign-up sets none); where the
  persistence layer accepts the removal, the four collections and the expiry stamp are
  absent afterwards. A sign-in the backend rejects leaves the store as it was. A sign-out
  never touches the Local Store.
\<close>

theorem signIn_signUp_clear_signOut_keeps:
  assumes "configured r"
  shows "(email_confirmed_at supabaseUser \<noteq> None \<longrightarrow>
            fst (signIn (Answered (Some supabaseUser)) (a, s, r)) = Inr ()
          \<and> store_of (signIn (Answered (Some supabaseUser)) (a, s, r)) = clearAllData s
          \<and> auth_user (hook_of (signIn (Answered (Some supabaseUser)) (a, s, r)))
              = Some (convertSupabaseUser supabaseUser))
       \<and> fst (signUp (Answered (Some supabaseUser)) (a, s, r)) = Inr ()
       \<and> store_of (signUp (Answered (Some supabaseUser)) (a, s, r)) = clearAllData s
       \<and> auth_user (hook_of (signUp (Answered (Some supabaseUser)) (a, s, r))) = auth_user a
       \<and> (\<not> remove_fails s \<longrightarrow>
            expenses_item (clearAllData s) = None \<and> goal_templates_item (clearAllData s) = None
            \<and> goal_completions_item (clearAllData s) = None
            \<and> weekly_reports_item (clearAllData s) = None \<and> expiry_item (clearAllData s) = None)
       \<and> store_of (signIn (Rejected m) (a, s, r)) = s
       \<and> store_of (signOut now response (a, s, r)) = s"
proof -
  have si: "signIn (Answered (Some supabaseUser)) (a, s, r)
        = (Inr (),
           a\<lparr>auth_loading := True, auth_error := None,
             auth_user := Some (convertSupabaseUser supabaseUser), forceAuthScreen := False,
             auth_loading := False\<rparr>,
           clearAllData s,
           r\<lparr>currentUser := Some (convertSupabaseUser supabaseUser),
             session_user := Some (convertSupabaseUser supabaseUser)\<rparr>)"
    if "email_confirmed_at supabaseUser \<noteq> None"
    using assms that by (simp add: signIn_def supabase_signIn_def Let_def)
  have su: "signUp (Answered (Some supabaseUser)) (a, s, r)
        = (Inr (),
           a\<lparr>auth_loading := True, auth_error := None, forceAuthScreen := False,
             auth_loading := False\<rparr>,
           clearAllData s, r)"
    using assms by (simp add: signUp_def supabase_signUp_def Let_def)
  have rej: "store_of (signIn (Rejected m) (a, s, r)) = s"
    using assms by (simp add: signIn_def supabase_signIn_def Let_def store_of_def)
  have keys: "\<not> remove_fails s \<longrightarrow>
            expenses_item (clearAllData s) = None \<and> goal_templates_item (clearAllData s) = None
            \<and> goal_completions_item (clearAllData s) = None
            \<and> weekly_reports_item (clearAllData s) = None \<and> expiry_item (clearAllData s) = None"
    using clearAllData_keys[of s] by blast
  have sin: "email_confirmed_at supabaseUser \<noteq> None \<longrightarrow>
            fst (signIn (Answered (Some supabaseUser)) (a, s, r)) = Inr ()
          \<and> store_of (signIn (Answered (Some supabaseUser)) (a, s, r)) = clearAllData s
          \<and> auth_user (hook_of (signIn (Answered (Some supabaseUser)) (a, s, r)))
              = Some (convertSupabaseUser supabaseUser)"
    using si by (simp add: store_of_def hook_of_def)
  have sup: "fst (signUp (Answered (Some supabaseUser)) (a, s, r)) = Inr ()
       \<and> store_of (signUp (Answered (Some supabaseUser)) (a, s, r)) = clearAllData s
       \<and> auth_user (hook_of (signUp (Answered (Some supabaseUser)) (a, s, r))) = auth_user a"
    by (simp add: su store_of_def hook_of_def)
  show ?thesis
    using sin sup keys rej signOut_keeps_store[of now response a s r] by blast
qed

theorem signIn_signUp_clear_signOut_keeps_witness:
  "configured sample_remote \<and> email_confirmed_at sample_backend_user \<noteq> None
   \<and> fst (signIn (Answered (Some sample_backend_user))
             (signed_out_hook, sample_store, sample_remote)) = Inr ()
   \<and> expenses_item (store_of (signIn (Answered (Some sample_backend_user))
             (signed_out_hook, sample_store, sample_remote))) = None
   \<and> expiry_item (store_of (signIn (Answered (Some sample_backend_user))
             (signed_out_hook, sample_store, sample_remote))) = None
   \<and> store_of (signOut 3000 None (signed_in_hook, sample_store, sample_remote)) = sample_store"
proof -
  have c: "configured sample_remote" by (simp add: sample_remote_def)
  have e: "email_confirmed_at sample_backend_user \<noteq> None"
    by (simp add: sample_backend_user_def)
  have nr: "\<not> remove_fails sample_store" by (simp add: sample_store_def)
  note t = signIn_signUp_clear_signOut_keeps[OF c,
      where supabaseUser = sample_backend_user and a = signed_out_hook and s = sample_store]
  note t2 = signIn_signUp_clear_signOut_keeps[OF c,
      where a = signed_in_hook and s = sample_store and now = 3000 and response = None]
  from t e nr have "expenses_item (store_of (signIn (Answered (Some sample_backend_user))
             (signed_out_hook, sample_store, sample_remote))) = None"
    "expiry_item (store_of (signIn (Answered (Some sample_backend_user))
             (signed_out_hook, sample_store, sample_remote))) = None"
    "fst (signIn (Answered (Some sample_backend_user))
             (signed_out_hook, sample_store, sample_remote)) = Inr ()"
    by simp_all
  moreover from t2 have
    "store_of (signOut 3000 None (signed_in_hook, sample_store, sample_remote)) = sample_store"
    by simp
  ultimately show ?thesis using c e by simp
qed

text \<open>
  The claim as the specification words it fails for sign-out: signing out of an
  authenticated session over a Local Store that holds an expense and an expiry stamp
  succeeds, makes the user a guest, and leaves both in the store.
\<close>

theorem signOut_does_not_clear_counterexample:
  "fst (signOut 3000 None (signed_in_hook, sample_store, sample_remote)) = Inr ()
   \<and> isGuest (the (auth_user (hook_of (signOut 3000 None (signed_in_hook, sample_store, sample_remote)))))
   \<and> expenses_item (store_of (signOut 3000 None (signed_in_hook, sample_store, sample_remote)))
       = Some [sample_expense]
   \<and> expiry_item (store_of (signOut 3000 None (signed_in_hook, sample_store, sample_remote)))
       = Some 5000"
  by (simp add: signOut_def supabase_signOut_def isAuthenticated_def signed_in_hook_def
      sample_user_def store_of_def hook_of_def createGuestUser_def sample_store_def Let_def)

subsection \<open>Single-entity writes when the Remote Store fails\<close>

lemma addExpense_returns:
  "fst (addExpense now new_id expense s) = Inr (expense\<lparr>expense_id := new_id, created_at := now\<rparr>)"
  by (simp add: addExpense_def Let_def split: prod.splits)

lemma deleteExpense_returns: "fst (deleteExpense now i s) = Inr ()"
  by (simp add: deleteExpense_def Let_def split: prod.splits)

lemma updateExpense_present:
  assumes "i \<in> expense_id ` set (fst (getExpenses now s))"
  shows "\<exists>u. fst (updateExpense now i updates s) = Inr u"
proof -
  obtain xs s1 where g: "getExpenses now s = (xs, s1)"
    by (cases "getExpenses now s")
  with assms have "\<not> (\<forall>x \<in> set xs. expense_id x \<noteq> i)" by auto
  then have "findIndex (\<lambda>e. expense_id e = i) xs \<noteq> None"
    using findIndex_None_iff[of "\<lambda>e. expense_id e = i" xs] by blast
  then show ?thesis
    using g by (auto simp: updateExpense_def Let_def)
qed

lemma updateExpense_absent:
  assumes "i \<notin> expense_id ` set (fst (getExpenses now s))"
  shows "updateExpense now i updates s = (Inl (Error ''Expense not found''), snd (getExpenses now s))"
proof -
  obtain xs s1 where g: "getExpenses now s = (xs, s1)"
    by (cases "getExpenses now s")
  with assms have "findIndex (\<lambda>e. expense_id e = i) xs = None"
    by (auto simp: findIndex_None_iff)
  then show ?thesis
    using g by (simp add: updateExpense_def)
qed

lemma add_fallback:
  assumes "uses_remote a"
    and "supabase_addExpense now server_id (fields_only f) r = (Inl e, r1)"
    and "addExpense now local_id (fields_only f) s = (Inr saved, s1)"
  shows "fst (useExpenses_addExpense now server_id local_id a f (h, s, r)) = Inr saved"
    and "store_of (useExpenses_addExpense now server_id local_id a f (h, s, r)) = s1"
    and "syncStatus (hook_of (useExpenses_addExpense now server_id local_id a f (h, s, r)))
           = (syncStatus h)\<lparr>pending_changes := pending_changes (syncStatus h) + 1,
                error := Some sync_failed_message, sync_in_progress := False\<rparr>"
  using assms
  by (simp_all add: useExpenses_addExpense_def Let_def set_status_def store_of_def hook_of_def)

lemma delete_fallback:
  assumes "uses_remote a"
    and "supabase_deleteExpense i r = (Inl e, r1)"
    and "deleteExpense now i s = (Inr (), s1)"
  shows "fst (useExpenses_deleteExpense now a i (h, s, r)) = Inr ()"
    and "store_of (useExpenses_deleteExpense now a i (h, s, r)) = s1"
    and "syncStatus (hook_of (useExpenses_deleteExpense now a i (h, s, r)))
           = (syncStatus h)\<lparr>pending_changes := pending_changes (syncStatus h) + 1,
                error := Some sync_failed_message, sync_in_progress := False\<rparr>"
  using assms
  by (simp_all add: useExpenses_deleteExpense_def Let_def set_status_def store_of_def hook_of_def)

lemma update_fallback:
  assumes "uses_remote a"
    and "supabase_updateExpense now i updates r = (Inl e, r1)"
    and "updateExpense now i updates s = (Inr u, s1)"
  shows "fst (useExpenses_updateExpense now a i updates (h, s, r)) = Inr u"
    and "store_of (useExpenses_updateExpense now a i updates (h, s, r)) = s1"
    and "syncStatus (hook_of (useExpenses_updateExpense now a i updates (h, s, r)))
           = (syncStatus h)\<lparr>pending_changes := pending_changes (syncStatus h) + 1,
                error := Some sync_failed_message, sync_in_progress := False\<rparr>"
  using assms
  by (simp_all add: useExpenses_updateExpense_def Let_def set_status_def store_of_def hook_of_def)

lemma loadExpenses_pending:
  "pending_changes (syncStatus (fst (loadExpenses now a (h, s, r)))) = pending_changes (syncStatus h)"
  by (simp add: loadExpenses_def Let_def set_status_def split: prod.splits sum.splits)

lemma update_fallback_fails:
  assumes "uses_remote a"
    and "supabase_updateExpense now i updates r = (Inl e, r1)"
    and "updateExpense now i updates s = (Inl err, s1)"
  shows "fst (useExpenses_updateExpense now a i updates (h, s, r)) = Inl (handleAsyncError err)"
    and "pending_changes (syncStatus (hook_of (useExpenses_updateExpense now a i updates (h, s, r))))
           = pending_changes (syncStatus h)"
proof -
  let ?h3 = "set_status (\<lambda>prev. prev\<lparr>sync_in_progress := True\<rparr>)
               (h\<lparr>hook_error := None,
                  expenses := map (\<lambda>exp. if expense_id exp = i
                                  then (apply_updates exp updates)\<lparr>updated_at := Some now\<rparr>
                                  else exp) (expenses h)\<rparr>)"
  obtain h4 s4 r4 where l: "loadExpenses now a (?h3, s1, r1) = (h4, s4, r4)"
    by (cases "loadExpenses now a (?h3, s1, r1)")
  have out: "useExpenses_updateExpense now a i updates (h, s, r)
          = (Inl (handleAsyncError err),
             set_status (\<lambda>prev. prev\<lparr>sync_in_progress := False\<rparr>)
               (h4\<lparr>hook_error := Some (message (handleAsyncError err))\<rparr>), s4, r4)"
    using assms l by (simp add: useExpenses_updateExpense_def Let_def)
  show "fst (useExpenses_updateExpense now a i updates (h, s, r)) = Inl (handleAsyncError err)"
    by (simp add: out)
  have "pending_changes (syncStatus h4) = pending_changes (syncStatus ?h3)"
    using loadExpenses_pending[of now a ?h3 s1 r1] l by simp
  then show "pending_changes (syncStatus (hook_of (useExpenses_updateExpense now a i updates (h, s, r))))
           = pending_changes (syncStatus h)"
    by (simp add: out hook_of_def set_status_def)
qed

subsubsection \<open>What a working Local Store holds after a write\<close>

lemma store_works_get: "store_works now s \<Longrightarrow> snd (getExpenses now s) = s"
  by (simp add: store_works_def getExpenses_def split: option.splits)

lemma store_works_save:
  "store_works now s \<Longrightarrow> fst (getExpenses now (saveExpenses now xs s)) = xs"
  by (auto simp: store_works_def saveExpenses_def stamp_expiry_def setExpiryDate_def
      isDataExpired_def getExpenses_def Let_def EXPIRY_DAYS_def MS_PER_DAY_def
      split: option.splits)

lemma read_after_add:
  assumes "store_works now s"
  shows "fst (getExpenses now (snd (addExpense now new_id e s)))
           = fst (getExpenses now s) @ [e\<lparr>expense_id := new_id, created_at := now\<rparr>]"
  using store_works_save[OF assms] store_works_get[OF assms]
  by (simp add: addExpense_def Let_def split_beta)

lemma read_after_delete:
  assumes "store_works now s"
  shows "fst (getExpenses now (snd (deleteExpense now i s)))
           = filter (\<lambda>e. expense_id e \<noteq> i) (fst (getExpenses now s))"
  using store_works_save[OF assms] store_works_get[OF assms]
  by (simp add: deleteExpense_def Let_def split_beta)

lemma updateExpense_found:
  assumes "findIndex (\<lambda>e. expense_id e = i) (fst (getExpenses now s)) = Some k"
  shows "updateExpense now i updates s
           = (Inr ((apply_updates (fst (getExpenses now s) ! k) updates)\<lparr>updated_at := Some now\<rparr>),
              saveExpenses now
                ((fst (getExpenses now s))
                   [k := (apply_updates (fst (getExpenses now s) ! k) updates)
                           \<lparr>updated_at := Some now\<rparr>])
                (snd (getExpenses now s)))"
  using assms by (simp add: updateExpense_def Let_def split_beta)

lemma read_after_update:
  assumes "store_works now s"
    and "findIndex (\<lambda>e. expense_id e = i) (fst (getExpenses now s)) = Some k"
  shows "fst (getExpenses now (snd (updateExpense now i updates s)))
           = (fst (getExpenses now s))
               [k := (apply_updates (fst (getExpenses now s) ! k) updates)
                       \<lparr>updated_at := Some now\<rparr>]"
  using store_works_save[OF assms(1)] store_works_get[OF assms(1)]
  by (simp add: updateExpense_found[OF assms(2)])

lemma read_after_read:
  "fst (getExpenses now (snd (getExpenses now s))) = fst (getExpenses now s)"
  by (simp add: getExpenses_def isDataExpired_def clearAllData_def split: option.splits)

subsubsection \<open>The hook's writes, by the store that takes them\<close>

lemma threw_Inl: "threw out \<Longrightarrow> \<exists>e r1. out = (Inl e, r1)"
  by (cases out; cases "fst out") (simp_all add: threw_def)

lemma add_fallback_memory:
  assumes "uses_remote a"
    and "supabase_addExpense now server_id (fields_only f) r = (Inl e, r1)"
    and "addExpense now local_id (fields_only f) s = (Inr saved, s1)"
  shows "expenses (hook_of (useExpenses_addExpense now server_id local_id a f (h, s, r)))
           = saved # map (\<lambda>exp. if expense_id exp = ''temp_'' @ show_int now then saved else exp)
                       (expenses h)"
  using assms
  by (simp add: useExpenses_addExpense_def Let_def set_status_def hook_of_def
      optimistic_expense_def)

lemma delete_fallback_memory:
  assumes "uses_remote a"
    and "supabase_deleteExpense i r = (Inl e, r1)"
    and "deleteExpense now i s = (Inr (), s1)"
  shows "expenses (hook_of (useExpenses_deleteExpense now a i (h, s, r)))
           = filter (\<lambda>exp. expense_id exp \<noteq> i) (expenses h)"
  using assms
  by (simp add: useExpenses_deleteExpense_def Let_def set_status_def hook_of_def)

text \<open>
  An update goes to the Local Store for a guest, and for an authenticated identity when
  the Remote Store update threw. What the hook then returns and shows follows from what
  the Local Store answers.
\<close>

lemma update_local_success:
  assumes "\<not> uses_remote a \<or> threw (supabase_updateExpense now i updates r)"
    and "updateExpense now i updates s = (Inr u, s1)"
  shows "fst (useExpenses_updateExpense now a i updates (h, s, r)) = Inr u"
    and "expenses (hook_of (useExpenses_updateExpense now a i updates (h, s, r)))
           = map (\<lambda>exp. if expense_id exp = i then u else exp)
               (map (\<lambda>exp. if expense_id exp = i
                           then (apply_updates exp updates)\<lparr>updated_at := Some now\<rparr>
                           else exp) (expenses h))"
    and "store_of (useExpenses_updateExpense now a i updates (h, s, r)) = s1"
proof -
  show "fst (useExpenses_updateExpense now a i updates (h, s, r)) = Inr u"
    and "expenses (hook_of (useExpenses_updateExpense now a i updates (h, s, r)))
           = map (\<lambda>exp. if expense_id exp = i then u else exp)
               (map (\<lambda>exp. if expense_id exp = i
                           then (apply_updates exp updates)\<lparr>updated_at := Some now\<rparr>
                           else exp) (expenses h))"
    and "store_of (useExpenses_updateExpense now a i updates (h, s, r)) = s1"
  proof (atomize (full), cases "uses_remote a")
    case False
    then show "fst (useExpenses_updateExpense now a i updates (h, s, r)) = Inr u
      \<and> expenses (hook_of (useExpenses_updateExpense now a i updates (h, s, r)))
           = map (\<lambda>exp. if expense_id exp = i then u else exp)
               (map (\<lambda>exp. if expense_id exp = i
                           then (apply_updates exp updates)\<lparr>updated_at := Some now\<rparr>
                           else exp) (expenses h))
      \<and> store_of (useExpenses_updateExpense now a i updates (h, s, r)) = s1"
      using assms(2)
      by (simp add: useExpenses_updateExpense_def Let_def hook_of_def store_of_def
          set_status_def)
  next
    case True
    then obtain e r1 where "supabase_updateExpense now i updates r = (Inl e, r1)"
      using assms(1) threw_Inl by blast
    then show "fst (useExpenses_updateExpense now a i updates (h, s, r)) = Inr u
      \<and> expenses (hook_of (useExpenses_updateExpense now a i updates (h, s, r)))
           = map (\<lambda>exp. if expense_id exp = i then u else exp)
               (map (\<lambda>exp. if expense_id exp = i
                           then (apply_updates exp updates)\<lparr>updated_at := Some now\<rparr>
                           else exp) (expenses h))
      \<and> store_of (useExpenses_updateExpense now a i updates (h, s, r)) = s1"
      using assms(2) True
      by (simp add: useExpenses_updateExpense_def Let_def hook_of_def store_of_def
          set_status_def)
  qed
qed

text \<open>The collection \<^verbatim>\<open>loadExpenses\<close> puts into memory.\<close>

lemma loadExpenses_expenses:
  "expenses (fst (loadExpenses now a (h, s, r)))
     = (if uses_remote a
        then (case fst (supabase_getExpenses r) of
                Inr rows \<Rightarrow> rows
              | Inl err \<Rightarrow> fst (getExpenses now s))
        else fst (getExpenses now s))"
  by (simp add: loadExpenses_def Let_def set_status_def split: prod.splits sum.splits)

lemma loadExpenses_store:
  "fst (getExpenses now (fst (snd (loadExpenses now a (h, s, r))))) = fst (getExpenses now s)"
  using read_after_read[of now s]
  by (auto simp: loadExpenses_def Let_def split: prod.splits sum.splits)

lemma update_local_failure:
  assumes "\<not> uses_remote a \<or> threw (supabase_updateExpense now i updates r)"
    and "updateExpense now i updates s = (Inl err, s1)"
  shows "fst (useExpenses_updateExpense now a i updates (h, s, r)) = Inl (handleAsyncError err)"
    and "hook_error (hook_of (useExpenses_updateExpense now a i updates (h, s, r)))
           = Some (message (handleAsyncError err))"
    and "expenses (hook_of (useExpenses_updateExpense now a i updates (h, s, r)))
           = (if uses_remote a
              then (case fst (supabase_getExpenses
                                (snd (supabase_updateExpense now i updates r))) of
                      Inr rows \<Rightarrow> rows
                    | Inl x \<Rightarrow> fst (getExpenses now s1))
              else fst (getExpenses now s1))"
    and "fst (getExpenses now (store_of (useExpenses_updateExpense now a i updates (h, s, r))))
           = fst (getExpenses now s1)"
    and "pending_changes (syncStatus (hook_of (useExpenses_updateExpense now a i updates (h, s, r))))
           = pending_changes (syncStatus h)"
proof -
  define r1 where "r1 = (if uses_remote a then snd (supabase_updateExpense now i updates r) else r)"
  define h3 where "h3 =
     (if uses_remote a
      then set_status (\<lambda>prev. prev\<lparr>sync_in_progress := True\<rparr>)
             (h\<lparr>hook_error := None,
                expenses := map (\<lambda>exp. if expense_id exp = i
                                then (apply_updates exp updates)\<lparr>updated_at := Some now\<rparr>
                                else exp) (expenses h)\<rparr>)
      else h\<lparr>hook_error := None,
             expenses := map (\<lambda>exp. if expense_id exp = i
                             then (apply_updates exp updates)\<lparr>updated_at := Some now\<rparr>
                             else exp) (expenses h)\<rparr>)"
  obtain h4 s4 r4 where l: "loadExpenses now a (h3, s1, r1) = (h4, s4, r4)"
    by (cases "loadExpenses now a (h3, s1, r1)")
  have out: "useExpenses_updateExpense now a i updates (h, s, r)
          = (Inl (handleAsyncError err),
             set_status (\<lambda>prev. prev\<lparr>sync_in_progress := False\<rparr>)
               (h4\<lparr>hook_error := Some (message (handleAsyncError err))\<rparr>), s4, r4)"
  proof (cases "uses_remote a")
    case False
    then show ?thesis
      using assms(2) l by (simp add: useExpenses_updateExpense_def Let_def r1_def h3_def)
  next
    case True
    then obtain e r' where rf: "supabase_updateExpense now i updates r = (Inl e, r')"
      using assms(1) threw_Inl by blast
    then show ?thesis
      using assms(2) l True by (simp add: useExpenses_updateExpense_def Let_def r1_def h3_def)
  qed
  show "fst (useExpenses_updateExpense now a i updates (h, s, r)) = Inl (handleAsyncError err)"
    by (simp add: out)
  show "hook_error (hook_of (useExpenses_updateExpense now a i updates (h, s, r)))
           = Some (message (handleAsyncError err))"
    by (simp add: out hook_of_def set_status_def)
  have "expenses h4 = expenses (fst (loadExpenses now a (h3, s1, r1)))" by (simp add: l)
  then show "expenses (hook_of (useExpenses_updateExpense now a i updates (h, s, r)))
           = (if uses_remote a
              then (case fst (supabase_getExpenses
                                (snd (supabase_updateExpense now i updates r))) of
                      Inr rows \<Rightarrow> rows
                    | Inl x \<Rightarrow> fst (getExpenses now s1))
              else fst (getExpenses now s1))"
    by (simp add: out hook_of_def set_status_def loadExpenses_expenses r1_def)
  have "s4 = fst (snd (loadExpenses now a (h3, s1, r1)))" by (simp add: l)
  then show "fst (getExpenses now (store_of (useExpenses_updateExpense now a i updates (h, s, r))))
           = fst (getExpenses now s1)"
    by (simp add: out store_of_def loadExpenses_store)
  have "pending_changes (syncStatus h4) = pending_changes (syncStatus h3)"
    using loadExpenses_pending[of now a h3 s1 r1] l by simp
  then show "pending_changes (syncStatus (hook_of (useExpenses_updateExpense now a i updates (h, s, r))))
           = pending_changes (syncStatus h)"
    by (simp add: out hook_of_def set_status_def h3_def)
qed

text \<open>
  C2 (as the code has it). While the identity is Authenticated, when the Remote Store
  mutation throws: an add and a delete are run on the Local Store instead, the caller
  receives success, \<open>pending_changes\<close> grows by one and the status error becomes the
  sync-failure message. The record returned for an add is the one the Local Store made
  (the fields given, a local id, no \<open>synced\<close> flag); it replaces the optimistic record in
  memory, and a working Local Store then holds it after the records it held before. After
  a delete the id is gone from memory, and from what a working Local Store holds. An
  update does the same when its target id is in the Local Store: the caller receives the
  stored record overlaid with the new values, which a working Local Store then holds at
  the place of the old one. When the target is not in the Local Store, the fallback
  throws \<^verbatim>\<open>Expense not found\<close>: the caller receives that error, \<open>pending_changes\<close> stays as
  it was, the Local Store holds what it held, and the in-memory collection is loaded
  again (from the Remote Store if it can now be read, else from the Local Store).
\<close>

theorem remote_failure_falls_back_to_local_store:
  assumes "uses_remote a"
  shows "(threw (supabase_addExpense now server_id (fields_only f) r) \<longrightarrow>
           (let saved = (fields_only f)\<lparr>expense_id := local_id, created_at := now\<rparr>;
                out = useExpenses_addExpense now server_id local_id a f (h, s, r)
            in fst out = Inr saved
             \<and> synced saved = None
             \<and> expenses (hook_of out)
                 = saved # map (\<lambda>exp. if expense_id exp = ''temp_'' @ show_int now
                                      then saved else exp) (expenses h)
             \<and> store_of out = snd (addExpense now local_id (fields_only f) s)
             \<and> (store_works now s \<longrightarrow>
                  fst (getExpenses now (store_of out)) = fst (getExpenses now s) @ [saved])
             \<and> syncStatus (hook_of out)
                 = (syncStatus h)\<lparr>pending_changes := pending_changes (syncStatus h) + 1,
                      error := Some sync_failed_message, sync_in_progress := False\<rparr>))
       \<and> (threw (supabase_deleteExpense i r) \<longrightarrow>
           (let out = useExpenses_deleteExpense now a i (h, s, r)
            in fst out = Inr ()
             \<and> expenses (hook_of out) = filter (\<lambda>exp. expense_id exp \<noteq> i) (expenses h)
             \<and> store_of out = snd (deleteExpense now i s)
             \<and> (store_works now s \<longrightarrow>
                  fst (getExpenses now (store_of out))
                    = filter (\<lambda>e. expense_id e \<noteq> i) (fst (getExpenses now s)))
             \<and> syncStatus (hook_of out)
                 = (syncStatus h)\<lparr>pending_changes := pending_changes (syncStatus h) + 1,
                      error := Some sync_failed_message, sync_in_progress := False\<rparr>))
       \<and> (\<forall>k. threw (supabase_updateExpense now i updates r)
              \<and> findIndex (\<lambda>e. expense_id e = i) (fst (getExpenses now s)) = Some k \<longrightarrow>
           (let u = (apply_updates (fst (getExpenses now s) ! k) updates)
                      \<lparr>updated_at := Some now\<rparr>;
                out = useExpenses_updateExpense now a i updates (h, s, r)
            in fst out = Inr u
             \<and> expenses (hook_of out)
                 = map (\<lambda>exp. if expense_id exp = i then u else exp)
                     (map (\<lambda>exp. if expense_id exp = i
                                 then (apply_updates exp updates)\<lparr>updated_at := Some now\<rparr>
                                 else exp) (expenses h))
             \<and> store_of out = snd (updateExpense now i updates s)
             \<and> (store_works now s \<longrightarrow>
                  fst (getExpenses now (store_of out)) = (fst (getExpenses now s))[k := u])
             \<and> syncStatus (hook_of out)
                 = (syncStatus h)\<lparr>pending_changes := pending_changes (syncStatus h) + 1,
                      error := Some sync_failed_message, sync_in_progress := False\<rparr>))
       \<and> (threw (supabase_updateExpense now i updates r)
            \<and> i \<notin> expense_id ` set (fst (getExpenses now s)) \<longrightarrow>
           (let out = useExpenses_updateExpense now a i updates (h, s, r)
            in fst out = Inl (AppError UNKNOWN_ERROR ''Expense not found'')
             \<and> pending_changes (syncStatus (hook_of out)) = pending_changes (syncStatus h)
             \<and> fst (getExpenses now (store_of out)) = fst (getExpenses now s)
             \<and> expenses (hook_of out)
                 = (case fst (supabase_getExpenses
                                (snd (supabase_updateExpense now i updates r))) of
                      Inr rows \<Rightarrow> rows
                    | Inl x \<Rightarrow> fst (getExpenses now s))))"
proof (intro conjI impI allI)
  assume t: "threw (supabase_addExpense now server_id (fields_only f) r)"
  obtain e r1 where rf: "supabase_addExpense now server_id (fields_only f) r = (Inl e, r1)"
    using threw_Inl[OF t] by blast
  obtain s1 where lf: "addExpense now local_id (fields_only f) s
        = (Inr ((fields_only f)\<lparr>expense_id := local_id, created_at := now\<rparr>), s1)"
    using addExpense_returns[of now local_id "fields_only f" s]
    by (cases "addExpense now local_id (fields_only f) s") simp
  note fb = add_fallback[OF assms rf lf, of h] add_fallback_memory[OF assms rf lf, of h]
  have s1: "s1 = snd (addExpense now local_id (fields_only f) s)" using lf by simp
  have rb: "store_works now s \<longrightarrow>
              fst (getExpenses now s1)
                = fst (getExpenses now s)
                  @ [(fields_only f)\<lparr>expense_id := local_id, created_at := now\<rparr>]"
    using read_after_add[of now s local_id "fields_only f"] s1 by simp
  have sy: "synced ((fields_only f)\<lparr>expense_id := local_id, created_at := now\<rparr>) = None"
    by (simp add: fields_only_def)
  show "let saved = (fields_only f)\<lparr>expense_id := local_id, created_at := now\<rparr>;
            out = useExpenses_addExpense now server_id local_id a f (h, s, r)
        in fst out = Inr saved
         \<and> synced saved = None
         \<and> expenses (hook_of out)
             = saved # map (\<lambda>exp. if expense_id exp = ''temp_'' @ show_int now
                                  then saved else exp) (expenses h)
         \<and> store_of out = snd (addExpense now local_id (fields_only f) s)
         \<and> (store_works now s \<longrightarrow>
              fst (getExpenses now (store_of out)) = fst (getExpenses now s) @ [saved])
         \<and> syncStatus (hook_of out)
             = (syncStatus h)\<lparr>pending_changes := pending_changes (syncStatus h) + 1,
                  error := Some sync_failed_message, sync_in_progress := False\<rparr>"
    unfolding Let_def fb(1) fb(2) fb(3) fb(4) using rb sy s1 by simp
next
  assume t: "threw (supabase_deleteExpense i r)"
  obtain e r1 where rf: "supabase_deleteExpense i r = (Inl e, r1)"
    using threw_Inl[OF t] by blast
  obtain s1 where lf: "deleteExpense now i s = (Inr (), s1)"
    using deleteExpense_returns[of now i s] by (cases "deleteExpense now i s") simp
  note fb = delete_fallback[OF assms rf lf, of h] delete_fallback_memory[OF assms rf lf, of h]
  have s1: "s1 = snd (deleteExpense now i s)" using lf by simp
  have rb: "store_works now s \<longrightarrow>
              fst (getExpenses now s1)
                = filter (\<lambda>e. expense_id e \<noteq> i) (fst (getExpenses now s))"
    using read_after_delete[of now s i] s1 by simp
  show "let out = useExpenses_deleteExpense now a i (h, s, r)
        in fst out = Inr ()
         \<and> expenses (hook_of out) = filter (\<lambda>exp. expense_id exp \<noteq> i) (expenses h)
         \<and> store_of out = snd (deleteExpense now i s)
         \<and> (store_works now s \<longrightarrow>
              fst (getExpenses now (store_of out))
                = filter (\<lambda>e. expense_id e \<noteq> i) (fst (getExpenses now s)))
         \<and> syncStatus (hook_of out)
             = (syncStatus h)\<lparr>pending_changes := pending_changes (syncStatus h) + 1,
                  error := Some sync_failed_message, sync_in_progress := False\<rparr>"
    unfolding Let_def fb(1) fb(2) fb(3) fb(4) using rb s1 by simp
next
  fix k
  assume t: "threw (supabase_updateExpense now i updates r)
              \<and> findIndex (\<lambda>e. expense_id e = i) (fst (getExpenses now s)) = Some k"
  let ?u = "(apply_updates (fst (getExpenses now s) ! k) updates)\<lparr>updated_at := Some now\<rparr>"
  obtain e r1 where rf: "supabase_updateExpense now i updates r = (Inl e, r1)"
    using threw_Inl t by blast
  obtain s1 where lf: "updateExpense now i updates s = (Inr ?u, s1)"
    using updateExpense_found[of i now s k updates] t by simp
  have s1: "s1 = snd (updateExpense now i updates s)" using lf by simp
  note fb = update_fallback[OF assms rf lf, of h]
  have mem: "expenses (hook_of (useExpenses_updateExpense now a i updates (h, s, r)))
           = map (\<lambda>exp. if expense_id exp = i then ?u else exp)
               (map (\<lambda>exp. if expense_id exp = i
                           then (apply_updates exp updates)\<lparr>updated_at := Some now\<rparr>
                           else exp) (expenses h))"
    using update_local_success(2)[OF _ lf, of a r h] t by simp
  have rb: "store_works now s \<longrightarrow>
              fst (getExpenses now s1) = (fst (getExpenses now s))[k := ?u]"
    using read_after_update[of now s i k updates] t s1 by simp
  show "let u = (apply_updates (fst (getExpenses now s) ! k) updates)
                      \<lparr>updated_at := Some now\<rparr>;
            out = useExpenses_updateExpense now a i updates (h, s, r)
        in fst out = Inr u
         \<and> expenses (hook_of out)
             = map (\<lambda>exp. if expense_id exp = i then u else exp)
                 (map (\<lambda>exp. if expense_id exp = i
                             then (apply_updates exp updates)\<lparr>updated_at := Some now\<rparr>
                             else exp) (expenses h))
         \<and> store_of out = snd (updateExpense now i updates s)
         \<and> (store_works now s \<longrightarrow>
              fst (getExpenses now (store_of out)) = (fst (getExpenses now s))[k := u])
         \<and> syncStatus (hook_of out)
             = (syncStatus h)\<lparr>pending_changes := pending_changes (syncStatus h) + 1,
                  error := Some sync_failed_message, sync_in_progress := False\<rparr>"
    unfolding Let_def fb(1) fb(2) fb(3) mem using rb s1 by simp
next
  assume t: "threw (supabase_updateExpense now i updates r)
            \<and> i \<notin> expense_id ` set (fst (getExpenses now s))"
  have lf: "updateExpense now i updates s
              = (Inl (Error ''Expense not found''), snd (getExpenses now s))"
    using updateExpense_absent t by blast
  have path: "\<not> uses_remote a \<or> threw (supabase_updateExpense now i updates r)"
    using t by simp
  note fb = update_local_failure[OF path lf, of h]
  show "let out = useExpenses_updateExpense now a i updates (h, s, r)
        in fst out = Inl (AppError UNKNOWN_ERROR ''Expense not found'')
         \<and> pending_changes (syncStatus (hook_of out)) = pending_changes (syncStatus h)
         \<and> fst (getExpenses now (store_of out)) = fst (getExpenses now s)
         \<and> expenses (hook_of out)
             = (case fst (supabase_getExpenses
                            (snd (supabase_updateExpense now i updates r))) of
                  Inr rows \<Rightarrow> rows
                | Inl x \<Rightarrow> fst (getExpenses now s))"
    unfolding Let_def fb(1) fb(3) fb(4) fb(5)
    using assms by (simp add: handleAsyncError_def read_after_read split: sum.splits)
qed

lemma offline_remote_fails:
  "uses_remote signed_in_hook"
  "threw (supabase_addExpense 2000 ''srv1'' (fields_only sample_fields) offline_remote)"
  "threw (supabase_deleteExpense ''e1'' offline_remote)"
  "threw (supabase_updateExpense 2000 ''e1'' price_seven offline_remote)"
  "threw (supabase_updateExpense 2000 ''zz'' price_seven offline_remote)"
  by code_simp+

lemma sample_store_facts:
  "store_works 2000 sample_store"
  "store_works 2000 empty_store"
  "fst (getExpenses 2000 sample_store) = [sample_expense]"
  "fst (getExpenses 2000 empty_store) = []"
  "findIndex (\<lambda>e. expense_id e = ''e1'') (fst (getExpenses 2000 sample_store)) = Some 0"
  "''zz'' \<notin> expense_id ` set (fst (getExpenses 2000 sample_store))"
  by (simp_all add: store_works_def getExpenses_def isDataExpired_def sample_store_def
      empty_store_def sample_expense_def)

theorem remote_failure_falls_back_to_local_store_witness:
  "uses_remote signed_in_hook
   \<and> threw (supabase_addExpense 2000 ''srv1'' (fields_only sample_fields) offline_remote)
   \<and> store_works 2000 empty_store
   \<and> fst (useExpenses_addExpense 2000 ''srv1'' ''loc1'' signed_in_hook sample_fields
             (sample_hook, empty_store, offline_remote))
       = Inr ((fields_only sample_fields)\<lparr>expense_id := ''loc1'', created_at := 2000\<rparr>)
   \<and> fst (getExpenses 2000 (store_of
         (useExpenses_addExpense 2000 ''srv1'' ''loc1'' signed_in_hook sample_fields
             (sample_hook, empty_store, offline_remote))))
       = [(fields_only sample_fields)\<lparr>expense_id := ''loc1'', created_at := 2000\<rparr>]
   \<and> pending_changes (syncStatus (hook_of
         (useExpenses_addExpense 2000 ''srv1'' ''loc1'' signed_in_hook sample_fields
             (sample_hook, empty_store, offline_remote)))) = 1
   \<and> threw (supabase_deleteExpense ''e1'' offline_remote)
   \<and> store_works 2000 sample_store
   \<and> fst (getExpenses 2000 sample_store) = [sample_expense]
   \<and> fst (useExpenses_deleteExpense 2000 signed_in_hook ''e1''
             (sample_hook, sample_store, offline_remote)) = Inr ()
   \<and> fst (getExpenses 2000 (store_of
         (useExpenses_deleteExpense 2000 signed_in_hook ''e1''
             (sample_hook, sample_store, offline_remote)))) = []
   \<and> expenses (hook_of
         (useExpenses_deleteExpense 2000 signed_in_hook ''e1''
             (sample_hook, sample_store, offline_remote))) = []
   \<and> threw (supabase_updateExpense 2000 ''e1'' price_seven offline_remote)
   \<and> findIndex (\<lambda>e. expense_id e = ''e1'') (fst (getExpenses 2000 sample_store)) = Some 0
   \<and> fst (useExpenses_updateExpense 2000 signed_in_hook ''e1'' price_seven
             (sample_hook, sample_store, offline_remote))
       = Inr (sample_expense\<lparr>price := 7, updated_at := Some 2000\<rparr>)
   \<and> fst (getExpenses 2000 (store_of
         (useExpenses_updateExpense 2000 signed_in_hook ''e1'' price_seven
             (sample_hook, sample_store, offline_remote))))
       = [sample_expense\<lparr>price := 7, updated_at := Some 2000\<rparr>]
   \<and> error (syncStatus (hook_of
         (useExpenses_updateExpense 2000 signed_in_hook ''e1'' price_seven
             (sample_hook, sample_store, offline_remote)))) = Some sync_failed_message
   \<and> threw (supabase_updateExpense 2000 ''zz'' price_seven offline_remote)
   \<and> ''zz'' \<notin> expense_id ` set (fst (getExpenses 2000 sample_store))
   \<and> fst (useExpenses_updateExpense 2000 signed_in_hook ''zz'' price_seven
             (sample_hook, sample_store, offline_remote))
       = Inl (AppError UNKNOWN_ERROR ''Expense not found'')
   \<and> expenses (hook_of
         (useExpenses_updateExpense 2000 signed_in_hook ''zz'' price_seven
             (sample_hook, sample_store, offline_remote))) = [sample_expense]"
proof -
  have p0: "pending_changes (syncStatus sample_hook) = 0" "expenses sample_hook = [sample_expense]"
    by (simp_all add: sample_hook_def idle_status_def)
  have upd: "(apply_updates sample_expense price_seven)\<lparr>updated_at := Some 2000\<rparr>
               = sample_expense\<lparr>price := 7, updated_at := Some 2000\<rparr>"
    by (simp add: apply_updates_def price_seven_def no_updates_def sample_expense_def)
  have reload: "fst (supabase_getExpenses
                       (snd (supabase_updateExpense 2000 ''zz'' price_seven offline_remote)))
                  = Inl unknown_error"
    by code_simp
  note t1 = remote_failure_falls_back_to_local_store[OF offline_remote_fails(1),
      where now = 2000 and server_id = "''srv1''" and f = sample_fields
        and r = offline_remote and local_id = "''loc1''" and h = sample_hook
        and s = empty_store and i = "''e1''" and updates = price_seven]
  note t2 = remote_failure_falls_back_to_local_store[OF offline_remote_fails(1),
      where now = 2000 and server_id = "''srv1''" and f = sample_fields
        and r = offline_remote and local_id = "''loc1''" and h = sample_hook
        and s = sample_store and i = "''e1''" and updates = price_seven]
  note t3 = remote_failure_falls_back_to_local_store[OF offline_remote_fails(1),
      where now = 2000 and server_id = "''srv1''" and f = sample_fields
        and r = offline_remote and local_id = "''loc1''" and h = sample_hook
        and s = sample_store and i = "''zz''" and updates = price_seven]
  note add = t1[THEN conjunct1, THEN mp, OF offline_remote_fails(2), unfolded Let_def]
  have a1: "fst (useExpenses_addExpense 2000 ''srv1'' ''loc1'' signed_in_hook sample_fields
             (sample_hook, empty_store, offline_remote))
       = Inr ((fields_only sample_fields)\<lparr>expense_id := ''loc1'', created_at := 2000\<rparr>)"
    using add by blast
  have "fst (getExpenses 2000 (store_of
         (useExpenses_addExpense 2000 ''srv1'' ''loc1'' signed_in_hook sample_fields
             (sample_hook, empty_store, offline_remote))))
       = fst (getExpenses 2000 empty_store)
         @ [(fields_only sample_fields)\<lparr>expense_id := ''loc1'', created_at := 2000\<rparr>]"
    using add sample_store_facts(2) by blast
  then have a2: "fst (getExpenses 2000 (store_of
         (useExpenses_addExpense 2000 ''srv1'' ''loc1'' signed_in_hook sample_fields
             (sample_hook, empty_store, offline_remote))))
       = [(fields_only sample_fields)\<lparr>expense_id := ''loc1'', created_at := 2000\<rparr>]"
    by (simp add: sample_store_facts(4))
  have "syncStatus (hook_of
         (useExpenses_addExpense 2000 ''srv1'' ''loc1'' signed_in_hook sample_fields
             (sample_hook, empty_store, offline_remote)))
       = (syncStatus sample_hook)\<lparr>pending_changes := pending_changes (syncStatus sample_hook) + 1,
            error := Some sync_failed_message, sync_in_progress := False\<rparr>"
    using add by blast
  then have a3: "pending_changes (syncStatus (hook_of
         (useExpenses_addExpense 2000 ''srv1'' ''loc1'' signed_in_hook sample_fields
             (sample_hook, empty_store, offline_remote)))) = 1"
    by (simp add: p0)
  note del = t2[THEN conjunct2, THEN conjunct1, THEN mp, OF offline_remote_fails(3),
                unfolded Let_def]
  have d1: "fst (useExpenses_deleteExpense 2000 signed_in_hook ''e1''
             (sample_hook, sample_store, offline_remote)) = Inr ()"
    using del by blast
  have "fst (getExpenses 2000 (store_of
         (useExpenses_deleteExpense 2000 signed_in_hook ''e1''
             (sample_hook, sample_store, offline_remote))))
       = filter (\<lambda>e. expense_id e \<noteq> ''e1'') (fst (getExpenses 2000 sample_store))"
    using del sample_store_facts(1) by blast
  then have d2: "fst (getExpenses 2000 (store_of
         (useExpenses_deleteExpense 2000 signed_in_hook ''e1''
             (sample_hook, sample_store, offline_remote)))) = []"
    by (simp add: sample_store_facts(3) sample_expense_def)
  have "expenses (hook_of
         (useExpenses_deleteExpense 2000 signed_in_hook ''e1''
             (sample_hook, sample_store, offline_remote)))
       = filter (\<lambda>exp. expense_id exp \<noteq> ''e1'') (expenses sample_hook)"
    using del by blast
  then have d3: "expenses (hook_of
         (useExpenses_deleteExpense 2000 signed_in_hook ''e1''
             (sample_hook, sample_store, offline_remote))) = []"
    by (simp add: p0 sample_expense_def)
  have pres: "threw (supabase_updateExpense 2000 ''e1'' price_seven offline_remote)
              \<and> findIndex (\<lambda>e. expense_id e = ''e1'') (fst (getExpenses 2000 sample_store))
                  = Some 0"
    using offline_remote_fails(4) sample_store_facts(5) by simp
  note up = t2[THEN conjunct2, THEN conjunct2, THEN conjunct1, THEN spec, THEN mp, OF pres,
               unfolded Let_def]
  have nth: "fst (getExpenses 2000 sample_store) ! 0 = sample_expense"
    by (simp add: sample_store_facts(3))
  have "fst (useExpenses_updateExpense 2000 signed_in_hook ''e1'' price_seven
             (sample_hook, sample_store, offline_remote))
       = Inr ((apply_updates (fst (getExpenses 2000 sample_store) ! 0) price_seven)
                \<lparr>updated_at := Some 2000\<rparr>)"
    using up by blast
  then have u1: "fst (useExpenses_updateExpense 2000 signed_in_hook ''e1'' price_seven
             (sample_hook, sample_store, offline_remote))
       = Inr (sample_expense\<lparr>price := 7, updated_at := Some 2000\<rparr>)"
    by (simp only: nth upd)
  have "fst (getExpenses 2000 (store_of
         (useExpenses_updateExpense 2000 signed_in_hook ''e1'' price_seven
             (sample_hook, sample_store, offline_remote))))
       = (fst (getExpenses 2000 sample_store))
           [0 := (apply_updates (fst (getExpenses 2000 sample_store) ! 0) price_seven)
                   \<lparr>updated_at := Some 2000\<rparr>]"
    using up sample_store_facts(1) by blast
  then have u2: "fst (getExpenses 2000 (store_of
         (useExpenses_updateExpense 2000 signed_in_hook ''e1'' price_seven
             (sample_hook, sample_store, offline_remote))))
       = [sample_expense\<lparr>price := 7, updated_at := Some 2000\<rparr>]"
    by (simp only: nth upd) (simp add: sample_store_facts(3))
  have "syncStatus (hook_of
         (useExpenses_updateExpense 2000 signed_in_hook ''e1'' price_seven
             (sample_hook, sample_store, offline_remote)))
       = (syncStatus sample_hook)\<lparr>pending_changes := pending_changes (syncStatus sample_hook) + 1,
            error := Some sync_failed_message, sync_in_progress := False\<rparr>"
    using up by blast
  then have u3: "error (syncStatus (hook_of
         (useExpenses_updateExpense 2000 signed_in_hook ''e1'' price_seven
             (sample_hook, sample_store, offline_remote)))) = Some sync_failed_message"
    by simp
  have abs: "threw (supabase_updateExpense 2000 ''zz'' price_seven offline_remote)
              \<and> ''zz'' \<notin> expense_id ` set (fst (getExpenses 2000 sample_store))"
    using offline_remote_fails(5) sample_store_facts(6) by simp
  note miss = t3[THEN conjunct2, THEN conjunct2, THEN conjunct2, THEN mp, OF abs,
                 unfolded Let_def]
  have z1: "fst (useExpenses_updateExpense 2000 signed_in_hook ''zz'' price_seven
             (sample_hook, sample_store, offline_remote))
       = Inl (AppError UNKNOWN_ERROR ''Expense not found'')"
    using miss by blast
  have "expenses (hook_of
         (useExpenses_updateExpense 2000 signed_in_hook ''zz'' price_seven
             (sample_hook, sample_store, offline_remote)))
       = (case fst (supabase_getExpenses
                      (snd (supabase_updateExpense 2000 ''zz'' price_seven offline_remote))) of
            Inr rows \<Rightarrow> rows
          | Inl x \<Rightarrow> fst (getExpenses 2000 sample_store))"
    using miss by blast
  then have z2: "expenses (hook_of
         (useExpenses_updateExpense 2000 signed_in_hook ''zz'' price_seven
             (sample_hook, sample_store, offline_remote))) = [sample_expense]"
    by (simp add: reload sample_store_facts(3))
  show ?thesis
    using a1 a2 a3 d1 d2 d3 u1 u2 u3 z1 z2 offline_remote_fails sample_store_facts
    by blast
qed

text \<open>
  The claim as the specification words it fails for an update whose target is not in the
  Local Store (the usual case for an authenticated identity, whose Local Store was wiped at
  sign-in): with the backend unreachable, the update of expense \<open>e1\<close> shown in memory
  throws to the caller, \<open>pending_changes\<close> stays 0, and the reload leaves the in-memory
  collection empty. The record an add falls back to has no \<open>synced\<close> flag.
\<close>

theorem update_fallback_throws_counterexample:
  "uses_remote signed_in_hook
   \<and> fst (supabase_updateExpense 2000 ''e1'' price_seven offline_remote) = Inl unknown_error
   \<and> fst (useExpenses_updateExpense 2000 signed_in_hook ''e1'' price_seven
             (sample_hook, empty_store, offline_remote))
       = Inl (AppError UNKNOWN_ERROR ''Expense not found'')
   \<and> pending_changes (syncStatus (hook_of
         (useExpenses_updateExpense 2000 signed_in_hook ''e1'' price_seven
             (sample_hook, empty_store, offline_remote)))) = 0
   \<and> expenses (hook_of
         (useExpenses_updateExpense 2000 signed_in_hook ''e1'' price_seven
             (sample_hook, empty_store, offline_remote))) = []
   \<and> fst (useExpenses_addExpense 2000 ''srv1'' ''loc1'' signed_in_hook sample_fields
             (sample_hook, empty_store, offline_remote))
       = Inr \<lparr>expense_id = ''loc1'', user_id = None, content = ''tea'', price = 3,
              date = ''2024-01-02'', created_at = 2000, updated_at = None, synced = None,
              sync_error = None\<rparr>"
  by code_simp

subsection \<open>Updates and validation\<close>

lemma validateExpense_negative_price:
  assumes "u_price e = Some p" and "p < 0"
  shows "case validateExpense e of
           Inr v \<Rightarrow> \<not> isValid v \<and> ''Price must be positive'' \<in> set (errors v)
         | Inl err \<Rightarrow> err = Error ''Invalid time value''"
proof -
  define dateCheck where "dateCheck =
     (case u_date e of None \<Rightarrow> Inr True
      | Some d \<Rightarrow> if d = [] then Inr True else isValidDateString d)"
  have range: "dateCheck = Inl err \<Longrightarrow> err = Error ''Invalid time value''" for err
    by (auto simp: dateCheck_def isValidDateString_def split: option.splits if_splits)
  show ?thesis
  proof (cases dateCheck)
    case (Inl err)
    then show ?thesis
      using range[OF Inl] by (simp add: validateExpense_def Let_def dateCheck_def)
  next
    case (Inr ok)
    then show ?thesis
      using assms by (simp add: validateExpense_def Let_def dateCheck_def)
  qed
qed

lemma getCurrentUser_table: "expenses_table (snd (getCurrentUser r)) = expenses_table r"
  by (simp add: getCurrentUser_def split: option.splits)

lemma ensureAuthenticated_table:
  "expenses_table (snd (ensureAuthenticated r)) = expenses_table r"
proof (cases "getCurrentUser r")
  case (Pair cu r0)
  then have "expenses_table r0 = expenses_table r"
    using getCurrentUser_table[of r] by simp
  then show ?thesis
    using Pair by (cases cu) (simp_all add: ensureAuthenticated_def)
qed

lemma supabase_update_row:
  assumes "supabase_updateExpense now i updates r = (Inr row, r1)"
  shows "\<exists>old \<in> set (expenses_table r).
           expense_id old = i \<and> row = (apply_updates old updates)\<lparr>updated_at := Some now\<rparr>"
    and "row \<in> set (expenses_table r1)"
proof -
  obtain res r0 where e: "ensureAuthenticated r = (res, r0)"
    by (cases "ensureAuthenticated r")
  have tab: "expenses_table r0 = expenses_table r"
    using ensureAuthenticated_table[of r] e by simp
  show "\<exists>old \<in> set (expenses_table r).
           expense_id old = i \<and> row = (apply_updates old updates)\<lparr>updated_at := Some now\<rparr>"
    and "row \<in> set (expenses_table r1)"
  proof (atomize (full), cases res)
    case (Inl err)
    then have False
      using assms e by (simp add: supabase_updateExpense_def)
    then show "(\<exists>old \<in> set (expenses_table r).
           expense_id old = i \<and> row = (apply_updates old updates)\<lparr>updated_at := Some now\<rparr>)
         \<and> row \<in> set (expenses_table r1)" ..
  next
    case (Inr userId)
    let ?concerned = "\<lambda>row. expense_id row = i \<and> user_id row = Some userId"
    let ?change = "\<lambda>row. (apply_updates row updates)\<lparr>updated_at := Some now\<rparr>"
    have unf: "supabase_updateExpense now i updates r =
       (if \<not> reachable r0
        then (Inl (handleAsyncError (handleDatabaseError (request_error r0) ''update expense'')), r0)
        else (case filter ?concerned (expenses_table r0) of
                [] \<Rightarrow> (Inl (handleAsyncError (handleDatabaseError single_row_error ''update expense'')), r0)
              | [old] \<Rightarrow>
                  (Inr (?change old),
                   r0\<lparr>expenses_table := map (\<lambda>x. if ?concerned x then ?change x else x)
                                           (expenses_table r0)\<rparr>)
              | old # b # others \<Rightarrow> (Inl (handleAsyncError (handleDatabaseError single_row_error ''update expense'')), r0)))"
      using e Inr
      by (cases "filter ?concerned (expenses_table r0)";
          cases "tl (filter ?concerned (expenses_table r0))")
         (simp_all add: supabase_updateExpense_def Let_def)
    have reach: "reachable r0"
      using assms unf by (cases "reachable r0") simp_all
    obtain old where one: "filter ?concerned (expenses_table r0) = [old]"
      using assms unf reach
      by (cases "filter ?concerned (expenses_table r0)";
          cases "tl (filter ?concerned (expenses_table r0))") auto
    have out: "row = ?change old"
      "r1 = r0\<lparr>expenses_table := map (\<lambda>x. if ?concerned x then ?change x else x)
                                    (expenses_table r0)\<rparr>"
      using assms unf reach one by simp_all
    have "old \<in> set (filter ?concerned (expenses_table r0))" by (simp add: one)
    then have mem: "old \<in> set (expenses_table r0)" and c: "?concerned old" by simp_all
    have img: "(\<lambda>x. if ?concerned x then ?change x else x) old = ?change old"
      using c by simp
    have "?change old \<in> (\<lambda>x. if ?concerned x then ?change x else x) ` set (expenses_table r0)"
      using mem img by (rule_tac x = old in image_eqI) simp_all
    then have "row \<in> set (expenses_table r1)"
      by (simp add: out)
    moreover have "\<exists>old \<in> set (expenses_table r).
           expense_id old = i \<and> row = (apply_updates old updates)\<lparr>updated_at := Some now\<rparr>"
      using mem c out(1) tab by auto
    ultimately show "(\<exists>old \<in> set (expenses_table r).
           expense_id old = i \<and> row = (apply_updates old updates)\<lparr>updated_at := Some now\<rparr>)
         \<and> row \<in> set (expenses_table r1)" by blast
  qed
qed

lemma update_remote_success:
  assumes "uses_remote a" and "supabase_updateExpense now i updates r = (Inr row, r1)"
  shows "fst (useExpenses_updateExpense now a i updates (h, s, r)) = Inr row"
    and "expenses (hook_of (useExpenses_updateExpense now a i updates (h, s, r)))
           = map (\<lambda>exp. if expense_id exp = i then row else exp)
               (map (\<lambda>exp. if expense_id exp = i
                           then (apply_updates exp updates)\<lparr>updated_at := Some now\<rparr>
                           else exp) (expenses h))"
    and "store_of (useExpenses_updateExpense now a i updates (h, s, r)) = s"
    and "remote_of (useExpenses_updateExpense now a i updates (h, s, r)) = r1"
  using assms
  by (simp_all add: useExpenses_updateExpense_def Let_def hook_of_def store_of_def
      remote_of_def set_status_def)

lemma price_after_updates:
  "u_price updates = Some p \<Longrightarrow> price ((apply_updates e updates)\<lparr>updated_at := t\<rparr>) = p"
  by (simp add: apply_updates_def)

text \<open>
  C8 (as the code has it). \<open>validateExpense\<close> rejects a negative price (or, for a date with
  an impossible month or day, throws a \<^verbatim>\<open>RangeError\<close>), but the update path never calls
  it: whatever the new values are, the update is handed unchanged to the store of the
  identity. That is the Local Store for a guest, and for an authenticated identity whose
  Remote Store update threw: when it holds the target, the caller receives the stored
  record overlaid with the new values (so with the new price), the in-memory expenses
  under that id are replaced by it, and a working Local Store then holds it at the place
  of the old record. It is the Remote Store for an authenticated identity otherwise: when
  its update returns, the caller receives the row overlaid with the new values, the
  in-memory expenses under that id are replaced by it, the table holds it, and the Local
  Store is left alone. No validation error occurs on either way. When the Local Store
  does not hold the target, the caller receives an \<^verbatim>\<open>AppError\<close> with the message
  \<^verbatim>\<open>Expense not found\<close>, the hook's error is set to it, the Local Store holds what it held,
  and the in-memory collection is replaced by the collection loaded again (for a guest
  from the Local Store; else from the Remote Store if it can be read, and from the Local
  Store if not), which reverts the optimistic change.
\<close>

theorem update_applies_unvalidated_values:
  "(\<forall>p. u_price updates = Some p \<and> p < 0 \<longrightarrow>
      (case validateExpense updates of
         Inr v \<Rightarrow> \<not> isValid v \<and> ''Price must be positive'' \<in> set (errors v)
       | Inl err \<Rightarrow> err = Error ''Invalid time value''))
   \<and> (\<forall>k. (\<not> uses_remote a \<or> threw (supabase_updateExpense now i updates r))
          \<and> findIndex (\<lambda>e. expense_id e = i) (fst (getExpenses now s)) = Some k \<longrightarrow>
        (let u = (apply_updates (fst (getExpenses now s) ! k) updates)
                   \<lparr>updated_at := Some now\<rparr>;
             out = useExpenses_updateExpense now a i updates (h, s, r)
         in fst out = Inr u
          \<and> (\<forall>p. u_price updates = Some p \<longrightarrow> price u = p)
          \<and> expenses (hook_of out)
              = map (\<lambda>exp. if expense_id exp = i then u else exp)
                  (map (\<lambda>exp. if expense_id exp = i
                              then (apply_updates exp updates)\<lparr>updated_at := Some now\<rparr>
                              else exp) (expenses h))
          \<and> (store_works now s \<longrightarrow>
               fst (getExpenses now (store_of out)) = (fst (getExpenses now s))[k := u])))
   \<and> ((\<not> uses_remote a \<or> threw (supabase_updateExpense now i updates r))
        \<and> i \<notin> expense_id ` set (fst (getExpenses now s)) \<longrightarrow>
        (let out = useExpenses_updateExpense now a i updates (h, s, r)
         in fst out = Inl (AppError UNKNOWN_ERROR ''Expense not found'')
          \<and> hook_error (hook_of out) = Some ''Expense not found''
          \<and> fst (getExpenses now (store_of out)) = fst (getExpenses now s)
          \<and> expenses (hook_of out)
              = (if uses_remote a
                 then (case fst (supabase_getExpenses
                                   (snd (supabase_updateExpense now i updates r))) of
                         Inr rows \<Rightarrow> rows
                       | Inl x \<Rightarrow> fst (getExpenses now s))
                 else fst (getExpenses now s))))
   \<and> (\<forall>row r1. uses_remote a
          \<and> supabase_updateExpense now i updates r = (Inr row, r1) \<longrightarrow>
        (let out = useExpenses_updateExpense now a i updates (h, s, r)
         in fst out = Inr row
          \<and> (\<exists>old \<in> set (expenses_table r).
                expense_id old = i
                \<and> row = (apply_updates old updates)\<lparr>updated_at := Some now\<rparr>)
          \<and> (\<forall>p. u_price updates = Some p \<longrightarrow> price row = p)
          \<and> expenses (hook_of out)
              = map (\<lambda>exp. if expense_id exp = i then row else exp)
                  (map (\<lambda>exp. if expense_id exp = i
                              then (apply_updates exp updates)\<lparr>updated_at := Some now\<rparr>
                              else exp) (expenses h))
          \<and> remote_of out = r1
          \<and> row \<in> set (expenses_table r1)
          \<and> store_of out = s))"
proof (intro conjI impI allI)
  fix p assume "u_price updates = Some p \<and> p < 0"
  then show "case validateExpense updates of
         Inr v \<Rightarrow> \<not> isValid v \<and> ''Price must be positive'' \<in> set (errors v)
       | Inl err \<Rightarrow> err = Error ''Invalid time value''"
    using validateExpense_negative_price[of updates p] by simp
next
  fix k
  assume t: "(\<not> uses_remote a \<or> threw (supabase_updateExpense now i updates r))
          \<and> findIndex (\<lambda>e. expense_id e = i) (fst (getExpenses now s)) = Some k"
  let ?u = "(apply_updates (fst (getExpenses now s) ! k) updates)\<lparr>updated_at := Some now\<rparr>"
  have path: "\<not> uses_remote a \<or> threw (supabase_updateExpense now i updates r)"
    using t by simp
  obtain s1 where lf: "updateExpense now i updates s = (Inr ?u, s1)"
    using updateExpense_found[of i now s k updates] t by simp
  have s1: "s1 = snd (updateExpense now i updates s)" using lf by simp
  note fb = update_local_success[OF path lf, of h]
  have rb: "store_works now s \<longrightarrow>
              fst (getExpenses now s1) = (fst (getExpenses now s))[k := ?u]"
    using read_after_update[of now s i k updates] t s1 by simp
  have pr: "\<forall>p. u_price updates = Some p \<longrightarrow> price ?u = p"
    using price_after_updates by blast
  show "let u = (apply_updates (fst (getExpenses now s) ! k) updates)
                   \<lparr>updated_at := Some now\<rparr>;
             out = useExpenses_updateExpense now a i updates (h, s, r)
         in fst out = Inr u
          \<and> (\<forall>p. u_price updates = Some p \<longrightarrow> price u = p)
          \<and> expenses (hook_of out)
              = map (\<lambda>exp. if expense_id exp = i then u else exp)
                  (map (\<lambda>exp. if expense_id exp = i
                              then (apply_updates exp updates)\<lparr>updated_at := Some now\<rparr>
                              else exp) (expenses h))
          \<and> (store_works now s \<longrightarrow>
               fst (getExpenses now (store_of out)) = (fst (getExpenses now s))[k := u])"
    unfolding Let_def fb(1) fb(2) fb(3) using rb pr by blast
next
  assume t: "(\<not> uses_remote a \<or> threw (supabase_updateExpense now i updates r))
        \<and> i \<notin> expense_id ` set (fst (getExpenses now s))"
  have path: "\<not> uses_remote a \<or> threw (supabase_updateExpense now i updates r)"
    using t by simp
  have lf: "updateExpense now i updates s
              = (Inl (Error ''Expense not found''), snd (getExpenses now s))"
    using updateExpense_absent t by blast
  note fb = update_local_failure[OF path lf, of h]
  show "let out = useExpenses_updateExpense now a i updates (h, s, r)
         in fst out = Inl (AppError UNKNOWN_ERROR ''Expense not found'')
          \<and> hook_error (hook_of out) = Some ''Expense not found''
          \<and> fst (getExpenses now (store_of out)) = fst (getExpenses now s)
          \<and> expenses (hook_of out)
              = (if uses_remote a
                 then (case fst (supabase_getExpenses
                                   (snd (supabase_updateExpense now i updates r))) of
                         Inr rows \<Rightarrow> rows
                       | Inl x \<Rightarrow> fst (getExpenses now s))
                 else fst (getExpenses now s))"
    unfolding Let_def fb(1) fb(2) fb(3) fb(4)
    by (simp add: handleAsyncError_def read_after_read split: sum.splits)
next
  fix row r1
  assume t: "uses_remote a \<and> supabase_updateExpense now i updates r = (Inr row, r1)"
  then have ur: "uses_remote a"
    and rf: "supabase_updateExpense now i updates r = (Inr row, r1)" by simp_all
  note fb = update_remote_success[OF ur rf, of h s]
  note rw = supabase_update_row[OF rf]
  have pr: "\<forall>p. u_price updates = Some p \<longrightarrow> price row = p"
    using rw(1) price_after_updates by blast
  show "let out = useExpenses_updateExpense now a i updates (h, s, r)
         in fst out = Inr row
          \<and> (\<exists>old \<in> set (expenses_table r).
                expense_id old = i
                \<and> row = (apply_updates old updates)\<lparr>updated_at := Some now\<rparr>)
          \<and> (\<forall>p. u_price updates = Some p \<longrightarrow> price row = p)
          \<and> expenses (hook_of out)
              = map (\<lambda>exp. if expense_id exp = i then row else exp)
                  (map (\<lambda>exp. if expense_id exp = i
                              then (apply_updates exp updates)\<lparr>updated_at := Some now\<rparr>
                              else exp) (expenses h))
          \<and> remote_of out = r1
          \<and> row \<in> set (expenses_table r1)
          \<and> store_of out = s"
    unfolding Let_def fb(1) fb(2) fb(3) fb(4) using rw pr by blast
qed

lemma update_samples:
  "\<not> uses_remote guest_hook"
  "uses_remote signed_in_hook"
  "u_price negative_price = Some (- 5)"
  "supabase_updateExpense 2000 ''e1'' negative_price remote_with_coffee
     = (Inr (sample_expense\<lparr>user_id := Some ''u1'', price := - 5, updated_at := Some 2000\<rparr>),
        sample_remote\<lparr>expenses_table :=
          [sample_expense\<lparr>user_id := Some ''u1'', price := - 5, updated_at := Some 2000\<rparr>]\<rparr>)"
  "(apply_updates sample_expense negative_price)\<lparr>updated_at := Some 2000\<rparr>
     = sample_expense\<lparr>price := - 5, updated_at := Some 2000\<rparr>"
  by code_simp+

theorem update_applies_unvalidated_values_witness:
  "u_price negative_price = Some (- 5) \<and> (- 5 :: real) < 0
   \<and> (case validateExpense negative_price of
         Inr v \<Rightarrow> \<not> isValid v \<and> ''Price must be positive'' \<in> set (errors v)
       | Inl err \<Rightarrow> err = Error ''Invalid time value'')
   \<and> \<not> uses_remote guest_hook
   \<and> store_works 2000 sample_store
   \<and> findIndex (\<lambda>e. expense_id e = ''e1'') (fst (getExpenses 2000 sample_store)) = Some 0
   \<and> fst (useExpenses_updateExpense 2000 guest_hook ''e1'' negative_price
            (sample_hook, sample_store, sample_remote))
       = Inr (sample_expense\<lparr>price := - 5, updated_at := Some 2000\<rparr>)
   \<and> fst (getExpenses 2000 (store_of
         (useExpenses_updateExpense 2000 guest_hook ''e1'' negative_price
            (sample_hook, sample_store, sample_remote))))
       = [sample_expense\<lparr>price := - 5, updated_at := Some 2000\<rparr>]
   \<and> ''zz'' \<notin> expense_id ` set (fst (getExpenses 2000 sample_store))
   \<and> fst (useExpenses_updateExpense 2000 guest_hook ''zz'' negative_price
            (sample_hook, sample_store, sample_remote))
       = Inl (AppError UNKNOWN_ERROR ''Expense not found'')
   \<and> expenses (hook_of (useExpenses_updateExpense 2000 guest_hook ''zz'' negative_price
            (sample_hook, sample_store, sample_remote))) = [sample_expense]
   \<and> uses_remote signed_in_hook
   \<and> fst (useExpenses_updateExpense 2000 signed_in_hook ''e1'' negative_price
            (sample_hook, empty_store, remote_with_coffee))
       = Inr (sample_expense\<lparr>user_id := Some ''u1'', price := - 5, updated_at := Some 2000\<rparr>)
   \<and> sample_expense\<lparr>user_id := Some ''u1'', price := - 5, updated_at := Some 2000\<rparr>
       \<in> set (expenses_table (remote_of
            (useExpenses_updateExpense 2000 signed_in_hook ''e1'' negative_price
               (sample_hook, empty_store, remote_with_coffee))))"
proof -
  have np: "u_price negative_price = Some (- 5) \<and> (- 5 :: real) < 0"
    using update_samples(3) by simp
  have nth: "fst (getExpenses 2000 sample_store) ! 0 = sample_expense"
    by (simp add: sample_store_facts(3))
  note t1 = update_applies_unvalidated_values[where updates = negative_price
      and a = guest_hook and now = 2000 and i = "''e1''" and r = sample_remote
      and s = sample_store and h = sample_hook]
  note t2 = update_applies_unvalidated_values[where updates = negative_price
      and a = guest_hook and now = 2000 and i = "''zz''" and r = sample_remote
      and s = sample_store and h = sample_hook]
  note t3 = update_applies_unvalidated_values[where updates = negative_price
      and a = signed_in_hook and now = 2000 and i = "''e1''" and r = remote_with_coffee
      and s = empty_store and h = sample_hook]
  have v: "case validateExpense negative_price of
         Inr v \<Rightarrow> \<not> isValid v \<and> ''Price must be positive'' \<in> set (errors v)
       | Inl err \<Rightarrow> err = Error ''Invalid time value''"
    using t1[THEN conjunct1, THEN spec, THEN mp, OF np] .
  have pres: "(\<not> uses_remote guest_hook
               \<or> threw (supabase_updateExpense 2000 ''e1'' negative_price sample_remote))
              \<and> findIndex (\<lambda>e. expense_id e = ''e1'') (fst (getExpenses 2000 sample_store))
                  = Some 0"
    using update_samples(1) sample_store_facts(5) by simp
  note loc = t1[THEN conjunct2, THEN conjunct1, THEN spec, THEN mp, OF pres, unfolded Let_def]
  have "fst (useExpenses_updateExpense 2000 guest_hook ''e1'' negative_price
            (sample_hook, sample_store, sample_remote))
       = Inr ((apply_updates (fst (getExpenses 2000 sample_store) ! 0) negative_price)
                \<lparr>updated_at := Some 2000\<rparr>)"
    using loc by blast
  then have g1: "fst (useExpenses_updateExpense 2000 guest_hook ''e1'' negative_price
            (sample_hook, sample_store, sample_remote))
       = Inr (sample_expense\<lparr>price := - 5, updated_at := Some 2000\<rparr>)"
    by (simp only: nth update_samples(5))
  have "fst (getExpenses 2000 (store_of
         (useExpenses_updateExpense 2000 guest_hook ''e1'' negative_price
            (sample_hook, sample_store, sample_remote))))
       = (fst (getExpenses 2000 sample_store))
           [0 := (apply_updates (fst (getExpenses 2000 sample_store) ! 0) negative_price)
                   \<lparr>updated_at := Some 2000\<rparr>]"
    using loc sample_store_facts(1) by blast
  then have g2: "fst (getExpenses 2000 (store_of
         (useExpenses_updateExpense 2000 guest_hook ''e1'' negative_price
            (sample_hook, sample_store, sample_remote))))
       = [sample_expense\<lparr>price := - 5, updated_at := Some 2000\<rparr>]"
    by (simp only: nth update_samples(5)) (simp add: sample_store_facts(3))
  have abs: "(\<not> uses_remote guest_hook
               \<or> threw (supabase_updateExpense 2000 ''zz'' negative_price sample_remote))
              \<and> ''zz'' \<notin> expense_id ` set (fst (getExpenses 2000 sample_store))"
    using update_samples(1) sample_store_facts(6) by simp
  note miss = t2[THEN conjunct2, THEN conjunct2, THEN conjunct1, THEN mp, OF abs,
                 unfolded Let_def]
  have z1: "fst (useExpenses_updateExpense 2000 guest_hook ''zz'' negative_price
            (sample_hook, sample_store, sample_remote))
       = Inl (AppError UNKNOWN_ERROR ''Expense not found'')"
    using miss by blast
  have "expenses (hook_of (useExpenses_updateExpense 2000 guest_hook ''zz'' negative_price
            (sample_hook, sample_store, sample_remote)))
       = (if uses_remote guest_hook
          then (case fst (supabase_getExpenses
                            (snd (supabase_updateExpense 2000 ''zz'' negative_price
                                    sample_remote))) of
                  Inr rows \<Rightarrow> rows
                | Inl x \<Rightarrow> fst (getExpenses 2000 sample_store))
          else fst (getExpenses 2000 sample_store))"
    using miss by blast
  then have z2: "expenses (hook_of (useExpenses_updateExpense 2000 guest_hook ''zz''
            negative_price (sample_hook, sample_store, sample_remote))) = [sample_expense]"
    by (simp add: update_samples(1) sample_store_facts(3))
  have rem: "uses_remote signed_in_hook
      \<and> supabase_updateExpense 2000 ''e1'' negative_price remote_with_coffee
          = (Inr (sample_expense\<lparr>user_id := Some ''u1'', price := - 5,
                                   updated_at := Some 2000\<rparr>),
             sample_remote\<lparr>expenses_table :=
               [sample_expense\<lparr>user_id := Some ''u1'', price := - 5,
                                updated_at := Some 2000\<rparr>]\<rparr>)"
    using update_samples(2,4) by simp
  note srv = t3[THEN conjunct2, THEN conjunct2, THEN conjunct2, THEN spec, THEN spec,
                THEN mp, OF rem, unfolded Let_def]
  have r1: "fst (useExpenses_updateExpense 2000 signed_in_hook ''e1'' negative_price
            (sample_hook, empty_store, remote_with_coffee))
       = Inr (sample_expense\<lparr>user_id := Some ''u1'', price := - 5, updated_at := Some 2000\<rparr>)"
    using srv by blast
  have "remote_of (useExpenses_updateExpense 2000 signed_in_hook ''e1'' negative_price
               (sample_hook, empty_store, remote_with_coffee))
          = sample_remote\<lparr>expenses_table :=
               [sample_expense\<lparr>user_id := Some ''u1'', price := - 5,
                                updated_at := Some 2000\<rparr>]\<rparr>"
    using srv by blast
  then have r2: "sample_expense\<lparr>user_id := Some ''u1'', price := - 5, updated_at := Some 2000\<rparr>
       \<in> set (expenses_table (remote_of
            (useExpenses_updateExpense 2000 signed_in_hook ''e1'' negative_price
               (sample_hook, empty_store, remote_with_coffee))))"
    by simp
  show ?thesis
    using np v update_samples(1,2) sample_store_facts(1,5,6) g1 g2 z1 z2 r1 r2 by blast
qed

text \<open>
  The claim as the specification words it fails: the guest update \<open>{price: -5}\<close> of the
  stored expense \<open>e1\<close> throws nothing; it returns the expense with price -5, and both the
  in-memory collection and the Local Store then hold that price. The same update by an
  authenticated identity is accepted by the Remote Store, whose table then holds the
  price -5.
\<close>

theorem negative_price_update_accepted_counterexample:
  "validateExpense negative_price
     = Inr \<lparr>isValid = False,
            errors = [''Content is required'', ''Price must be positive'',
                      ''Date is required'']\<rparr>
   \<and> fst (useExpenses_updateExpense 2000 guest_hook ''e1'' negative_price
            (sample_hook, sample_store, sample_remote))
       = Inr (sample_expense\<lparr>price := - 5, updated_at := Some 2000\<rparr>)
   \<and> map price (expenses (hook_of (useExpenses_updateExpense 2000 guest_hook ''e1'' negative_price
            (sample_hook, sample_store, sample_remote)))) = [- 5]
   \<and> map_option (map price) (expenses_item (store_of
          (useExpenses_updateExpense 2000 guest_hook ''e1'' negative_price
            (sample_hook, sample_store, sample_remote)))) = Some [- 5]
   \<and> fst (useExpenses_updateExpense 2000 signed_in_hook ''e1'' negative_price
            (sample_hook, empty_store, remote_with_coffee))
       = Inr (sample_expense\<lparr>user_id := Some ''u1'', price := - 5, updated_at := Some 2000\<rparr>)
   \<and> map price (expenses_table (remote_of
          (useExpenses_updateExpense 2000 signed_in_hook ''e1'' negative_price
            (sample_hook, empty_store, remote_with_coffee)))) = [- 5]"
  by code_simp

subsection \<open>The deferred operation queue\<close>

lemma drain_accumulates:
  "drain now ids q (heap, r, P, L) =
     (case drain now ids q (heap, r, [], []) of
        (h', r', P', L') \<Rightarrow> (h', r', P @ P', L @ L'))"
proof (induction q arbitrary: ids heap r P L)
  case Nil
  show ?case by simp
next
  case (Cons x xs)
  obtain res r1 where out: "processOperation now (ids 0) (heap x) r = (res, r1)"
    by (cases "processOperation now (ids 0) (heap x) r")
  define h1 where "h1 = (case res of Inr u \<Rightarrow> heap
                         | Inl err \<Rightarrow> heap(x := (heap x)\<lparr>retries := retries (heap x) + 1\<rparr>))"
  obtain hb rb Pb Lb where base:
    "drain now (\<lambda>k. ids (Suc k)) xs (h1, r1, [], []) = (hb, rb, Pb, Lb)"
    by (metis prod_cases4)
  have gen: "drain now (\<lambda>k. ids (Suc k)) xs (h1, r1, A, B) = (hb, rb, A @ Pb, B @ Lb)" for A B
    using Cons.IH[of "\<lambda>k. ids (Suc k)" h1 r1 A B] base by simp
  show ?case
  proof (cases res)
    case (Inr u)
    then have h: "h1 = heap" by (simp add: h1_def)
    show ?thesis
      using out Inr gen[unfolded h] by simp
  next
    case (Inl err)
    then have h: "h1 = heap(x := (heap x)\<lparr>retries := retries (heap x) + 1\<rparr>)"
      by (simp add: h1_def)
    show ?thesis
      using out Inl gen[unfolded h] by (simp add: Let_def)
  qed
qed

lemma drain_step:
  assumes "drain now (\<lambda>k. ids (Suc k)) xs
             (heap_after heap x (succeeded (processOperation now (ids 0) (heap x) r)),
              snd (processOperation now (ids 0) (heap x) r), [], []) = (h', r', P', L')"
  shows "drain now ids (x # xs) (heap, r, [], []) =
           (h', r',
            (if succeeded (processOperation now (ids 0) (heap x) r)
                \<or> retries (heap_after heap x
                     (succeeded (processOperation now (ids 0) (heap x) r)) x) \<ge> 3
             then [x] else []) @ P',
            (x, succeeded (processOperation now (ids 0) (heap x) r)) # L')"
proof (cases "processOperation now (ids 0) (heap x) r")
  case (Pair res r1)
  show ?thesis
  proof (cases res)
    case (Inr u)
    then show ?thesis
      using Pair assms
        drain_accumulates[of now "\<lambda>k. ids (Suc k)" xs heap r1 "[x]" "[(x, True)]"]
      by (simp add: succeeded_def heap_after_def)
  next
    case (Inl err)
    let ?h1 = "heap(x := (heap x)\<lparr>retries := retries (heap x) + 1\<rparr>)"
    show ?thesis
      using Pair Inl assms
        drain_accumulates[of now "\<lambda>k. ids (Suc k)" xs ?h1 r1 "[x]" "[(x, False)]"]
        drain_accumulates[of now "\<lambda>k. ids (Suc k)" xs ?h1 r1 "[]" "[(x, False)]"]
      by (simp add: succeeded_def heap_after_def Let_def)
  qed
qed

lemma drain_calls:
  "drain now ids q (heap, r, [], []) = (h', r', P', L') \<Longrightarrow> map fst L' = q"
proof (induction q arbitrary: ids heap r h' r' P' L')
  case Nil
  then show ?case by simp
next
  case (Cons x xs)
  let ?out = "processOperation now (ids 0) (heap x) r"
  obtain h2 r2 P2 L2 where rest:
    "drain now (\<lambda>k. ids (Suc k)) xs (heap_after heap x (succeeded ?out), snd ?out, [], [])
       = (h2, r2, P2, L2)"
    by (metis prod_cases4)
  from drain_step[OF rest] Cons.prems have "L' = (x, succeeded ?out) # L2" by simp
  then show ?case using Cons.IH[OF rest] by simp
qed

lemma drain_frame:
  "drain now ids q (heap, r, [], []) = (h', r', P', L') \<Longrightarrow> operation \<notin> set q
     \<Longrightarrow> h' operation = heap operation"
proof (induction q arbitrary: ids heap r h' r' P' L')
  case Nil
  then show ?case by simp
next
  case (Cons x xs)
  let ?out = "processOperation now (ids 0) (heap x) r"
  obtain h2 r2 P2 L2 where rest:
    "drain now (\<lambda>k. ids (Suc k)) xs (heap_after heap x (succeeded ?out), snd ?out, [], [])
       = (h2, r2, P2, L2)"
    by (metis prod_cases4)
  from drain_step[OF rest] Cons.prems(1) have "h' = h2" by simp
  moreover have "h2 operation = heap_after heap x (succeeded ?out) operation"
    using Cons.IH[OF rest] Cons.prems(2) by simp
  ultimately show ?case using Cons.prems(2) by (simp add: heap_after_def)
qed

lemma drain_processed_subset:
  "drain now ids q (heap, r, [], []) = (h', r', P', L') \<Longrightarrow> set P' \<subseteq> set q"
proof (induction q arbitrary: ids heap r h' r' P' L')
  case Nil
  then show ?case by simp
next
  case (Cons x xs)
  let ?out = "processOperation now (ids 0) (heap x) r"
  obtain h2 r2 P2 L2 where rest:
    "drain now (\<lambda>k. ids (Suc k)) xs (heap_after heap x (succeeded ?out), snd ?out, [], [])
       = (h2, r2, P2, L2)"
    by (metis prod_cases4)
  from drain_step[OF rest] Cons.prems have "set P' \<subseteq> insert x (set P2)" by auto
  then show ?case using Cons.IH[OF rest] by auto
qed

text \<open>
  What one pass does to an operation of a queue without repeated references: it is tried
  once; a failure adds one to its \<open>retries\<close>, a success leaves them; and it is listed for
  removal exactly if it succeeded or its \<open>retries\<close> are now at least 3.
\<close>

lemma drain_operation:
  "drain now ids q (heap, r, [], []) = (h', r', P', L') \<Longrightarrow> distinct q \<Longrightarrow> operation \<in> set q
     \<Longrightarrow> ((operation, True) \<in> set L' \<longleftrightarrow> (operation, False) \<notin> set L')
       \<and> retries (h' operation)
           = retries (heap operation) + (if (operation, False) \<in> set L' then 1 else 0)
       \<and> (operation \<in> set P' \<longleftrightarrow> (operation, True) \<in> set L' \<or> retries (h' operation) \<ge> 3)"
proof (induction q arbitrary: ids heap r h' r' P' L')
  case Nil
  then show ?case by simp
next
  case (Cons x xs)
  let ?out = "processOperation now (ids 0) (heap x) r"
  let ?ok = "succeeded ?out"
  let ?h1 = "heap_after heap x ?ok"
  obtain h2 r2 P2 L2 where rest:
    "drain now (\<lambda>k. ids (Suc k)) xs (?h1, snd ?out, [], []) = (h2, r2, P2, L2)"
    by (metis prod_cases4)
  from drain_step[OF rest] Cons.prems(1)
  have h': "h' = h2" and L': "L' = (x, ?ok) # L2"
    and P': "P' = (if ?ok \<or> retries (?h1 x) \<ge> 3 then [x] else []) @ P2"
    by simp_all
  have xs: "distinct xs" "x \<notin> set xs" using Cons.prems(2) by simp_all
  have fstL2: "map fst L2 = xs" using drain_calls[OF rest] .
  have P2: "set P2 \<subseteq> set xs" using drain_processed_subset[OF rest] .
  show ?case
  proof (cases "operation = x")
    case True
    have notin: "(x, b) \<notin> set L2" for b
      using fstL2 xs(2) by (metis fst_conv image_eqI set_map)
    have keep: "h2 x = ?h1 x" using drain_frame[OF rest xs(2)] .
    have "x \<notin> set P2" using P2 xs(2) by auto
    then show ?thesis
      using True h' L' P' notin keep by (auto simp: heap_after_def)
  next
    case False
    then have mem: "operation \<in> set xs" using Cons.prems(3) by simp
    have same: "?h1 operation = heap operation"
      using False by (simp add: heap_after_def)
    from Cons.IH[OF rest xs(1) mem] show ?thesis
      using False h' L' P' same by auto
  qed
qed

lemma attempts_of_calls:
  assumes "map fst L = q" and "distinct q"
  shows "attempts_of operation L = (if operation \<in> set q then 1 else 0)"
proof -
  have "attempts_of operation L = length (filter (\<lambda>x. x = operation) (map fst L))"
    by (simp add: attempts_of_def filter_map o_def)
  also have "\<dots> = length (filter (\<lambda>x. x = operation) q)" using assms(1) by simp
  also have "\<dots> = (if operation \<in> set q then 1 else 0)"
  proof (cases "operation \<in> set q")
    case True
    have "length (filter (\<lambda>y. id y = id operation) q) = 1"
      using length_filter_key_distinct[of id q operation] assms(2) True by simp
    then show ?thesis using True by simp
  next
    case False
    then have "filter (\<lambda>x. x = operation) q = []"
      by (auto simp: filter_empty_conv)
    then show ?thesis using False by simp
  qed
  finally show ?thesis .
qed

lemma attempts_of_append:
  "attempts_of operation (xs @ ys) = attempts_of operation xs + attempts_of operation ys"
  by (simp add: attempts_of_def)

text \<open>
  A call of \<^verbatim>\<open>processQueue\<close> either leaves queue, heap and history alone (empty queue, or
  no authenticated user), or runs the loop over the whole queue.
\<close>

lemma processQueue_cases:
  fixes svc r now ids
  defines "svc' \<equiv> fst (snd (processQueue now ids (svc, r)))"
  shows "(syncQueue svc' = syncQueue svc \<and> ops svc' = ops svc \<and> attempted svc' = attempted svc
          \<and> next_ref svc' = next_ref svc
          \<and> (syncQueue svc = [] \<or> (case fst (getCurrentUser r) of None \<Rightarrow> True | Some u \<Rightarrow> isGuest u)))
       \<or> (\<exists>h' r2 P L.
             drain now ids (syncQueue svc) (ops svc, snd (getCurrentUser r), [], []) = (h', r2, P, L)
           \<and> ops svc' = h' \<and> attempted svc' = attempted svc @ L
           \<and> syncQueue svc' = filter (\<lambda>x. x \<notin> set P) (syncQueue svc)
           \<and> next_ref svc' = next_ref svc
           \<and> syncQueue svc \<noteq> []
           \<and> \<not> (case fst (getCurrentUser r) of None \<Rightarrow> True | Some u \<Rightarrow> isGuest u))"
proof (cases "syncQueue svc = []")
  case True
  then show ?thesis by (simp add: svc'_def processQueue_def)
next
  case False
  obtain cu r1 where g: "getCurrentUser r = (cu, r1)"
    by (cases "getCurrentUser r")
  show ?thesis
  proof (cases "case cu of None \<Rightarrow> True | Some u \<Rightarrow> isGuest u")
    case True
    then show ?thesis
      using False g
      by (simp add: svc'_def processQueue_def Let_def updateSyncStatus_def)
  next
    case guest: False
    obtain h' r2 P L where d:
      "drain now ids (syncQueue svc) (ops svc, r1, [], []) = (h', r2, P, L)"
      by (metis prod_cases4)
    have "ops svc' = h' \<and> attempted svc' = attempted svc @ L
           \<and> syncQueue svc' = filter (\<lambda>x. x \<notin> set P) (syncQueue svc)
           \<and> next_ref svc' = next_ref svc"
      using False g guest d
      by (simp add: svc'_def processQueue_def Let_def updateSyncStatus_def)
    then show ?thesis
      using False g guest d by auto
  qed
qed

lemma processQueue_inv:
  assumes "queue_inv svc"
  shows "queue_inv (fst (snd (processQueue now ids (svc, r))))"
    and "next_ref (fst (snd (processQueue now ids (svc, r)))) = next_ref svc"
  using assms processQueue_cases[of now ids svc r]
  by (auto simp: queue_inv_def list_all_iff)

lemma budget_step:
  fixes k :: int
  assumes "k + 1 < 3"
  shows "Suc (max 1 (nat (3 - (k + 1)))) \<le> max 1 (nat (3 - k))"
  using assms by simp

lemma processQueue_potential:
  assumes "queue_inv svc"
  shows "attempts_of x (attempted (fst (snd (processQueue now ids (svc, r)))))
           + retry_budget (fst (snd (processQueue now ids (svc, r)))) x
         \<le> attempts_of x (attempted svc) + retry_budget svc x"
proof -
  let ?svc' = "fst (snd (processQueue now ids (svc, r)))"
  from processQueue_cases[of now ids svc r]
  consider (idle) "syncQueue ?svc' = syncQueue svc" "ops ?svc' = ops svc"
      "attempted ?svc' = attempted svc"
    | (pass) h' r2 P L where
      "drain now ids (syncQueue svc) (ops svc, snd (getCurrentUser r), [], []) = (h', r2, P, L)"
      "ops ?svc' = h'" "attempted ?svc' = attempted svc @ L"
      "syncQueue ?svc' = filter (\<lambda>x. x \<notin> set P) (syncQueue svc)"
    by blast
  then show ?thesis
  proof cases
    case idle
    then show ?thesis by (simp add: retry_budget_def)
  next
    case pass
    have dq: "distinct (syncQueue svc)" using assms by (simp add: queue_inv_def)
    have calls: "map fst L = syncQueue svc" using drain_calls[OF pass(1)] .
    have cnt: "attempts_of x (attempted ?svc')
                 = attempts_of x (attempted svc) + (if x \<in> set (syncQueue svc) then 1 else 0)"
      using attempts_of_calls[OF calls dq, of x] by (simp add: pass(3) attempts_of_append)
    show ?thesis
    proof (cases "x \<in> set (syncQueue svc)")
      case False
      then have "x \<notin> set (syncQueue ?svc')" by (simp add: pass(4))
      then show ?thesis using False cnt by (simp add: retry_budget_def)
    next
      case True
      note facts = drain_operation[OF pass(1) dq True]
      show ?thesis
      proof (cases "x \<in> set (syncQueue ?svc')")
        case False
        then show ?thesis using True cnt by (simp add: retry_budget_def)
      next
        case still: True
        then have "x \<notin> set P" by (simp add: pass(4))
        then have f: "(x, False) \<in> set L" "\<not> retries (h' x) \<ge> 3"
          using facts by auto
        then have r': "retries (h' x) = retries (ops svc x) + 1" "retries (ops svc x) + 1 < 3"
          using facts by auto
        show ?thesis
          using True still cnt budget_step[OF r'(2)]
          by (simp add: retry_budget_def pass(2) r'(1))
      qed
    qed
  qed
qed

lemma processQueue_history_grows:
  "attempts_of x (attempted svc)
     \<le> attempts_of x (attempted (fst (snd (processQueue now ids (svc, r)))))"
  using processQueue_cases[of now ids svc r] by (auto simp: attempts_of_append)

text \<open>Queueing allocates a new reference; what holds of the older ones is kept.\<close>

lemma queueOperation_steps:
  fixes now ids operation r
  assumes "queue_inv svc" and "x < next_ref svc"
  defines "svc' \<equiv> fst (queueOperation now ids operation (svc, r))"
  shows "queue_inv svc'" and "x < next_ref svc'"
    and "attempts_of x (attempted svc') + retry_budget svc' x
           \<le> attempts_of x (attempted svc) + retry_budget svc x"
    and "attempts_of x (attempted svc) \<le> attempts_of x (attempted svc')"
proof -
  define pushed where "pushed =
     updateSyncStatus (\<lambda>st. st\<lparr>pending_changes := length (syncQueue svc @ [next_ref svc])\<rparr>)
       (svc\<lparr>ops := (ops svc)(next_ref svc := operation),
            syncQueue := syncQueue svc @ [next_ref svc],
            next_ref := Suc (next_ref svc)\<rparr>)"
  have svc': "svc' = fst (snd (processQueue now ids (pushed, r)))"
    by (simp add: svc'_def queueOperation_def Let_def pushed_def
        split: prod.splits)
  have inv: "queue_inv pushed"
    using assms(1)
    by (auto simp: pushed_def queue_inv_def updateSyncStatus_def list_all_iff)
  have same: "attempted pushed = attempted svc" "retry_budget pushed x = retry_budget svc x"
    "next_ref pushed = Suc (next_ref svc)"
    using assms(2) by (auto simp: pushed_def retry_budget_def updateSyncStatus_def)
  show "queue_inv svc'" using processQueue_inv(1)[OF inv] by (simp add: svc')
  show "x < next_ref svc'"
    using processQueue_inv(2)[OF inv, of now ids r] assms(2) same(3) by (simp add: svc')
  show "attempts_of x (attempted svc') + retry_budget svc' x
           \<le> attempts_of x (attempted svc) + retry_budget svc x"
    using processQueue_potential[OF inv, of x now ids r] same by (simp add: svc')
  show "attempts_of x (attempted svc) \<le> attempts_of x (attempted svc')"
    using processQueue_history_grows[of x pushed now ids r] same by (simp add: svc')
qed

lemma run_potential:
  "queue_inv svc \<Longrightarrow> x < next_ref svc \<Longrightarrow>
     attempts_of x (attempted (run calls svc)) + retry_budget (run calls svc) x
       \<le> attempts_of x (attempted svc) + retry_budget svc x
   \<and> attempts_of x (attempted svc) \<le> attempts_of x (attempted (run calls svc))"
proof (induction calls arbitrary: svc)
  case Nil
  show ?case by simp
next
  case (Cons c calls)
  obtain call now ids r where c: "c = (call, now, ids, r)"
    by (metis prod_cases4)
  show ?case
  proof (cases call)
    case (QueueOperation operation)
    let ?svc' = "fst (queueOperation now ids operation (svc, r))"
    note st = queueOperation_steps[OF Cons.prems, of now ids operation r]
    from Cons.IH[OF st(1) st(2)] st(3) st(4) show ?thesis
      using c QueueOperation by simp
  next
    case ProcessQueue
    let ?svc' = "fst (snd (processQueue now ids (svc, r)))"
    have inv: "queue_inv ?svc'" and nr: "x < next_ref ?svc'"
      using processQueue_inv[OF Cons.prems(1), of now ids r] Cons.prems(2) by simp_all
    from Cons.IH[OF inv nr] processQueue_potential[OF Cons.prems(1), of x now ids r]
      processQueue_history_grows[of x svc now ids r]
    show ?thesis
      using c ProcessQueue by simp
  qed
qed

lemma pass_results_length: "length (fst (pass_results now ids q heap r)) = length q"
  by (induction q arbitrary: ids r) (simp_all add: split_beta)

lemma drain_results:
  "drain now ids q (heap, r, [], []) = (h', r', P', L') \<Longrightarrow> distinct q
     \<Longrightarrow> \<forall>x \<in> set q. heap x = heap0 x
     \<Longrightarrow> L' = zip q (fst (pass_results now ids q heap0 r))
       \<and> r' = snd (pass_results now ids q heap0 r)"
proof (induction q arbitrary: ids heap r h' r' P' L')
  case Nil
  then show ?case by simp
next
  case (Cons x xs)
  let ?out = "processOperation now (ids 0) (heap x) r"
  obtain h2 r2 P2 L2 where rest:
    "drain now (\<lambda>k. ids (Suc k)) xs (heap_after heap x (succeeded ?out), snd ?out, [], [])
       = (h2, r2, P2, L2)"
    by (metis prod_cases4)
  from drain_step[OF rest] Cons.prems(1)
  have L': "L' = (x, succeeded ?out) # L2" and r': "r' = r2" by simp_all
  have agree: "\<forall>y \<in> set xs. heap_after heap x (succeeded ?out) y = heap0 y"
    using Cons.prems(2,3) by (auto simp: heap_after_def)
  have hx: "heap x = heap0 x" using Cons.prems(3) by simp
  have dxs: "distinct xs" using Cons.prems(2) by simp
  from Cons.IH[OF rest dxs agree]
  have "L2 = zip xs (fst (pass_results now (\<lambda>k. ids (Suc k)) xs heap0 (snd ?out)))
      \<and> r2 = snd (pass_results now (\<lambda>k. ids (Suc k)) xs heap0 (snd ?out))" .
  then show ?case using L' r' hx by (simp add: split_beta)
qed

lemma zip_distinct_nth:
  assumes "distinct q" and "length oks = length q" and "k < length q"
  shows "(q ! k, b) \<in> set (zip q oks) \<longleftrightarrow> oks ! k = b"
  using assms by (auto simp: set_zip nth_eq_iff_index_eq)

lemma count_distinct_fst:
  "distinct (map fst L) \<Longrightarrow>
     length (filter (\<lambda>c. c = e) L) = (if e \<in> set L then 1 else 0)"
proof (induction L)
  case Nil
  show ?case by simp
next
  case (Cons c L)
  then have "fst c \<notin> fst ` set L" by simp
  then have "c \<notin> set L" by (metis imageI)
  then show ?case using Cons by auto
qed

lemma processQueue_pass:
  assumes "syncQueue svc \<noteq> []" and "getCurrentUser r = (Some u, r1)" and "\<not> isGuest u"
    and "drain now ids (syncQueue svc) (ops svc, r1, [], []) = (h', r2, P, L)"
  shows "ops (fst (snd (processQueue now ids (svc, r)))) = h'"
    and "attempted (fst (snd (processQueue now ids (svc, r)))) = attempted svc @ L"
    and "syncQueue (fst (snd (processQueue now ids (svc, r))))
           = filter (\<lambda>x. x \<notin> set P) (syncQueue svc)"
    and "snd (snd (processQueue now ids (svc, r))) = r2"
  using assms by (simp_all add: processQueue_def Let_def updateSyncStatus_def)

lemma processQueue_idle:
  assumes "case fst (getCurrentUser r) of None \<Rightarrow> True | Some g \<Rightarrow> isGuest g"
  shows "syncQueue (fst (snd (processQueue now ids (svc, r)))) = syncQueue svc"
    and "ops (fst (snd (processQueue now ids (svc, r)))) = ops svc"
    and "attempted (fst (snd (processQueue now ids (svc, r)))) = attempted svc"
  using assms
  by (cases "getCurrentUser r"; simp add: processQueue_def Let_def updateSyncStatus_def)+

lemma processQueue_failures:
  assumes "queue_inv svc"
  shows "\<exists>D. attempted (fst (snd (processQueue now ids (svc, r)))) = attempted svc @ D
           \<and> retries (ops (fst (snd (processQueue now ids (svc, r)))) x)
               = retries (ops svc x) + int (failures_of x D)"
proof -
  let ?svc' = "fst (snd (processQueue now ids (svc, r)))"
  from processQueue_cases[of now ids svc r]
  consider (idle) "ops ?svc' = ops svc" "attempted ?svc' = attempted svc"
    | (pass) h' r2 P L where
      "drain now ids (syncQueue svc) (ops svc, snd (getCurrentUser r), [], []) = (h', r2, P, L)"
      "ops ?svc' = h'" "attempted ?svc' = attempted svc @ L"
    by blast
  then show ?thesis
  proof cases
    case idle
    then have "attempted ?svc' = attempted svc @ []
        \<and> retries (ops ?svc' x) = retries (ops svc x) + int (failures_of x [])"
      by (simp add: failures_of_def)
    then show ?thesis by blast
  next
    case pass
    have dq: "distinct (syncQueue svc)" using assms by (simp add: queue_inv_def)
    have calls: "map fst L = syncQueue svc" using drain_calls[OF pass(1)] .
    have cnt: "failures_of x L = (if (x, False) \<in> set L then 1 else 0)"
      using count_distinct_fst[of L "(x, False)"] calls dq by (simp add: failures_of_def)
    have "retries (h' x) = retries (ops svc x) + int (failures_of x L)"
    proof (cases "x \<in> set (syncQueue svc)")
      case True
      from drain_operation[OF pass(1) dq True] show ?thesis using cnt by simp
    next
      case False
      then have "(x, False) \<notin> set L" using calls by (metis fst_conv image_eqI set_map)
      then show ?thesis using drain_frame[OF pass(1) False] cnt by simp
    qed
    then show ?thesis using pass(2,3) by blast
  qed
qed

lemma failures_of_append:
  "failures_of x (xs @ ys) = failures_of x xs + failures_of x ys"
  by (simp add: failures_of_def)

lemma queueOperation_failures:
  fixes now ids operation r
  assumes "queue_inv svc" and "x < next_ref svc"
  shows "\<exists>D. attempted (fst (queueOperation now ids operation (svc, r))) = attempted svc @ D
           \<and> retries (ops (fst (queueOperation now ids operation (svc, r))) x)
               = retries (ops svc x) + int (failures_of x D)"
proof -
  define pushed where "pushed =
     updateSyncStatus (\<lambda>st. st\<lparr>pending_changes := length (syncQueue svc @ [next_ref svc])\<rparr>)
       (svc\<lparr>ops := (ops svc)(next_ref svc := operation),
            syncQueue := syncQueue svc @ [next_ref svc],
            next_ref := Suc (next_ref svc)\<rparr>)"
  have svc': "fst (queueOperation now ids operation (svc, r))
                = fst (snd (processQueue now ids (pushed, r)))"
    by (simp add: queueOperation_def Let_def pushed_def split: prod.splits)
  have inv: "queue_inv pushed"
    using assms(1)
    by (auto simp: pushed_def queue_inv_def updateSyncStatus_def list_all_iff)
  have same: "attempted pushed = attempted svc" "ops pushed x = ops svc x"
    using assms(2) by (auto simp: pushed_def updateSyncStatus_def)
  from processQueue_failures[OF inv, of now ids r x] show ?thesis
    by (simp add: svc' same)
qed

lemma run_failures:
  "queue_inv svc \<Longrightarrow> x < next_ref svc \<Longrightarrow>
     \<exists>D. attempted (run calls svc) = attempted svc @ D
        \<and> retries (ops (run calls svc) x) = retries (ops svc x) + int (failures_of x D)"
proof (induction calls arbitrary: svc)
  case Nil
  have "attempted svc = attempted svc @ []
      \<and> retries (ops svc x) = retries (ops svc x) + int (failures_of x [])"
    by (simp add: failures_of_def)
  then show ?case by (metis run.simps(1))
next
  case (Cons c calls)
  obtain call now ids r where c: "c = (call, now, ids, r)"
    by (metis prod_cases4)
  show ?case
  proof (cases call)
    case (QueueOperation operation)
    let ?svc' = "fst (queueOperation now ids operation (svc, r))"
    note st = queueOperation_steps[OF Cons.prems, of now ids operation r]
    from queueOperation_failures[OF Cons.prems, of now ids operation r]
    obtain D1 where D1: "attempted ?svc' = attempted svc @ D1"
      "retries (ops ?svc' x) = retries (ops svc x) + int (failures_of x D1)" by blast
    from Cons.IH[OF st(1) st(2)]
    obtain D2 where D2: "attempted (run calls ?svc') = attempted ?svc' @ D2"
      "retries (ops (run calls ?svc') x) = retries (ops ?svc' x) + int (failures_of x D2)"
      by blast
    have "attempted (run (c # calls) svc) = attempted svc @ (D1 @ D2)
        \<and> retries (ops (run (c # calls) svc) x)
            = retries (ops svc x) + int (failures_of x (D1 @ D2))"
      using c QueueOperation D1 D2 by (simp add: failures_of_append)
    then show ?thesis by blast
  next
    case ProcessQueue
    let ?svc' = "fst (snd (processQueue now ids (svc, r)))"
    have inv: "queue_inv ?svc'" and nr: "x < next_ref ?svc'"
      using processQueue_inv[OF Cons.prems(1), of now ids r] Cons.prems(2) by simp_all
    from processQueue_failures[OF Cons.prems(1), of now ids r x]
    obtain D1 where D1: "attempted ?svc' = attempted svc @ D1"
      "retries (ops ?svc' x) = retries (ops svc x) + int (failures_of x D1)" by blast
    from Cons.IH[OF inv nr]
    obtain D2 where D2: "attempted (run calls ?svc') = attempted ?svc' @ D2"
      "retries (ops (run calls ?svc') x) = retries (ops ?svc' x) + int (failures_of x D2)"
      by blast
    have "attempted (run (c # calls) svc) = attempted svc @ (D1 @ D2)
        \<and> retries (ops (run (c # calls) svc) x)
            = retries (ops svc x) + int (failures_of x (D1 @ D2))"
      using c ProcessQueue D1 D2 by (simp add: failures_of_append)
    then show ?thesis by blast
  qed
qed

lemma pass_outcome:
  fixes now ids k
  assumes inv: "queue_inv svc" and auth: "getCurrentUser r = (Some u, r1)" "\<not> isGuest u"
  defines "svc' \<equiv> fst (snd (processQueue now ids (svc, r)))"
    and "oks \<equiv> fst (pass_results now ids (syncQueue svc) (ops svc) r1)"
  shows "pass_calls svc svc' = zip (syncQueue svc) oks
       \<and> length oks = length (syncQueue svc)
       \<and> (syncQueue svc \<noteq> [] \<longrightarrow> snd (snd (processQueue now ids (svc, r)))
           = snd (pass_results now ids (syncQueue svc) (ops svc) r1))
       \<and> (k < length (syncQueue svc) \<longrightarrow>
           retries (ops svc' (syncQueue svc ! k))
             = retries (ops svc (syncQueue svc ! k)) + (if oks ! k then 0 else 1)
         \<and> (syncQueue svc ! k \<in> set (syncQueue svc')
              \<longleftrightarrow> \<not> oks ! k \<and> retries (ops svc' (syncQueue svc ! k)) < 3))
       \<and> syncQueue svc' = filter (\<lambda>x. x \<in> set (syncQueue svc')) (syncQueue svc)"
proof (cases "syncQueue svc = []")
  case True
  then show ?thesis
    by (simp add: svc'_def oks_def processQueue_def pass_calls_def)
next
  case False
  have dq: "distinct (syncQueue svc)" using inv by (simp add: queue_inv_def)
  have len: "length oks = length (syncQueue svc)"
    by (simp add: oks_def pass_results_length)
  obtain h' r2 P L where d:
    "drain now ids (syncQueue svc) (ops svc, r1, [], []) = (h', r2, P, L)"
    by (metis prod_cases4)
  note f = processQueue_pass[OF False auth d]
  have res: "L = zip (syncQueue svc) oks"
    "r2 = snd (pass_results now ids (syncQueue svc) (ops svc) r1)"
    using drain_results[OF d dq, of "ops svc"] by (simp_all add: oks_def)
  have pc: "pass_calls svc svc' = L" by (simp add: pass_calls_def svc'_def f(2))
  have each: "retries (h' (syncQueue svc ! k))
           = retries (ops svc (syncQueue svc ! k)) + (if oks ! k then 0 else 1)
       \<and> (syncQueue svc ! k \<in> set (filter (\<lambda>x. x \<notin> set P) (syncQueue svc))
            \<longleftrightarrow> \<not> oks ! k \<and> retries (h' (syncQueue svc ! k)) < 3)"
    if k: "k < length (syncQueue svc)"
  proof -
    have x: "syncQueue svc ! k \<in> set (syncQueue svc)" using k by simp
    have m: "(syncQueue svc ! k, b) \<in> set L \<longleftrightarrow> oks ! k = b" for b
      using zip_distinct_nth[OF dq len k] by (simp add: res(1))
    from drain_operation[OF d dq x] show ?thesis
      using x m[of False] m[of True] by auto
  qed
  have order: "filter (\<lambda>x. x \<notin> set P) (syncQueue svc)
         = filter (\<lambda>x. x \<in> set (filter (\<lambda>x. x \<notin> set P) (syncQueue svc))) (syncQueue svc)"
    by (rule filter_cong) auto
  have q': "syncQueue svc' = filter (\<lambda>x. x \<notin> set P) (syncQueue svc)"
    and o': "ops svc' = h'"
    using f(1,3) by (simp_all add: svc'_def)
  show ?thesis
    unfolding q' o' pc using res each order f(4) len by blast
qed

text \<open>
  C3. Take a queue that holds each operation once. A drain pass made by an authenticated
  user calls \<^verbatim>\<open>processOperation\<close> on the operations in queue order, each once, each call
  against the backend as the call before left it; the backend after the pass is the one
  the last call left. A call that throws adds one to the \<open>retries\<close> of its operation, a
  call that returns leaves them; the operation stays in the queue, at its place, exactly
  if its call threw and its \<open>retries\<close> are still below 3 (so it leaves the queue exactly
  when its call returned or its \<open>retries\<close> reached 3). A pass made without an
  authenticated user tries nothing and leaves queue and operations as they are. Over any
  later history of passes and of newly queued operations (each call finished before the
  next starts), the \<open>retries\<close> of an operation grow by exactly the number of its failed
  tries; an operation in the queue is tried at most 3 minus its \<open>retries\<close> times (once,
  if that is less), so that an operation queued with no retries is never tried a fourth
  time; and an operation that left the queue is never tried again.
\<close>

theorem retry_ceiling:
  assumes "queue_inv svc"
  shows "(getCurrentUser r = (Some u, r1) \<and> \<not> isGuest u \<longrightarrow>
           (let svc' = fst (snd (processQueue now ids (svc, r)));
                oks = fst (pass_results now ids (syncQueue svc) (ops svc) r1)
            in pass_calls svc svc' = zip (syncQueue svc) oks
             \<and> length oks = length (syncQueue svc)
             \<and> (syncQueue svc \<noteq> [] \<longrightarrow>
                  snd (snd (processQueue now ids (svc, r)))
                    = snd (pass_results now ids (syncQueue svc) (ops svc) r1))
             \<and> (\<forall>k < length (syncQueue svc).
                  retries (ops svc' (syncQueue svc ! k))
                    = retries (ops svc (syncQueue svc ! k)) + (if oks ! k then 0 else 1)
                \<and> (syncQueue svc ! k \<in> set (syncQueue svc')
                     \<longleftrightarrow> \<not> oks ! k \<and> retries (ops svc' (syncQueue svc ! k)) < 3))
             \<and> syncQueue svc' = filter (\<lambda>x. x \<in> set (syncQueue svc')) (syncQueue svc)
             \<and> (\<forall>x rest. syncQueue svc = x # rest \<longrightarrow>
                  retries (ops svc' x)
                    = retries (ops svc x)
                      + (if succeeded (processOperation now (ids 0) (ops svc x) r1)
                         then 0 else 1)
                \<and> (x \<in> set (syncQueue svc')
                     \<longleftrightarrow> \<not> succeeded (processOperation now (ids 0) (ops svc x) r1)
                          \<and> retries (ops svc x) + 1 < 3))))
       \<and> ((case fst (getCurrentUser r) of None \<Rightarrow> True | Some g \<Rightarrow> isGuest g) \<longrightarrow>
            syncQueue (fst (snd (processQueue now ids (svc, r)))) = syncQueue svc
          \<and> ops (fst (snd (processQueue now ids (svc, r)))) = ops svc
          \<and> attempted (fst (snd (processQueue now ids (svc, r)))) = attempted svc)
       \<and> (\<forall>calls x. x < next_ref svc \<longrightarrow>
            retries (ops (run calls svc) x)
              = retries (ops svc x)
                + int (failures_of x (drop (length (attempted svc))
                                         (attempted (run calls svc)))))
       \<and> (\<forall>calls x. x \<in> set (syncQueue svc) \<longrightarrow>
            attempts_of x (attempted (run calls svc))
              \<le> attempts_of x (attempted svc) + max 1 (nat (3 - retries (ops svc x))))
       \<and> (\<forall>calls x. x < next_ref svc \<and> x \<notin> set (syncQueue svc) \<longrightarrow>
            attempts_of x (attempted (run calls svc)) = attempts_of x (attempted svc))"
proof -
  have alloc: "\<forall>x \<in> set (syncQueue svc). x < next_ref svc"
    using assms by (simp add: queue_inv_def list_all_iff)
  have pass: "let svc' = fst (snd (processQueue now ids (svc, r)));
                oks = fst (pass_results now ids (syncQueue svc) (ops svc) r1)
            in pass_calls svc svc' = zip (syncQueue svc) oks
             \<and> length oks = length (syncQueue svc)
             \<and> (syncQueue svc \<noteq> [] \<longrightarrow>
                  snd (snd (processQueue now ids (svc, r)))
                    = snd (pass_results now ids (syncQueue svc) (ops svc) r1))
             \<and> (\<forall>k < length (syncQueue svc).
                  retries (ops svc' (syncQueue svc ! k))
                    = retries (ops svc (syncQueue svc ! k)) + (if oks ! k then 0 else 1)
                \<and> (syncQueue svc ! k \<in> set (syncQueue svc')
                     \<longleftrightarrow> \<not> oks ! k \<and> retries (ops svc' (syncQueue svc ! k)) < 3))
             \<and> syncQueue svc' = filter (\<lambda>x. x \<in> set (syncQueue svc')) (syncQueue svc)
             \<and> (\<forall>x rest. syncQueue svc = x # rest \<longrightarrow>
                  retries (ops svc' x)
                    = retries (ops svc x)
                      + (if succeeded (processOperation now (ids 0) (ops svc x) r1)
                         then 0 else 1)
                \<and> (x \<in> set (syncQueue svc')
                     \<longleftrightarrow> \<not> succeeded (processOperation now (ids 0) (ops svc x) r1)
                          \<and> retries (ops svc x) + 1 < 3))"
    if auth: "getCurrentUser r = (Some u, r1)" "\<not> isGuest u"
  proof -
    let ?svc' = "fst (snd (processQueue now ids (svc, r)))"
    let ?oks = "fst (pass_results now ids (syncQueue svc) (ops svc) r1)"
    note po = pass_outcome[OF assms auth, of now ids]
    have head: "retries (ops ?svc' x)
                    = retries (ops svc x)
                      + (if succeeded (processOperation now (ids 0) (ops svc x) r1)
                         then 0 else 1)
                \<and> (x \<in> set (syncQueue ?svc')
                     \<longleftrightarrow> \<not> succeeded (processOperation now (ids 0) (ops svc x) r1)
                          \<and> retries (ops svc x) + 1 < 3)"
      if q: "syncQueue svc = x # rest" for x rest
    proof -
      have ok0: "?oks ! 0 = succeeded (processOperation now (ids 0) (ops svc x) r1)"
        by (simp add: q split_beta)
      from po[of 0] show ?thesis
        unfolding ok0 using q by auto
    qed
    from po head show ?thesis
      unfolding Let_def by blast
  qed
  have idle: "syncQueue (fst (snd (processQueue now ids (svc, r)))) = syncQueue svc
          \<and> ops (fst (snd (processQueue now ids (svc, r)))) = ops svc
          \<and> attempted (fst (snd (processQueue now ids (svc, r)))) = attempted svc"
    if "case fst (getCurrentUser r) of None \<Rightarrow> True | Some g \<Rightarrow> isGuest g"
    using processQueue_idle[OF that] by simp
  have tie: "\<forall>calls x. x < next_ref svc \<longrightarrow>
            retries (ops (run calls svc) x)
              = retries (ops svc x)
                + int (failures_of x (drop (length (attempted svc))
                                         (attempted (run calls svc))))"
  proof (intro allI impI)
    fix calls x assume x: "x < next_ref svc"
    from run_failures[OF assms x, of calls]
    obtain D where D: "attempted (run calls svc) = attempted svc @ D"
      "retries (ops (run calls svc) x) = retries (ops svc x) + int (failures_of x D)"
      by blast
    show "retries (ops (run calls svc) x)
              = retries (ops svc x)
                + int (failures_of x (drop (length (attempted svc))
                                         (attempted (run calls svc))))"
      by (simp add: D)
  qed
  have bound: "\<forall>calls x. x \<in> set (syncQueue svc) \<longrightarrow>
            attempts_of x (attempted (run calls svc))
              \<le> attempts_of x (attempted svc) + max 1 (nat (3 - retries (ops svc x)))"
  proof (intro allI impI)
    fix calls x assume x: "x \<in> set (syncQueue svc)"
    then have "x < next_ref svc" using alloc by blast
    from run_potential[OF assms this, of calls]
    show "attempts_of x (attempted (run calls svc))
              \<le> attempts_of x (attempted svc) + max 1 (nat (3 - retries (ops svc x)))"
      using x by (simp add: retry_budget_def)
  qed
  have gone: "\<forall>calls x. x < next_ref svc \<and> x \<notin> set (syncQueue svc) \<longrightarrow>
            attempts_of x (attempted (run calls svc)) = attempts_of x (attempted svc)"
  proof (intro allI impI)
    fix calls x assume x: "x < next_ref svc \<and> x \<notin> set (syncQueue svc)"
    from run_potential[OF assms, of x calls] x
    show "attempts_of x (attempted (run calls svc)) = attempts_of x (attempted svc)"
      by (simp add: retry_budget_def)
  qed
  show ?thesis using pass idle tie bound gone by blast
qed

lemma sample_service_facts:
  "queue_inv sample_service"
  "getCurrentUser offline_remote = (Some sample_user, offline_remote)"
  "\<not> isGuest sample_user"
  "retries (ops sample_service 0) = 0"
  "0 \<in> set (syncQueue sample_service)"
  by code_simp+

text \<open>
  Against an unreachable backend the queued expense creation (reference 0) fails in each
  pass and the goal-template operation (reference 1) succeeds in the first: after four
  passes the creation has been tried three times and the queue is empty, and four more
  passes try nothing.
\<close>

lemma four_passes_trace:
  "attempted (run four_passes sample_service)
     = [(0, False), (1, True), (0, False), (0, False)]
   \<and> syncQueue (run four_passes sample_service) = []
   \<and> retries (ops (run four_passes sample_service) 0) = 3"
  by code_simp

lemma eight_passes_trace:
  "attempted (run (four_passes @ four_passes) sample_service)
     = [(0, False), (1, True), (0, False), (0, False)]"
  by code_simp

theorem retry_ceiling_witness:
  "queue_inv sample_service
   \<and> getCurrentUser offline_remote = (Some sample_user, offline_remote)
   \<and> \<not> isGuest sample_user
   \<and> \<not> succeeded (processOperation 2000 (server_ids 0) (ops sample_service 0) offline_remote)
   \<and> pass_calls sample_service
         (fst (snd (processQueue 2000 server_ids (sample_service, offline_remote))))
       = [(0, False), (1, True)]
   \<and> retries (ops (fst (snd (processQueue 2000 server_ids (sample_service, offline_remote)))) 0)
       = 1
   \<and> 0 \<in> set (syncQueue (fst (snd (processQueue 2000 server_ids
                                      (sample_service, offline_remote)))))
   \<and> 1 \<notin> set (syncQueue (fst (snd (processQueue 2000 server_ids
                                      (sample_service, offline_remote)))))
   \<and> attempted (run four_passes sample_service)
       = [(0, False), (1, True), (0, False), (0, False)]
   \<and> syncQueue (run four_passes sample_service) = []
   \<and> retries (ops (run four_passes sample_service) 0) = 3
   \<and> attempts_of 0 (attempted (run (four_passes @ four_passes) sample_service)) \<le> 3
   \<and> attempted (run (four_passes @ four_passes) sample_service)
       = [(0, False), (1, True), (0, False), (0, False)]"
proof -
  note t = retry_ceiling[OF sample_service_facts(1),
      of offline_remote sample_user offline_remote 2000 server_ids]
  have q: "syncQueue sample_service = [0, 1]" "attempted sample_service = []"
    by (simp_all add: sample_service_def)
  have oks: "fst (pass_results 2000 server_ids [0, 1] (ops sample_service) offline_remote)
               = [False, True]"
    by code_simp
  have fails: "\<not> succeeded (processOperation 2000 (server_ids 0) (ops sample_service 0)
                             offline_remote)"
    by code_simp
  from t sample_service_facts(2,3)
  have p: "pass_calls sample_service
         (fst (snd (processQueue 2000 server_ids (sample_service, offline_remote))))
       = zip [0, 1] [False, True]"
    and each: "\<forall>k < 2.
        retries (ops (fst (snd (processQueue 2000 server_ids (sample_service, offline_remote))))
                   ([0, 1] ! k))
          = retries (ops sample_service ([0, 1] ! k)) + (if [False, True] ! k then 0 else 1)
      \<and> ([0, 1] ! k \<in> set (syncQueue (fst (snd (processQueue 2000 server_ids
                                                  (sample_service, offline_remote)))))
           \<longleftrightarrow> \<not> [False, True] ! k
                \<and> retries (ops (fst (snd (processQueue 2000 server_ids
                                            (sample_service, offline_remote))))
                             ([0, 1] ! k)) < 3)"
    unfolding Let_def q oks by simp_all
  have 1: "pass_calls sample_service
         (fst (snd (processQueue 2000 server_ids (sample_service, offline_remote))))
       = [(0, False), (1, True)]"
    using p by simp
  from each[rule_format, of 0] sample_service_facts(4)
  have 2: "retries (ops (fst (snd (processQueue 2000 server_ids
                                    (sample_service, offline_remote)))) 0) = 1"
    "0 \<in> set (syncQueue (fst (snd (processQueue 2000 server_ids
                                      (sample_service, offline_remote)))))"
    by simp_all
  from each[rule_format, of 1]
  have 3: "1 \<notin> set (syncQueue (fst (snd (processQueue 2000 server_ids
                                      (sample_service, offline_remote)))))"
    by simp
  have "attempts_of 0 (attempted (run (four_passes @ four_passes) sample_service))
          \<le> attempts_of 0 (attempted sample_service)
             + max 1 (nat (3 - retries (ops sample_service 0)))"
    using t sample_service_facts(5) by blast
  then have 4: "attempts_of 0 (attempted (run (four_passes @ four_passes) sample_service)) \<le> 3"
    using sample_service_facts(4) by (simp add: q(2) attempts_of_def)
  show ?thesis
    using sample_service_facts(1,2,3) fails 1 2 3 4 four_passes_trace eight_passes_trace
    by simp
qed

subsection \<open>Bulk reconciliation: last write wins\<close>

text \<open>List facts used below.\<close>

lemma find_append_Some: "find P xs = Some x \<Longrightarrow> find P (xs @ ys) = Some x"
  by (induction xs) (auto split: if_splits)

lemma find_filter_weaker: "(\<And>x. P x \<Longrightarrow> Q x) \<Longrightarrow> find P (filter Q xs) = find P xs"
  by (induction xs) auto

lemma find_update_other:
  "k < length xs \<Longrightarrow> \<not> P (xs ! k) \<Longrightarrow> \<not> P y \<Longrightarrow> find P (xs[k := y]) = find P xs"
proof (induction xs arbitrary: k)
  case Nil
  then show ?case by simp
next
  case (Cons x xs)
  then show ?case by (cases k) auto
qed

lemma find_update_first:
  "findIndex P xs = Some k \<Longrightarrow> P y \<Longrightarrow> find P (xs[k := y]) = Some y"
proof (induction xs arbitrary: k)
  case Nil
  then show ?case by simp
next
  case (Cons x xs)
  then show ?case by (cases k) (auto split: if_splits)
qed

lemma find_findIndex:
  "find P xs = Some x \<Longrightarrow> \<exists>k. findIndex P xs = Some k \<and> xs ! k = x"
  by (induction xs) (auto split: if_splits)

lemma find_distinct_key:
  "distinct (map f xs) \<Longrightarrow> x \<in> set xs \<Longrightarrow> find (\<lambda>y. f y = f x) xs = Some x"
proof (induction xs)
  case Nil
  then show ?case by simp
next
  case (Cons a xs)
  show ?case
  proof (cases "a = x")
    case True
    then show ?thesis by simp
  next
    case False
    then have "x \<in> set xs" using Cons.prems(2) by simp
    moreover have "f a \<noteq> f x" using Cons.prems(1) \<open>x \<in> set xs\<close> by auto
    ultimately show ?thesis using Cons by simp
  qed
qed

lemma filter_distinct_key:
  "distinct (map f xs) \<Longrightarrow> x \<in> set xs \<Longrightarrow> filter (\<lambda>y. f y = f x) xs = [x]"
proof (induction xs)
  case Nil
  then show ?case by simp
next
  case (Cons a xs)
  show ?case
  proof (cases "a = x")
    case True
    have "f x \<notin> f ` set xs" using Cons.prems(1) True by simp
    then have "\<forall>y \<in> set xs. f y \<noteq> f x" by (metis imageI)
    then have "filter (\<lambda>y. f y = f x) xs = []" by (simp add: filter_empty_conv)
    then show ?thesis using True by simp
  next
    case False
    then have "x \<in> set xs" using Cons.prems(2) by simp
    moreover have "f a \<noteq> f x" using Cons.prems(1) \<open>x \<in> set xs\<close> by auto
    ultimately show ?thesis using Cons by simp
  qed
qed

lemma distinct_map_insort_key:
  "distinct (map g (insort_key f x xs)) \<longleftrightarrow> g x \<notin> g ` set xs \<and> distinct (map g xs)"
  by (induction xs) (auto simp: set_insort_key)

lemma distinct_map_sort_key:
  "distinct (map g (sort_key f xs)) \<longleftrightarrow> distinct (map g xs)"
  by (induction xs) (auto simp: distinct_map_insort_key)

subsubsection \<open>The Local Store in working order\<close>

lemma good_get: "good_store now s \<Longrightarrow> getExpenses now s = (stored_expenses s, s)"
  by (auto simp: good_store_def getExpenses_def stored_expenses_def)

lemma good_save:
  assumes "good_store now s"
  shows "good_store now (saveExpenses now xs s)"
    and "stored_expenses (saveExpenses now xs s) = xs"
  using assms
  by (auto simp: good_store_def saveExpenses_def stamp_expiry_def setExpiryDate_def
      isDataExpired_def stored_expenses_def Let_def EXPIRY_DAYS_def MS_PER_DAY_def
      split: option.splits)

lemma good_add:
  assumes "good_store now s"
  shows "good_store now (snd (addExpense now new_id e s))"
    and "stored_expenses (snd (addExpense now new_id e s))
           = stored_expenses s @ [e\<lparr>expense_id := new_id, created_at := now\<rparr>]"
  using good_save[OF assms] good_get[OF assms]
  by (simp_all add: addExpense_def Let_def)

lemma good_delete:
  assumes "good_store now s"
  shows "good_store now (snd (deleteExpense now j s))"
    and "stored_expenses (snd (deleteExpense now j s))
           = filter (\<lambda>e. expense_id e \<noteq> j) (stored_expenses s)"
  using good_save[OF assms] good_get[OF assms]
  by (simp_all add: deleteExpense_def Let_def)

lemma good_update:
  assumes "good_store now s"
  shows "good_store now (snd (updateExpense now j u s))"
    and "stored_expenses (snd (updateExpense now j u s))
           = (case findIndex (\<lambda>e. expense_id e = j) (stored_expenses s) of
                None \<Rightarrow> stored_expenses s
              | Some k \<Rightarrow> (stored_expenses s)
                            [k := (apply_updates (stored_expenses s ! k) u)\<lparr>updated_at := Some now\<rparr>])"
  using good_save[OF assms] good_get[OF assms] assms
  by (simp_all add: updateExpense_def Let_def split: option.splits)

lemma apply_updates_id [simp]:
  "u_id u = None \<Longrightarrow> expense_id (apply_updates e u) = expense_id e"
  by (simp add: apply_updates_def)

lemma local_record_add:
  assumes "good_store now s" and "local_record i s = Some l"
  shows "local_record i (snd (addExpense now new_id e s)) = Some l"
  using assms(2) good_add(2)[OF assms(1)]
  by (simp add: local_record_def find_append_Some)

lemma local_record_update_other:
  assumes "good_store now s" and "j \<noteq> i" and "u_id u = None"
  shows "local_record i (snd (updateExpense now j u s)) = local_record i s"
proof (cases "findIndex (\<lambda>e. expense_id e = j) (stored_expenses s)")
  case None
  then show ?thesis using good_update(2)[OF assms(1), of j u] by (simp add: local_record_def)
next
  case (Some k)
  note k = findIndex_Some_less[OF Some]
  have "find (\<lambda>e. expense_id e = i)
          ((stored_expenses s)[k := (apply_updates (stored_expenses s ! k) u)\<lparr>updated_at := Some now\<rparr>])
        = find (\<lambda>e. expense_id e = i) (stored_expenses s)"
    using k assms(2,3) by (intro find_update_other) auto
  then show ?thesis
    using good_update(2)[OF assms(1), of j u] Some by (simp add: local_record_def)
qed

lemma local_record_update_target:
  assumes "good_store now s" and "local_record i s = Some l" and "u_id u = None"
  shows "local_record i (snd (updateExpense now i u s))
           = Some ((apply_updates l u)\<lparr>updated_at := Some now\<rparr>)"
proof -
  obtain k where k: "findIndex (\<lambda>e. expense_id e = i) (stored_expenses s) = Some k"
    and at: "stored_expenses s ! k = l"
    using find_findIndex[of "\<lambda>e. expense_id e = i" "stored_expenses s" l] assms(2)
    by (auto simp: local_record_def)
  have idl: "expense_id l = i"
    using findIndex_Some_less[OF k] at by simp
  have "find (\<lambda>e. expense_id e = i)
          ((stored_expenses s)[k := (apply_updates l u)\<lparr>updated_at := Some now\<rparr>])
        = Some ((apply_updates l u)\<lparr>updated_at := Some now\<rparr>)"
    using assms(3) idl by (intro find_update_first[OF k]) simp
  then show ?thesis
    using good_update(2)[OF assms(1), of i u] k at by (simp add: local_record_def)
qed

subsubsection \<open>The backend with a signed-in user\<close>

lemma signed_in_user: "signed_in u r \<Longrightarrow> getCurrentUser r = (Some u, r)"
  by (simp add: signed_in_def getCurrentUser_def)

lemma signed_in_ensure: "signed_in u r \<Longrightarrow> ensureAuthenticated r = (Inr (uid u), r)"
  by (simp add: ensureAuthenticated_def signed_in_user)

lemma remote_add:
  assumes "signed_in u r"
  shows "signed_in u (snd (supabase_addExpense now new_id e r))"
    and "remote_rows i r \<noteq> [] \<Longrightarrow>
           remote_rows i (snd (supabase_addExpense now new_id e r)) = remote_rows i r"
proof -
  show "signed_in u (snd (supabase_addExpense now new_id e r))"
    using assms signed_in_ensure[OF assms]
    by (auto simp: supabase_addExpense_def signed_in_def Let_def)
  assume rows: "remote_rows i r \<noteq> []"
  then have "i \<in> expense_id ` set (expenses_table r)"
    by (auto simp: remote_rows_def filter_empty_conv)
  then show "remote_rows i (snd (supabase_addExpense now new_id e r)) = remote_rows i r"
    using assms signed_in_ensure[OF assms]
    by (auto simp: supabase_addExpense_def signed_in_def Let_def remote_rows_def)
qed

lemma filter_singleton_holds:
  assumes "filter P xs = [x]"
  shows "P x"
proof -
  have "x \<in> set (filter P xs)" using assms by simp
  then show ?thesis by simp
qed

lemma filter_map_keeps:
  "(\<And>x. P (f x) = P x) \<Longrightarrow> (\<And>x. P x \<Longrightarrow> f x = g x)
     \<Longrightarrow> filter P (map f xs) = map g (filter P xs)"
  by (induction xs) auto

lemma remote_update_other:
  assumes "signed_in u r" and "j \<noteq> i" and "u_id upd = None"
  shows "signed_in u (snd (supabase_updateExpense now j upd r))"
    and "remote_rows i (snd (supabase_updateExpense now j upd r)) = remote_rows i r"
proof -
  let ?concerned = "\<lambda>row. expense_id row = j \<and> user_id row = Some (uid u)"
  let ?change = "\<lambda>row. (apply_updates row upd)\<lparr>updated_at := Some now\<rparr>"
  let ?f = "\<lambda>x. if ?concerned x then ?change x else x"
  have keep: "filter (\<lambda>row. expense_id row = i) (map ?f (expenses_table r))
                = map (\<lambda>x. x) (filter (\<lambda>row. expense_id row = i) (expenses_table r))"
    using assms(2,3) by (intro filter_map_keeps) auto
  show "signed_in u (snd (supabase_updateExpense now j upd r))"
    using assms(1) signed_in_ensure[OF assms(1)]
    by (auto simp: supabase_updateExpense_def signed_in_def Let_def split: list.splits)
  show "remote_rows i (snd (supabase_updateExpense now j upd r)) = remote_rows i r"
    using assms(1) signed_in_ensure[OF assms(1)] keep
    by (auto simp: supabase_updateExpense_def signed_in_def Let_def remote_rows_def
        split: list.splits)
qed

lemma remote_update_target:
  assumes "signed_in u r" and "remote_rows i r = [sv]" and "user_id sv = Some (uid u)"
    and "u_id upd = None"
  shows "fst (supabase_updateExpense now i upd r)
           = Inr ((apply_updates sv upd)\<lparr>updated_at := Some now\<rparr>)"
    and "remote_rows i (snd (supabase_updateExpense now i upd r))
           = [(apply_updates sv upd)\<lparr>updated_at := Some now\<rparr>]"
    and "signed_in u (snd (supabase_updateExpense now i upd r))"
proof -
  let ?concerned = "\<lambda>row. expense_id row = i \<and> user_id row = Some (uid u)"
  let ?change = "\<lambda>row. (apply_updates row upd)\<lparr>updated_at := Some now\<rparr>"
  let ?f = "\<lambda>x. if ?concerned x then ?change x else x"
  have one: "filter ?concerned (expenses_table r) = [sv]"
  proof -
    have "filter ?concerned (expenses_table r)
          = filter (\<lambda>row. user_id row = Some (uid u))
              (filter (\<lambda>row. expense_id row = i) (expenses_table r))"
      by (simp add: conj_commute)
    also have "\<dots> = filter (\<lambda>row. user_id row = Some (uid u)) [sv]"
      using assms(2) by (simp only: remote_rows_def)
    also have "\<dots> = [sv]" using assms(3) by simp
    finally show ?thesis .
  qed
  have "sv \<in> set (filter (\<lambda>row. expense_id row = i) (expenses_table r))"
    using assms(2) by (simp add: remote_rows_def)
  then have idsv: "expense_id sv = i" by simp
  have "filter (\<lambda>row. expense_id row = i) (map ?f (expenses_table r))
          = map ?f (filter (\<lambda>row. expense_id row = i) (expenses_table r))"
    using assms(4) by (intro filter_map_keeps) auto
  then have rows: "filter (\<lambda>row. expense_id row = i) (map ?f (expenses_table r)) = [?change sv]"
    using assms(2,3) idsv by (simp add: remote_rows_def)
  have out: "supabase_updateExpense now i upd r
          = (Inr (?change sv), r\<lparr>expenses_table := map ?f (expenses_table r)\<rparr>)"
    using assms(1) signed_in_ensure[OF assms(1)] one
    by (simp add: supabase_updateExpense_def signed_in_def Let_def)
  show "fst (supabase_updateExpense now i upd r) = Inr (?change sv)"
    by (simp add: out)
  show "remote_rows i (snd (supabase_updateExpense now i upd r)) = [?change sv]"
    using rows by (simp add: out remote_rows_def)
  show "signed_in u (snd (supabase_updateExpense now i upd r))"
    using assms(1) by (simp add: out signed_in_def)
qed

subsubsection \<open>The loop bodies and a conflict on another id\<close>

lemma upload_one_keeps:
  assumes "pending_conflict now u i l sv w"
    and "fst item = None \<or> (\<exists>j. fst item = Some j \<and> \<not> starts_with_temp j)"
  shows "pending_conflict now u i l sv (upload_one now server_id local_id item w)"
proof -
  obtain s r where w: "w = (s, r)" by (cases w)
  have si: "signed_in u r" and rows: "remote_rows i r = [sv]"
    using assms(1) w by (simp_all add: pending_conflict_def)
  have store: "fst (upload_one now server_id local_id item w) = s"
    using assms(2) w
    by (auto simp: upload_one_def split: prod.splits sum.splits option.splits)
  have remote: "snd (upload_one now server_id local_id item w)
                  = snd (supabase_addExpense now server_id (snd item) r)"
    using assms(2) w
    by (auto simp: upload_one_def split: prod.splits sum.splits option.splits)
  show ?thesis
    using assms(1) w store remote remote_add(1)[OF si] remote_add(2)[OF si, of i] rows
    by (simp add: pending_conflict_def)
qed

lemma download_one_keeps:
  assumes "pending_conflict now u i l sv w"
  shows "pending_conflict now u i l sv (download_one now local_id e w)"
proof -
  obtain s r where w: "w = (s, r)" by (cases w)
  have gs: "good_store now s" and lr: "local_record i s = Some l"
    using assms w by (simp_all add: pending_conflict_def)
  show ?thesis
    using assms w good_add(1)[OF gs] local_record_add[OF gs lr]
    by (simp add: pending_conflict_def download_one_def)
qed

text \<open>
  Resolving a conflict on another id \<open>j\<close> leaves what both stores hold under \<open>i\<close>, and
  their working order.
\<close>

lemma resolved_updates_id [simp]: "u_id (resolved_updates e) = None"
  by (simp add: resolved_updates_def)

lemma domain_updates_id [simp]: "u_id (domain_updates e) = None"
  by (simp add: domain_updates_def)

lemma resolve_one_other:
  assumes "good_store now s" and "signed_in u r"
    and "expense_id (fst c) \<noteq> i" and "expense_id (snd c) = expense_id (fst c)"
  shows "good_store now (fst (resolve_one now c (s, r)))"
    and "signed_in u (snd (resolve_one now c (s, r)))"
    and "local_record i (fst (resolve_one now c (s, r))) = local_record i s"
    and "remote_rows i (snd (resolve_one now c (s, r))) = remote_rows i r"
proof -
  let ?j = "expense_id (fst c)"
  obtain res r1 where rc: "resolveExpenseConflict now (fst c) (snd c) r = (res, r1)"
    by (cases "resolveExpenseConflict now (fst c) (snd c) r")
  have r1: "signed_in u r1 \<and> remote_rows i r1 = remote_rows i r"
    using rc assms(2) remote_update_other[OF assms(2,3), of "domain_updates (fst c)" now]
    by (auto simp: resolveExpenseConflict_def Let_def split: if_splits prod.splits sum.splits)
  have idres: "\<And>e. res = Inr e \<Longrightarrow> expense_id e = ?j"
  proof -
    fix e assume e: "res = Inr e"
    show "expense_id e = ?j"
    proof (cases "write_time (fst c) > write_time (snd c)")
      case False
      then show ?thesis using rc e assms(4) by (simp add: resolveExpenseConflict_def Let_def)
    next
      case True
      then have up: "fst (supabase_updateExpense now ?j (domain_updates (fst c)) r) = Inr e"
        using rc e
        by (auto simp: resolveExpenseConflict_def Let_def split: prod.splits sum.splits)
      have "ensureAuthenticated r = (Inr (uid u), r)" using signed_in_ensure[OF assms(2)] .
      then show ?thesis
        using up assms(2)
        by (auto simp: supabase_updateExpense_def Let_def signed_in_def
            split: list.splits if_splits dest: filter_singleton_holds)
    qed
  qed
  show "good_store now (fst (resolve_one now c (s, r)))"
    using rc assms(1) good_update(1)[OF assms(1)]
    by (cases res) (simp_all add: resolve_one_def)
  show "signed_in u (snd (resolve_one now c (s, r)))"
    using rc r1 by (cases res) (simp_all add: resolve_one_def)
  show "local_record i (fst (resolve_one now c (s, r))) = local_record i s"
  proof (cases res)
    case (Inl err)
    then show ?thesis using rc by (simp add: resolve_one_def)
  next
    case (Inr e)
    then have "expense_id e \<noteq> i" using idres assms(3) by simp
    then show ?thesis
      using rc Inr local_record_update_other[OF assms(1), of "expense_id e" i "resolved_updates e"]
      by (simp add: resolve_one_def)
  qed
  show "remote_rows i (snd (resolve_one now c (s, r))) = remote_rows i r"
    using rc r1 by (cases res) (simp_all add: resolve_one_def)
qed

subsubsection \<open>Resolving the conflict itself\<close>

lemma same_fields_resolved:
  "same_fields ((apply_updates a (resolved_updates b))\<lparr>updated_at := t\<rparr>) b"
  "synced ((apply_updates a (resolved_updates b))\<lparr>updated_at := t\<rparr>) = Some True"
  "same_fields ((apply_updates a (domain_updates b))\<lparr>updated_at := t\<rparr>) b"
  by (simp_all add: same_fields_def apply_updates_def resolved_updates_def domain_updates_def)

lemma same_fields_trans: "same_fields a b \<Longrightarrow> same_fields b c \<Longrightarrow> same_fields a c"
  by (simp add: same_fields_def)

lemma resolve_one_target:
  assumes "pending_conflict now u i l sv (s, r)" and "expense_id l = i"
    and "user_id sv = Some (uid u)"
  shows "settled_on now u i (winner l sv) (resolve_one now (l, sv) (s, r))"
proof -
  have gs: "good_store now s" and si: "signed_in u r"
    and lr: "local_record i s = Some l" and rows: "remote_rows i r = [sv]"
    using assms(1) by (simp_all add: pending_conflict_def)
  have idsv: "expense_id sv = i"
    using filter_singleton_holds[of "\<lambda>row. expense_id row = i" "expenses_table r" sv] rows
    by (simp add: remote_rows_def)
  show ?thesis
  proof (cases "write_time l > write_time sv")
    case False
    then have rc: "resolveExpenseConflict now l sv r = (Inr sv, r)"
      by (simp add: resolveExpenseConflict_def Let_def)
    have out: "resolve_one now (l, sv) (s, r)
                 = (snd (updateExpense now i (resolved_updates sv) s), r)"
      using rc idsv by (simp add: resolve_one_def)
    have w: "winner l sv = sv" using False by (simp add: winner_def)
    have "same_fields sv sv" by (simp add: same_fields_def)
    then show ?thesis
      using gs si rows good_update(1)[OF gs]
        local_record_update_target[OF gs lr, of "resolved_updates sv"]
        same_fields_resolved(1,2)[where a = l and b = sv and t = "Some now"]
      by (simp add: settled_on_def out w)
  next
    case True
    let ?row = "(apply_updates sv (domain_updates l))\<lparr>updated_at := Some now\<rparr>"
    let ?r' = "snd (supabase_updateExpense now i (domain_updates l) r)"
    note up = remote_update_target[OF si rows assms(3), of "domain_updates l" now]
    have rc: "resolveExpenseConflict now l sv r = (Inr ?row, ?r')"
      using True up(1) assms(2)
      by (cases "supabase_updateExpense now i (domain_updates l) r")
         (simp add: resolveExpenseConflict_def Let_def)
    have idrow: "expense_id ?row = i" using idsv by simp
    have out: "resolve_one now (l, sv) (s, r)
                 = (snd (updateExpense now i (resolved_updates ?row) s), ?r')"
      using rc idrow by (simp add: resolve_one_def)
    have w: "winner l sv = l" using True by (simp add: winner_def)
    have rowl: "same_fields ?row l" using same_fields_resolved(3)[where a = sv and b = l and t = "Some now"] .
    have locl: "same_fields ((apply_updates l (resolved_updates ?row))\<lparr>updated_at := Some now\<rparr>) l"
      using same_fields_trans[OF same_fields_resolved(1)[where a = l and b = ?row and t = "Some now"] rowl] .
    show ?thesis
      using gs up(2,3) good_update(1)[OF gs]
        local_record_update_target[OF gs lr, of "resolved_updates ?row"]
        same_fields_resolved(2)[where a = l and b = ?row and t = "Some now"] rowl locl
      by (simp add: settled_on_def out w)
  qed
qed

subsubsection \<open>The three loops\<close>

lemma upload_loop_keeps:
  "pending_conflict now u i l sv w
     \<Longrightarrow> \<forall>item \<in> set items. fst item = None \<or> (\<exists>j. fst item = Some j \<and> \<not> starts_with_temp j)
     \<Longrightarrow> pending_conflict now u i l sv (upload_loop now sids lids items w)"
proof (induction items arbitrary: sids lids w)
  case Nil
  then show ?case by simp
next
  case (Cons item items)
  have "pending_conflict now u i l sv (upload_one now (sids 0) (lids 0) item w)"
    using upload_one_keeps[OF Cons.prems(1)] Cons.prems(2) by simp
  then show ?case using Cons.IH Cons.prems(2) by simp
qed

lemma download_loop_keeps:
  "pending_conflict now u i l sv w
     \<Longrightarrow> pending_conflict now u i l sv (download_loop now lids es w)"
proof (induction es arbitrary: lids w)
  case Nil
  then show ?case by simp
next
  case (Cons e es)
  then show ?case using download_one_keeps by simp
qed

lemma conflict_loop_other:
  "good_store now (fst w) \<Longrightarrow> signed_in u (snd w)
     \<Longrightarrow> \<forall>c \<in> set cfs. expense_id (fst c) \<noteq> i \<and> expense_id (snd c) = expense_id (fst c)
     \<Longrightarrow> good_store now (fst (conflict_loop now cfs w))
       \<and> signed_in u (snd (conflict_loop now cfs w))
       \<and> local_record i (fst (conflict_loop now cfs w)) = local_record i (fst w)
       \<and> remote_rows i (snd (conflict_loop now cfs w)) = remote_rows i (snd w)"
proof (induction cfs arbitrary: w)
  case Nil
  then show ?case by simp
next
  case (Cons c cfs)
  obtain s r where w: "w = (s, r)" by (cases w)
  have c: "expense_id (fst c) \<noteq> i" "expense_id (snd c) = expense_id (fst c)"
    using Cons.prems(3) by simp_all
  note st = resolve_one_other[OF _ _ c, of now s u r]
  have gs: "good_store now s" and si: "signed_in u r" using Cons.prems(1,2) w by simp_all
  from Cons.IH[OF st(1)[OF gs si] st(2)[OF gs si]] Cons.prems(3)
  show ?case using w st(3)[OF gs si] st(4)[OF gs si] by simp
qed

lemma conflict_loop_settles:
  "pending_conflict now u i l sv w
     \<Longrightarrow> distinct (map (\<lambda>c. expense_id (fst c)) cfs)
     \<Longrightarrow> \<forall>c \<in> set cfs. expense_id (snd c) = expense_id (fst c)
     \<Longrightarrow> (l, sv) \<in> set cfs \<Longrightarrow> expense_id l = i \<Longrightarrow> user_id sv = Some (uid u)
     \<Longrightarrow> settled_on now u i (winner l sv) (conflict_loop now cfs w)"
proof (induction cfs arbitrary: w)
  case Nil
  then show ?case by simp
next
  case (Cons c cfs)
  obtain s r where w: "w = (s, r)" by (cases w)
  have pend: "pending_conflict now u i l sv (s, r)" using Cons.prems(1) w by simp
  have gs: "good_store now s" and si: "signed_in u r"
    using pend by (simp_all add: pending_conflict_def)
  show ?case
  proof (cases "c = (l, sv)")
    case True
    let ?w1 = "resolve_one now (l, sv) (s, r)"
    have fin: "settled_on now u i (winner l sv) ?w1"
      using resolve_one_target[OF pend Cons.prems(5,6)] .
    have "i \<notin> (\<lambda>c. expense_id (fst c)) ` set cfs"
      using Cons.prems(2,5) True by simp
    then have "\<forall>c' \<in> set cfs. expense_id (fst c') \<noteq> i"
      by (metis imageI)
    then have others: "\<forall>c' \<in> set cfs. expense_id (fst c') \<noteq> i
                    \<and> expense_id (snd c') = expense_id (fst c')"
      using Cons.prems(3) by simp
    have g1: "good_store now (fst ?w1)" and s1: "signed_in u (snd ?w1)"
      using fin by (simp_all add: settled_on_def)
    from conflict_loop_other[OF g1 s1 others] fin
    have "settled_on now u i (winner l sv) (conflict_loop now cfs ?w1)"
      by (simp add: settled_on_def)
    then show ?thesis using True w by simp
  next
    case False
    then have mem: "(l, sv) \<in> set cfs" using Cons.prems(4) by simp
    then have "i \<in> (\<lambda>c. expense_id (fst c)) ` set cfs"
      using Cons.prems(5) by force
    then have other: "expense_id (fst c) \<noteq> i" using Cons.prems(2) by auto
    have matched: "expense_id (snd c) = expense_id (fst c)" using Cons.prems(3) by simp
    note st = resolve_one_other[OF gs si other matched]
    have pend1: "pending_conflict now u i l sv (resolve_one now c (s, r))"
      using pend st by (simp add: pending_conflict_def)
    from Cons.IH[OF pend1 _ _ mem Cons.prems(5,6)] Cons.prems(2,3)
    show ?thesis using w by simp
  qed
qed

subsubsection \<open>The partitions\<close>

lemma find_SomeD: "find P xs = Some x \<Longrightarrow> P x \<and> x \<in> set xs"
  by (induction xs) (auto split: if_splits)

lemma set_map_filter_iff:
  "y \<in> set (List.map_filter g xs) \<longleftrightarrow> (\<exists>x \<in> set xs. g x = Some y)"
  by (induction xs) (auto simp: map_filter_simps split: option.splits)

lemma upload_items_shape:
  assumes "item \<in> set (expensesToUpload ls server u)"
  shows "fst item = None \<or> (\<exists>j. fst item = Some j \<and> \<not> starts_with_temp j)"
proof -
  from assms obtain x where i: "item = (if starts_with_temp (expense_id x)
                          then (None, x\<lparr>user_id := Some (uid u)\<rparr>)
                          else (Some (expense_id x), x))"
    unfolding expensesToUpload_def set_map by (rule imageE)
  show ?thesis
  proof (cases "starts_with_temp (expense_id x)")
    case True
    then have "fst item = None" using i by simp
    then show ?thesis by (rule disjI1)
  next
    case False
    then have "fst item = Some (expense_id x)" using i by simp
    then show ?thesis using False by blast
  qed
qed

lemma conflict_of_SomeD:
  assumes "conflict_of server x = Some c"
  shows "fst c = x" and "expense_id (snd c) = expense_id x"
proof -
  obtain sv where g: "map_get server (expense_id x) = Some sv"
    using assms by (cases "map_get server (expense_id x)") (simp_all add: conflict_of_def)
  have c: "c = (x, sv)"
    using assms g by (simp add: conflict_of_def split: if_splits)
  have "expense_id sv = expense_id x"
    using g find_SomeD[of "\<lambda>e. expense_id e = expense_id x" "rev server" sv]
    by (simp add: map_get_def)
  then show "fst c = x" and "expense_id (snd c) = expense_id x"
    using c by simp_all
qed

lemma conflicts_fst:
  "map fst (conflictsToResolve ls server) = filter (\<lambda>x. conflict_of server x \<noteq> None) ls"
proof (induction ls)
  case Nil
  show ?case by (simp add: conflictsToResolve_def map_filter_simps)
next
  case (Cons x ls)
  then show ?case
    using conflict_of_SomeD(1)[of server x]
    by (cases "conflict_of server x") (auto simp: conflictsToResolve_def map_filter_simps)
qed

lemma conflicts_distinct:
  assumes "distinct (map expense_id ls)"
  shows "distinct (map (\<lambda>c. expense_id (fst c)) (conflictsToResolve ls server))"
proof -
  have "map (\<lambda>c. expense_id (fst c)) (conflictsToResolve ls server)
          = map expense_id (map fst (conflictsToResolve ls server))"
    by (simp add: o_def)
  then show ?thesis
    using assms by (simp only: conflicts_fst) (simp add: distinct_map_filter)
qed

lemma conflicts_matched:
  assumes "c \<in> set (conflictsToResolve ls server)"
  shows "expense_id (snd c) = expense_id (fst c)"
proof -
  obtain x where "conflict_of server x = Some c"
    using assms by (auto simp: conflictsToResolve_def set_map_filter_iff)
  then show ?thesis
    using conflict_of_SomeD[of server x c] by simp
qed

lemma conflicts_member:
  assumes "x \<in> set ls" and "map_get server (expense_id x) = Some sv"
    and "\<not> starts_with_temp (expense_id x)" and "differs x sv"
  shows "(x, sv) \<in> set (conflictsToResolve ls server)"
proof -
  have "conflict_of server x = Some (x, sv)"
    using assms(2,3,4) by (simp add: conflict_of_def)
  then show ?thesis
    using assms(1) by (auto simp: conflictsToResolve_def set_map_filter_iff)
qed

lemma server_rows:
  assumes "signed_in u r"
  shows "supabase_getExpenses r
           = (Inr (rev (sort_key date
                 (filter (\<lambda>row. user_id row = Some (uid u)) (expenses_table r)))), r)"
  using assms signed_in_ensure[OF assms]
  by (simp add: supabase_getExpenses_def signed_in_def)

lemma map_get_server:
  assumes "distinct (map expense_id table)" and "sv \<in> set table"
    and "user_id sv = Some userId"
  shows "map_get (rev (sort_key date (filter (\<lambda>row. user_id row = Some userId) table)))
           (expense_id sv) = Some sv"
proof -
  let ?rows = "sort_key date (filter (\<lambda>row. user_id row = Some userId) table)"
  have d: "distinct (map expense_id ?rows)"
    using assms(1) by (simp add: distinct_map_sort_key distinct_map_filter)
  have m: "sv \<in> set ?rows" using assms(2,3) by simp
  show ?thesis
    using find_distinct_key[OF d m] by (simp add: map_get_def)
qed

subsubsection \<open>Reconciliation as a whole\<close>

lemma sync_settles:
  assumes gs: "good_store now s" and si: "signed_in u r"
    and dl: "distinct (map expense_id (stored_expenses s))"
    and dr: "distinct (map expense_id (expenses_table r))"
    and lm: "l \<in> set (stored_expenses s)" and sm: "sv \<in> set (expenses_table r)"
    and own: "user_id sv = Some (uid u)" and same: "expense_id sv = expense_id l"
    and nt: "\<not> starts_with_temp (expense_id l)" and df: "differs l sv"
  shows "fst (syncExpenses now sids lids (svc, s, r)) = Inr ()"
    and "settled_on now u (expense_id l) (winner l sv)
           (store_of (syncExpenses now sids lids (svc, s, r)),
            remote_of (syncExpenses now sids lids (svc, s, r)))"
proof -
  let ?ls = "stored_expenses s"
  let ?server = "rev (sort_key date (filter (\<lambda>row. user_id row = Some (uid u)) (expenses_table r)))"
  let ?w = "resolveExpenseConflicts now sids lids ?ls ?server u (s, r)"
  have lr: "local_record (expense_id l) s = Some l"
    using find_distinct_key[OF dl lm] by (simp add: local_record_def)
  have "filter (\<lambda>row. expense_id row = expense_id sv) (expenses_table r) = [sv]"
    using filter_distinct_key[OF dr sm] .
  then have rows: "remote_rows (expense_id l) r = [sv]"
    by (simp add: remote_rows_def same)
  have pend: "pending_conflict now u (expense_id l) l sv (s, r)"
    using gs si lr rows by (simp add: pending_conflict_def)
  have shape: "\<forall>item \<in> set (expensesToUpload ?ls ?server u).
                 fst item = None \<or> (\<exists>j. fst item = Some j \<and> \<not> starts_with_temp j)"
    using upload_items_shape by blast
  have got: "map_get ?server (expense_id l) = Some sv"
    using map_get_server[OF dr sm own] by (simp add: same)
  have mem: "(l, sv) \<in> set (conflictsToResolve ?ls ?server)"
    using conflicts_member[OF lm got nt df] .
  have matched: "\<forall>c \<in> set (conflictsToResolve ?ls ?server).
                   expense_id (snd c) = expense_id (fst c)"
    using conflicts_matched by blast
  have settled: "settled_on now u (expense_id l) (winner l sv) ?w"
    unfolding resolveExpenseConflicts_def Let_def
    by (rule conflict_loop_settles[OF
          download_loop_keeps[OF upload_loop_keeps[OF pend shape]]
          conflicts_distinct[OF dl] matched mem refl own])
  have out: "syncExpenses now sids lids (svc, s, r)
        = (Inr (),
           updateSyncStatus (\<lambda>st. st\<lparr>sync_in_progress := False\<rparr>)
             (updateSyncStatus (\<lambda>st. st\<lparr>last_sync := Some now, pending_changes := 0, error := None\<rparr>)
               (updateSyncStatus (\<lambda>st. st\<lparr>sync_in_progress := True, error := None\<rparr>) svc)),
           fst ?w, snd ?w)"
    using si by (simp add: syncExpenses_def signed_in_user[OF si] good_get[OF gs]
          server_rows[OF si] signed_in_def split_beta Let_def)
  show "fst (syncExpenses now sids lids (svc, s, r)) = Inr ()"
    by (simp only: out fst_conv)
  show "settled_on now u (expense_id l) (winner l sv)
           (store_of (syncExpenses now sids lids (svc, s, r)),
            remote_of (syncExpenses now sids lids (svc, s, r)))"
    using settled by (simp only: out store_of_def remote_of_def fst_conv snd_conv prod.collapse)
qed

text \<open>
  C1. Bulk reconciliation settles a conflict by last write wins. Take a Local Store whose
  persistence layer works and that is not expired, a reachable backend with a signed-in
  user, ids that are distinct on each side, and a local expense \<open>l\<close> and a row \<open>sv\<close> of
  that user with the same non-temporary id whose content, price or date differ. Then
  \<^verbatim>\<open>syncExpenses\<close> returns normally, and afterwards the Local Store holds one record under
  that id, flagged as synced, and the table holds exactly one row under it; both carry the
  content, price and date of \<open>l\<close> when the write time of \<open>l\<close> (its \<open>updated_at\<close>, or
  \<open>created_at\<close> when that is absent) is strictly later than that of \<open>sv\<close>, and those of
  \<open>sv\<close> otherwise (so also when the two times are equal).
\<close>

theorem sync_last_write_wins:
  assumes "good_store now s" and "signed_in u r"
    and "distinct (map expense_id (stored_expenses s))"
    and "distinct (map expense_id (expenses_table r))"
    and "l \<in> set (stored_expenses s)" and "sv \<in> set (expenses_table r)"
    and "user_id sv = Some (uid u)" and "expense_id sv = expense_id l"
    and "\<not> starts_with_temp (expense_id l)" and "differs l sv"
  shows "fst (syncExpenses now sids lids (svc, s, r)) = Inr ()
       \<and> (\<exists>l' row.
             local_record (expense_id l)
                 (store_of (syncExpenses now sids lids (svc, s, r))) = Some l'
           \<and> remote_rows (expense_id l)
                 (remote_of (syncExpenses now sids lids (svc, s, r))) = [row]
           \<and> synced l' = Some True
           \<and> (if write_time sv < write_time l
               then same_fields l' l \<and> same_fields row l
               else same_fields l' sv \<and> same_fields row sv))"
proof -
  let ?out = "syncExpenses now sids lids (svc, s, r)"
  note st = sync_settles[OF assms, of sids lids svc]
  obtain l' where l': "local_record (expense_id l) (store_of ?out) = Some l'"
    and fl: "same_fields l' (winner l sv)" and sy: "synced l' = Some True"
    using st(2) by (cases "local_record (expense_id l) (store_of ?out)")
                   (simp_all add: settled_on_def)
  have "\<exists>row. remote_rows (expense_id l) (remote_of ?out) = [row]
             \<and> same_fields row (winner l sv)"
  proof (cases "remote_rows (expense_id l) (remote_of ?out)")
    case Nil
    then show ?thesis using st(2) by (simp add: settled_on_def)
  next
    case (Cons row rest)
    then show ?thesis using st(2) by (cases rest) (simp_all add: settled_on_def)
  qed
  then obtain row where row: "remote_rows (expense_id l) (remote_of ?out) = [row]"
    and fr: "same_fields row (winner l sv)" by blast
  have "if write_time sv < write_time l
        then same_fields l' l \<and> same_fields row l
        else same_fields l' sv \<and> same_fields row sv"
    using fl fr by (cases "write_time sv < write_time l") (simp_all add: winner_def)
  then show ?thesis using st(1) l' row sy by blast
qed

theorem sync_last_write_wins_witness:
  "good_store 3000 store_ten \<and> signed_in sample_user remote_with_twelve
   \<and> local_ten \<in> set (stored_expenses store_ten)
   \<and> remote_twelve \<in> set (expenses_table remote_with_twelve)
   \<and> price local_ten = 10 \<and> price remote_twelve = 12
   \<and> write_time local_ten < write_time remote_twelve
   \<and> (\<exists>l' row.
         local_record ''e1''
             (store_of (syncExpenses 3000 server_ids local_ids
                          (idle_service, store_ten, remote_with_twelve))) = Some l'
       \<and> remote_rows ''e1''
             (remote_of (syncExpenses 3000 server_ids local_ids
                          (idle_service, store_ten, remote_with_twelve))) = [row]
       \<and> price l' = 12 \<and> price row = 12)"
proof -
  have hyps: "good_store 3000 store_ten" "signed_in sample_user remote_with_twelve"
    "distinct (map expense_id (stored_expenses store_ten))"
    "distinct (map expense_id (expenses_table remote_with_twelve))"
    "local_ten \<in> set (stored_expenses store_ten)"
    "remote_twelve \<in> set (expenses_table remote_with_twelve)"
    "user_id remote_twelve = Some (uid sample_user)"
    "expense_id remote_twelve = expense_id local_ten"
    "\<not> starts_with_temp (expense_id local_ten)" "differs local_ten remote_twelve"
    by (simp_all add: good_store_def signed_in_def isDataExpired_def stored_expenses_def
          store_ten_def empty_store_def remote_with_twelve_def sample_remote_def
          sample_user_def local_ten_def remote_twelve_def starts_with_temp_def differs_def)
  have facts: "price local_ten = 10" "price remote_twelve = 12"
    "write_time local_ten < write_time remote_twelve" "expense_id local_ten = ''e1''"
    by (simp_all add: local_ten_def remote_twelve_def write_time_def)
  from sync_last_write_wins[OF hyps, of server_ids local_ids idle_service]
  obtain l' row where
    "local_record ''e1''
        (store_of (syncExpenses 3000 server_ids local_ids
                     (idle_service, store_ten, remote_with_twelve))) = Some l'"
    "remote_rows ''e1''
        (remote_of (syncExpenses 3000 server_ids local_ids
                      (idle_service, store_ten, remote_with_twelve))) = [row]"
    "same_fields l' remote_twelve" "same_fields row remote_twelve"
    using facts by auto
  then show ?thesis
    using hyps(1,2,5,6) facts(1,2,3) by (auto simp: same_fields_def)
qed

end
